(* ===== verification/Prelude.thy ===== *)
theory Prelude
  imports Main "HOL-Library.Multiset" "HOL-Library.AList" "HOL-Library.Char_ord"
    "HOL-Library.List_Lexorder" "HOL-Library.Sublist"
begin

text \<open>
  Shared foundations of the development: how Go values, errors and effects are read in HOL.

  \<^item> slices: a Go slice is an \<open>'a slice\<close>, \<open>None\<close> for nil. \<open>len\<close> and \<open>range\<close> cannot tell nil
    from empty, but reflect.DeepEqual and encoding/json can, so the model keeps the difference
    where such an observation exists. Slices for which nothing observes it are plain lists.
  \<^item> maps: a Go map that is iterated is an association list with distinct keys. The order of
    the list is the order of insertion and is never observed: every \<open>range\<close> goes through
    \<open>range_keys f\<close>, where \<open>f\<close> is the order the runtime happens to choose (any permutation).
  \<^item> errors: \<open>go_error\<close>, with the classes the code tests for; a panic is a value of its own.
  \<^item> effects: \<open>('w, 'a) io\<close>, a state-and-error monad over an arbitrary world \<open>'w\<close>.
  \<^item> a small Hoare logic (\<open>hoareE\<close>, \<open>preserves\<close>) used by the reconciler theories.
\<close>

named_theorems io_run "equations that run the combinators of the effect monad"
named_theorems pres "rules that a computation preserves a predicate of the world"
named_theorems go_eval "definitions of the model a concrete evaluation unfolds"

section \<open>Slices\<close>

type_synonym 'a slice = "'a list option"

definition elems :: "'a slice \<Rightarrow> 'a list" where
  "elems s = (case s of None \<Rightarrow> [] | Some xs \<Rightarrow> xs)"

lemma elems_simps [simp]: "elems None = []" "elems (Some xs) = xs"
  by (simp_all add: elems_def)

text \<open>\<open>append(nil, xs...)\<close>: a fresh slice, which stays nil when nothing is appended.\<close>

definition append_nil :: "'a list \<Rightarrow> 'a slice" where
  "append_nil xs = (if xs = [] then None else Some xs)"

lemma elems_append_nil [simp]: "elems (append_nil xs) = xs"
  by (simp add: append_nil_def)

text \<open>A pointer that may be nil, as a list of at most one element.\<close>

definition opt_list :: "'a option \<Rightarrow> 'a list" where
  "opt_list x = (case x of None \<Rightarrow> [] | Some y \<Rightarrow> [y])"

lemma opt_list_simps [simp]: "opt_list None = []" "opt_list (Some y) = [y]"
  "opt_list x = [] \<longleftrightarrow> x = None" "opt_list x = [y] \<longleftrightarrow> x = Some y" "opt_list x \<noteq> a # b # ys"
  by (auto simp: opt_list_def split: option.splits)

section \<open>Errors\<close>

text \<open>
  The reasons of an API error are the ones the code asks for (apierrors.IsNotFound,
  IsAlreadyExists, IsConflict). \<open>Errorf\<close> is an error of fmt.Errorf or errors.New: its format
  and its rendered arguments. \<open>Panic\<close> is a run-time panic: not an error value in Go, it
  unwinds the whole call.
\<close>

datatype api_reason = NotFound | AlreadyExists | Conflict | OtherReason

datatype go_error =
    APIError api_reason string
  | Errorf string "string list"
  | Panic string

fun IsNotFound :: "go_error \<Rightarrow> bool" where
  "IsNotFound (APIError r _) = (r = NotFound)"
| "IsNotFound _ = False"

fun IsAlreadyExists :: "go_error \<Rightarrow> bool" where
  "IsAlreadyExists (APIError r _) = (r = AlreadyExists)"
| "IsAlreadyExists _ = False"

fun IsConflict :: "go_error \<Rightarrow> bool" where
  "IsConflict (APIError r _) = (r = Conflict)"
| "IsConflict _ = False"

fun is_panic :: "go_error \<Rightarrow> bool" where
  "is_panic (Panic _) = True"
| "is_panic _ = False"

text \<open>fmt.Sprintf on strings: every \<open>%s\<close> or \<open>%v\<close> takes the next argument.\<close>

fun sprintf :: "string \<Rightarrow> string list \<Rightarrow> string" where
  "sprintf (a # b # fmt) (x # xs) =
     (if a = CHR ''%'' \<and> (b = CHR ''s'' \<or> b = CHR ''v'') then x @ sprintf fmt xs
      else a # sprintf (b # fmt) (x # xs))"
| "sprintf fmt _ = fmt"

fun error_text :: "go_error \<Rightarrow> string" where
  "error_text (APIError _ msg) = msg"
| "error_text (Errorf fmt args) = sprintf fmt args"
| "error_text (Panic msg) = msg"

section \<open>The effect monad\<close>

type_synonym ('w, 'a) io = "'w \<Rightarrow> (go_error + 'a) \<times> 'w"

definition retE :: "'a \<Rightarrow> ('w, 'a) io" where
  "retE x = (\<lambda>w. (Inr x, w))"

definition throwE :: "go_error \<Rightarrow> ('w, 'a) io" where
  "throwE e = (\<lambda>w. (Inl e, w))"

text \<open>\<open>x, err := m(); if err != nil { return err }; f(x)\<close>\<close>

definition bindE :: "('w, 'a) io \<Rightarrow> ('a \<Rightarrow> ('w, 'b) io) \<Rightarrow> ('w, 'b) io" where
  "bindE m f = (\<lambda>w. case m w of (Inl e, w') \<Rightarrow> (Inl e, w') | (Inr x, w') \<Rightarrow> f x w')"

text \<open>
  \<open>x, err := m()\<close> followed by code that looks at \<open>err\<close>: the error becomes a value. A panic is
  not caught.
\<close>

definition attempt :: "('w, 'a) io \<Rightarrow> ('w, go_error + 'a) io" where
  "attempt m = (\<lambda>w. case m w of
     (Inl e, w') \<Rightarrow> (if is_panic e then Inl e else Inr (Inl e), w')
   | (Inr x, w') \<Rightarrow> (Inr (Inr x), w'))"

definition liftE :: "go_error + 'a \<Rightarrow> ('w, 'a) io" where
  "liftE r = (\<lambda>w. (r, w))"

definition askE :: "('w \<Rightarrow> 'a) \<Rightarrow> ('w, 'a) io" where
  "askE f = (\<lambda>w. (Inr (f w), w))"

text \<open>A loop over a list that stops at the first error, collecting the results.\<close>

fun mapE :: "('a \<Rightarrow> ('w, 'b) io) \<Rightarrow> 'a list \<Rightarrow> ('w, 'b list) io" where
  "mapE f [] = retE []"
| "mapE f (x # xs) = bindE (f x) (\<lambda>y. bindE (mapE f xs) (\<lambda>ys. retE (y # ys)))"

fun forE :: "('a \<Rightarrow> ('w, unit) io) \<Rightarrow> 'a list \<Rightarrow> ('w, unit) io" where
  "forE f [] = retE ()"
| "forE f (x # xs) = bindE (f x) (\<lambda>_. forE f xs)"

fun foldE :: "('a \<Rightarrow> 's \<Rightarrow> ('w, 's) io) \<Rightarrow> 'a list \<Rightarrow> 's \<Rightarrow> ('w, 's) io" where
  "foldE f [] s = retE s"
| "foldE f (x # xs) s = bindE (f x s) (\<lambda>s'. foldE f xs s')"

lemma retE_run [simp, io_run]: "retE x w = (Inr x, w)"
  by (simp add: retE_def)

lemma throwE_run [simp, io_run]: "throwE e w = (Inl e, w)"
  by (simp add: throwE_def)

lemma liftE_run [simp, io_run]: "liftE r w = (r, w)"
  by (simp add: liftE_def)

lemma askE_run [simp, io_run]: "askE f w = (Inr (f w), w)"
  by (simp add: askE_def)

lemma bindE_Inr [simp, io_run]: "m w = (Inr x, w') \<Longrightarrow> bindE m f w = f x w'"
  by (simp add: bindE_def)

lemma bindE_Inl [simp, io_run]: "m w = (Inl e, w') \<Longrightarrow> bindE m f w = (Inl e, w')"
  by (simp add: bindE_def)

lemma attempt_Inr [simp, io_run]: "m w = (Inr x, w') \<Longrightarrow> attempt m w = (Inr (Inr x), w')"
  by (simp add: attempt_def)

lemma attempt_Inl [simp, io_run]:
  "m w = (Inl e, w') \<Longrightarrow> attempt m w = (if is_panic e then Inl e else Inr (Inl e), w')"
  by (simp add: attempt_def)

lemma bindE_InrE:
  assumes "bindE m f w = (Inr y, w'')"
  obtains x w' where "m w = (Inr x, w')" "f x w' = (Inr y, w'')"
  using assms by (auto simp: bindE_def split: prod.splits sum.splits)

lemma bindE_InlE:
  assumes "bindE m f w = (Inl e, w'')"
  obtains (here) "m w = (Inl e, w'')"
    | (later) x w' where "m w = (Inr x, w')" "f x w' = (Inl e, w'')"
  using assms by (auto simp: bindE_def split: prod.splits sum.splits)

lemma bindE_assoc: "bindE (bindE m f) g = bindE m (\<lambda>x. bindE (f x) g)"
  by (rule ext) (auto simp: bindE_def split: prod.splits sum.splits)

lemma foldE_append: "foldE f (xs @ ys) s = bindE (foldE f xs s) (foldE f ys)"
proof (induction xs arbitrary: s)
  case Nil
  then show ?case by (simp add: bindE_def retE_def)
next
  case (Cons x xs)
  have "foldE f (xs @ ys) = (\<lambda>s'. bindE (foldE f xs s') (foldE f ys))" by (rule ext) (rule Cons.IH)
  then show ?case by (simp add: bindE_assoc)
qed

lemma foldE_map: "foldE f (map g xs) = foldE (\<lambda>x. f (g x)) xs"
proof (induction xs)
  case Nil
  show ?case by (rule ext) simp
next
  case (Cons x xs)
  show ?case by (rule ext) (simp add: Cons.IH)
qed

lemma forE_append: "forE f (xs @ ys) = bindE (forE f xs) (\<lambda>_. forE f ys)"
proof (induction xs)
  case Nil
  show ?case by (rule ext) simp
next
  case (Cons x xs)
  then show ?case by (simp add: bindE_assoc)
qed

lemma forE_map: "forE f (map g xs) = forE (\<lambda>x. f (g x)) xs"
  by (induction xs) simp_all

lemma mapE_forE:
  "mapE f xs w = (Inr ys, w') \<Longrightarrow> forE (\<lambda>x. bindE (f x) (\<lambda>_. retE ())) xs w = (Inr (), w')"
proof (induction xs arbitrary: ys w)
  case Nil
  then show ?case by simp
next
  case (Cons x xs)
  then obtain y w1 zs where "f x w = (Inr y, w1)" "mapE f xs w1 = (Inr zs, w')"
    by (auto elim!: bindE_InrE)
  with Cons.IH show ?case by (simp add: bindE_def)
qed

lemma mapE_append:
  "mapE f xs w = (Inr as, w1) \<Longrightarrow> mapE f ys w1 = (Inr bs, w2) \<Longrightarrow> mapE f (xs @ ys) w = (Inr (as @ bs), w2)"
  by (induction xs arbitrary: as w) (auto elim!: bindE_InrE)

lemma mapE_map: "mapE f (map g xs) = mapE (\<lambda>x. f (g x)) xs"
  by (induction xs) simp_all

lemma mapE_results:
  "mapE f xs w = (Inr ys, w') \<Longrightarrow> list_all2 (\<lambda>x y. \<exists>w1 w2. f x w1 = (Inr y, w2)) xs ys"
proof (induction xs arbitrary: ys w)
  case Nil
  then show ?case by simp
next
  case (Cons x xs)
  then obtain y w1 zs where "f x w = (Inr y, w1)" "mapE f xs w1 = (Inr zs, w')" "ys = y # zs"
    by (auto elim!: bindE_InrE)
  with Cons.IH show ?case by blast
qed

text \<open>
  What each round of a successful loop establishes holds at its end: \<open>I\<close> is kept by all rounds,
  and a round does not spoil what another one, for another key, has established.
\<close>

lemma forE_each:
  assumes "forE f xs w = (Inr (), w')" "I w" "distinct (map key xs)"
    and "\<And>x w w'. x \<in> set xs \<Longrightarrow> I w \<Longrightarrow> f x w = (Inr (), w') \<Longrightarrow>
      I w' \<and> Q x w' \<and> (\<forall>y \<in> set xs. key y \<noteq> key x \<longrightarrow> Q y w \<longrightarrow> Q y w')"
  shows "I w' \<and> (\<forall>x \<in> set xs. Q x w')"
proof -
  have "I w' \<and> (\<forall>x \<in> set ys. Q x w') \<and>
      (\<forall>z \<in> set xs. key z \<notin> key ` set ys \<longrightarrow> Q z w \<longrightarrow> Q z w')"
    if "forE f ys w = (Inr (), w')" "I w" "distinct (map key ys)" "set ys \<subseteq> set xs" for ys w
    using that
  proof (induction ys arbitrary: w)
    case Nil
    then show ?case by simp
  next
    case (Cons y ys)
    from Cons.prems(1) obtain w1 where "f y w = (Inr (), w1)" "forE f ys w1 = (Inr (), w')"
      by (auto elim: bindE_InrE)
    with Cons.prems assms(4)[of y w w1] Cons.IH[of w1] show ?case by auto
  qed
  from this[OF assms(1-3)] show ?thesis by simp
qed

text \<open>
  A loop whose body reads one thing per element: \<open>look\<close> says what the read gives in the world
  \<open>w\<close>, which it leaves as it is. The loop succeeds when every read does.
\<close>

lemma foldE_reads:
  assumes "\<And>x. x \<in> set xs \<Longrightarrow> case look x of Some y \<Rightarrow> m x w = (Inr y, w) | None \<Rightarrow> \<exists>e. m x w = (Inl e, w)"
  shows "case those (map look xs) of
      Some ys \<Rightarrow> foldE (\<lambda>x s. bindE (m x) (\<lambda>y. retE (f x y s))) xs s w =
        (Inr (fold (\<lambda>(x, y). f x y) (zip xs ys) s), w)
    | None \<Rightarrow> \<exists>e. foldE (\<lambda>x s. bindE (m x) (\<lambda>y. retE (f x y s))) xs s w = (Inl e, w)"
  using assms
proof (induction xs arbitrary: s)
  case Nil
  then show ?case by simp
next
  case (Cons x xs)
  show ?case
  proof (cases "look x")
    case None
    with Cons.prems[of x] obtain e where "m x w = (Inl e, w)" by auto
    with None show ?thesis by auto
  next
    case (Some y)
    with Cons.prems[of x] have x: "m x w = (Inr y, w)" by simp
    have "case those (map look xs) of
        Some ys \<Rightarrow> foldE (\<lambda>x s. bindE (m x) (\<lambda>y. retE (f x y s))) xs (f x y s) w =
          (Inr (fold (\<lambda>(x, y). f x y) (zip xs ys) (f x y s)), w)
      | None \<Rightarrow> \<exists>e. foldE (\<lambda>x s. bindE (m x) (\<lambda>y. retE (f x y s))) xs (f x y s) w = (Inl e, w)"
      by (rule Cons.IH) (use Cons.prems in simp)
    with Some x show ?thesis by (auto split: option.splits)
  qed
qed

lemma those_eq_Some: "those xs = Some ys \<longleftrightarrow> xs = map Some ys"
  by (induction xs arbitrary: ys) (auto split: option.splits)

lemma those_eq_None: "those xs = None \<longleftrightarrow> None \<in> set xs"
  by (induction xs) (auto split: option.splits)

section \<open>Hoare triples and preservation\<close>

text \<open>\<open>hoareE P m Q E\<close>: from a world in \<open>P\<close>, success ends in \<open>Q\<close> and an error ends in \<open>E\<close>.\<close>

definition hoareE ::
    "('w \<Rightarrow> bool) \<Rightarrow> ('w, 'a) io \<Rightarrow> ('a \<Rightarrow> 'w \<Rightarrow> bool) \<Rightarrow> (go_error \<Rightarrow> 'w \<Rightarrow> bool) \<Rightarrow> bool" where
  "hoareE P m Q E \<longleftrightarrow> (\<forall>w. P w \<longrightarrow> (case m w of (Inl e, w') \<Rightarrow> E e w' | (Inr x, w') \<Rightarrow> Q x w'))"

definition preserves :: "('w \<Rightarrow> bool) \<Rightarrow> ('w, 'a) io \<Rightarrow> bool" where
  "preserves P m \<longleftrightarrow> (\<forall>w. P w \<longrightarrow> P (snd (m w)))"

lemma preservesD: "preserves P m \<Longrightarrow> P w \<Longrightarrow> m w = (r, w') \<Longrightarrow> P w'"
  by (auto simp: preserves_def dest!: spec[of _ w])

lemma preservesI: "(\<And>w r w'. P w \<Longrightarrow> m w = (r, w') \<Longrightarrow> P w') \<Longrightarrow> preserves P m"
  by (metis preserves_def prod.collapse)

lemma preserves_retE [pres]: "preserves P (retE x)"
  by (simp add: preserves_def)

lemma preserves_throwE [pres]: "preserves P (throwE e)"
  by (simp add: preserves_def)

lemma preserves_liftE [pres]: "preserves P (liftE r)"
  by (simp add: preserves_def)

lemma preserves_askE [pres]: "preserves P (askE f)"
  by (simp add: preserves_def)

lemma preserves_bindE [pres]:
  "preserves P m \<Longrightarrow> (\<And>x. preserves P (f x)) \<Longrightarrow> preserves P (bindE m f)"
  by (auto simp: preserves_def bindE_def split: prod.splits sum.splits)

lemma preserves_attempt [pres]: "preserves P m \<Longrightarrow> preserves P (attempt m)"
  by (auto simp: preserves_def attempt_def split: prod.splits sum.splits)

lemma preserves_if [pres]:
  "(b \<Longrightarrow> preserves P m) \<Longrightarrow> (\<not> b \<Longrightarrow> preserves P n) \<Longrightarrow> preserves P (if b then m else n)"
  by simp

lemma preserves_case_option [pres]:
  "(x = None \<Longrightarrow> preserves P m) \<Longrightarrow> (\<And>y. x = Some y \<Longrightarrow> preserves P (f y)) \<Longrightarrow>
   preserves P (case x of None \<Rightarrow> m | Some y \<Rightarrow> f y)"
  by (cases x) simp_all

lemma preserves_case_sum [pres]:
  "(\<And>e. x = Inl e \<Longrightarrow> preserves P (m e)) \<Longrightarrow> (\<And>y. x = Inr y \<Longrightarrow> preserves P (f y)) \<Longrightarrow>
   preserves P (case x of Inl e \<Rightarrow> m e | Inr y \<Rightarrow> f y)"
  by (cases x) simp_all

lemma preserves_case_prod [pres]:
  "(\<And>a b. x = (a, b) \<Longrightarrow> preserves P (f a b)) \<Longrightarrow> preserves P (case x of (a, b) \<Rightarrow> f a b)"
  by (cases x) simp

lemma preserves_Let [pres]: "preserves P (f x) \<Longrightarrow> preserves P (let y = x in f y)"
  by simp

lemma preserves_mapE [pres]: "(\<And>x. x \<in> set xs \<Longrightarrow> preserves P (f x)) \<Longrightarrow> preserves P (mapE f xs)"
  by (induction xs) (auto intro!: pres)

lemma preserves_forE [pres]: "(\<And>x. x \<in> set xs \<Longrightarrow> preserves P (f x)) \<Longrightarrow> preserves P (forE f xs)"
  by (induction xs) (auto intro!: pres)

lemma preserves_foldE [pres]:
  "(\<And>x s. x \<in> set xs \<Longrightarrow> preserves P (f x s)) \<Longrightarrow> preserves P (foldE f xs s)"
  by (induction xs arbitrary: s) (auto intro!: pres)

lemma hoareE_run:
  "hoareE P m Q E \<Longrightarrow> P w \<Longrightarrow> m w = (Inr x, w') \<Longrightarrow> Q x w'"
  "hoareE P m Q E \<Longrightarrow> P w \<Longrightarrow> m w = (Inl e, w') \<Longrightarrow> E e w'"
  by (auto simp: hoareE_def dest!: spec[of _ w])

lemma hoareE_bindE:
  "hoareE P m R E \<Longrightarrow> (\<And>x. hoareE (R x) (f x) Q E) \<Longrightarrow> hoareE P (bindE m f) Q E"
  by (fastforce simp: hoareE_def bindE_def split: prod.splits sum.splits)

lemma hoareE_forE:
  assumes "\<And>x. x \<in> set xs \<Longrightarrow> hoareE I (f x) (\<lambda>_. I) E"
  shows "hoareE I (forE f xs) (\<lambda>_. I) E"
  using assms
proof (induction xs)
  case Nil
  then show ?case by (simp add: hoareE_def)
next
  case (Cons x xs)
  then show ?case by (auto intro!: hoareE_bindE[where R = "\<lambda>_. I"])
qed

section \<open>Go maps as association lists\<close>

text \<open>
  The keys a \<open>range\<close> visits: the runtime's choice \<open>f\<close> where it is a permutation of the keys.
  So every function \<open>f\<close> is a choice, and every permutation is some function's choice.
\<close>

definition range_keys :: "('k list \<Rightarrow> 'k list) \<Rightarrow> ('k \<times> 'v) list \<Rightarrow> 'k list" where
  "range_keys f m = (let ks = map fst m in if mset (f ks) = mset ks then f ks else ks)"

lemma mset_range_keys [simp]: "mset (range_keys f m) = mset (map fst m)"
  by (simp add: range_keys_def Let_def)

lemma set_range_keys [simp]: "set (range_keys f m) = fst ` set m"
  by (metis mset_range_keys list.set_map set_mset_mset)

lemma distinct_range_keys [simp]: "distinct (range_keys f m) = distinct (map fst m)"
  by (metis mset_range_keys mset_eq_imp_distinct_iff)

lemma range_keys_exists:
  "mset ks = mset (map fst m) \<Longrightarrow> range_keys (\<lambda>_. ks) m = ks"
  by (simp add: range_keys_def)

text \<open>\<open>m[k]\<close> for a map of slices: the zero value (an empty slice) where the key is absent.\<close>

definition lookup_list :: "('k \<times> 'v list) list \<Rightarrow> 'k \<Rightarrow> 'v list" where
  "lookup_list m k = (case map_of m k of None \<Rightarrow> [] | Some xs \<Rightarrow> xs)"

text \<open>\<open>m[k] = append(m[k], xs...)\<close>\<close>

definition append_at :: "'k \<Rightarrow> 'v list \<Rightarrow> ('k \<times> 'v list) list \<Rightarrow> ('k \<times> 'v list) list" where
  "append_at k xs m = AList.update k (lookup_list m k @ xs) m"

lemma lookup_list_Nil [simp]: "lookup_list [] k = []"
  by (simp add: lookup_list_def)

lemma map_of_append_at:
  "map_of (append_at k xs m) = (map_of m)(k \<mapsto> lookup_list m k @ xs)"
  by (simp add: append_at_def update_conv')

lemma lookup_append_at:
  "lookup_list (append_at k xs m) k' = (if k' = k then lookup_list m k @ xs else lookup_list m k')"
  by (simp add: lookup_list_def map_of_append_at)

lemma distinct_append_at [simp]: "distinct (map fst m) \<Longrightarrow> distinct (map fst (append_at k xs m))"
  by (simp add: append_at_def distinct_update)

lemma lookup_fold_append_at:
  "lookup_list (fold (\<lambda>k. append_at k xs) ks m) d = lookup_list m d @ concat (replicate (count_list ks d) xs)"
  by (induction ks arbitrary: m) (auto simp: lookup_append_at)

lemma distinct_fold_append_at [simp]:
  "distinct (map fst m) \<Longrightarrow> distinct (map fst (fold (\<lambda>k. append_at k xs) ks m))"
  by (induction ks arbitrary: m) auto

lemma keys_append_at [simp]: "fst ` set (append_at k xs m) = insert k (fst ` set m)"
  by (simp add: append_at_def dom_update)

lemma map_of_eq_keys:
  "map_of m = map_of m' \<Longrightarrow> fst ` set m = fst ` set m'"
  by (metis dom_map_of_conv_image_fst)

lemma map_of_mset_keys:
  assumes "map_of m = map_of m'" "distinct (map fst m)" "distinct (map fst m')"
  shows "mset (map fst m) = mset (map fst m')"
proof -
  have "set (map fst m) = set (map fst m')"
    using map_of_eq_keys[OF assms(1)] by simp
  with assms(2,3) show ?thesis by (simp add: set_eq_iff_mset_eq_distinct del: mset_map set_map)
qed

section \<open>Lists\<close>

lemma concat_map_eq_multiset:
  "mset xs = mset ys \<Longrightarrow> mset (concat (map f xs)) = mset (concat (map f ys))"
  by (metis mset_concat mset_map sum_mset_sum_list)

lemma concat_map_mset_cong:
  assumes "mset xs = mset ys" and "\<And>x. mset (f x) = mset (g x)"
  shows "mset (concat (map f xs)) = mset (concat (map g ys))"
proof -
  have "mset (concat (map f xs)) = mset (concat (map f ys))"
    using assms(1) by (rule concat_map_eq_multiset)
  also have "\<dots> = mset (concat (map g ys))"
    by (induction ys) (simp_all add: assms(2))
  finally show ?thesis .
qed

lemma filter_concat_map:
  "filter P (concat (map f xs)) = concat (map (\<lambda>x. filter P (f x)) xs)"
  by (induction xs) auto

lemma concat_map_single:
  assumes "distinct ks" and "\<And>x. x \<in> set ks \<Longrightarrow> x \<noteq> k \<Longrightarrow> f x = []"
  shows "concat (map f ks) = (if k \<in> set ks then f k else [])"
  using assms by (induction ks) auto

end
