(* ===== verification/Go_Strings.thy ===== *)
theory Go_Strings
  imports Prelude
begin

text \<open>
  What the code uses of the Go standard packages strings and sort, on strings as byte lists:
  strings.Split with a one-byte separator, strings.HasSuffix, strings.Compare, and sort.Sort.
  The locales \<open>key_codec\<close> and \<open>total_less\<close> are the two contracts the other theories use: a
  printable key with a parser, and a comparison that orders up to a key.
\<close>

section \<open>Package strings\<close>

fun Split :: "string \<Rightarrow> char \<Rightarrow> string list" where
  "Split [] sep = ['''']"
| "Split (x # xs) sep =
     (if x = sep then [] # Split xs sep
      else case Split xs sep of [] \<Rightarrow> [x # []] | y # ys \<Rightarrow> (x # y) # ys)"

definition HasSuffix :: "string \<Rightarrow> string \<Rightarrow> bool" where
  "HasSuffix s suff = (length suff \<le> length s \<and> drop (length s - length suff) s = suff)"

definition Compare :: "string \<Rightarrow> string \<Rightarrow> int" where
  "Compare a b = (if a = b then 0 else if a < b then -1 else 1)"

lemma Split_nonempty [simp]: "Split s sep \<noteq> []"
  by (induction s) (auto split: list.splits)

lemma Split_absent [simp]: "sep \<notin> set s \<Longrightarrow> Split s sep = [s]"
  by (induction s) auto

lemma Split_append [simp]: "sep \<notin> set a \<Longrightarrow> Split (a @ sep # b) sep = a # Split b sep"
  by (induction a) auto

lemma length_Split: "length (Split s sep) = Suc (count_list s sep)"
  by (induction s) (auto split: list.splits)

lemma Split_parts: "p \<in> set (Split s sep) \<Longrightarrow> sep \<notin> set p"
proof (induction s arbitrary: p)
  case Nil
  then show ?case by simp
next
  case (Cons x xs)
  then show ?case
    by (cases "Split xs sep") (auto split: if_splits)
qed

lemma Split_subset: "p \<in> set (Split s sep) \<Longrightarrow> set p \<subseteq> set s"
proof (induction s arbitrary: p)
  case Nil
  then show ?case by simp
next
  case (Cons x xs)
  then show ?case
    by (cases "Split xs sep") (force split: if_splits)+
qed

text \<open>Splitting loses nothing: joining the parts again gives the string.\<close>

fun join :: "char \<Rightarrow> string list \<Rightarrow> string" where
  "join sep [] = []"
| "join sep [p] = p"
| "join sep (p # q # ps) = p @ sep # join sep (q # ps)"

lemma join_Split: "join sep (Split s sep) = s"
proof (induction s)
  case Nil
  then show ?case by simp
next
  case (Cons x xs)
  obtain y ys where "Split xs sep = y # ys"
    by (cases "Split xs sep") auto
  with Cons show ?case by (cases ys) auto
qed

lemma Split_two: "Split s sep = [a, b] \<longleftrightarrow> s = a @ sep # b \<and> sep \<notin> set a \<and> sep \<notin> set b"
proof
  assume h: "Split s sep = [a, b]"
  then have "s = a @ sep # b" by (metis join_Split join.simps(2,3))
  moreover have "sep \<notin> set a" "sep \<notin> set b"
    using Split_parts[of _ s sep] h by simp_all
  ultimately show "s = a @ sep # b \<and> sep \<notin> set a \<and> sep \<notin> set b" by simp
qed simp

lemma HasSuffix_iff: "HasSuffix s suff \<longleftrightarrow> suffix suff s"
  unfolding HasSuffix_def suffix_def
  by (metis append_eq_conv_conj append_take_drop_id diff_diff_cancel diff_is_0_eq' le_add2
      length_append length_drop nat_le_linear add_diff_cancel_right')

lemma Compare_eq_0 [simp]: "Compare a b = 0 \<longleftrightarrow> a = b"
  by (simp add: Compare_def)

lemma Compare_self [simp]: "Compare a a = 0"
  by simp

lemma Compare_less: "Compare a b = -1 \<longleftrightarrow> a < b"
  by (auto simp: Compare_def)

lemma Compare_greater: "Compare a b = 1 \<longleftrightarrow> b < a"
  by (auto simp: Compare_def)

lemma Compare_cases:
  obtains "Compare a b = 0" "a = b" | "Compare a b = -1" "a < b" | "Compare a b = 1" "b < a"
  by (metis Compare_eq_0 Compare_less Compare_greater neq_iff)

section \<open>Keys printed with a separator\<close>

text \<open>
  A codec prints values as strings and parses them back on the values it is made for. What the
  clients need: parsing what was printed, and that two values never print alike.
\<close>

locale key_codec =
  fixes enc :: "'a \<Rightarrow> string"
    and dec :: "string \<Rightarrow> go_error + 'a"
    and ok :: "'a \<Rightarrow> bool"
  assumes dec_enc: "ok x \<Longrightarrow> dec (enc x) = Inr x"
begin

lemma enc_inj: "ok x \<Longrightarrow> ok y \<Longrightarrow> enc x = enc y \<longleftrightarrow> x = y"
  by (metis dec_enc sum.inject(2))

lemma dec_enc_iff: "ok x \<Longrightarrow> dec (enc x) = Inr y \<longleftrightarrow> x = y"
  by (simp add: dec_enc)

end

section \<open>Package sort\<close>

text \<open>
  sort.Sort on a short slice: Go's insertionSort, \<open>for i { for j := i; j > 0 && Less(j, j-1);
  j-- { Swap(j, j-1) } }\<close>. The prefix is kept reversed: the new element moves left while it is
  less than its left neighbour. sort.Sort switches to quicksort on long slices; \<open>sorted_unique\<close>
  in the locale below says that any algorithm that sorts gives the same list.
\<close>

fun insert_left :: "('a \<Rightarrow> 'a \<Rightarrow> bool) \<Rightarrow> 'a \<Rightarrow> 'a list \<Rightarrow> 'a list" where
  "insert_left lt x [] = [x]"
| "insert_left lt x (y # ys) = (if lt x y then y # insert_left lt x ys else x # y # ys)"

fun insertion_sort_rev :: "('a \<Rightarrow> 'a \<Rightarrow> bool) \<Rightarrow> 'a list \<Rightarrow> 'a list \<Rightarrow> 'a list" where
  "insertion_sort_rev lt acc [] = acc"
| "insertion_sort_rev lt acc (x # xs) = insertion_sort_rev lt (insert_left lt x acc) xs"

definition sort_Sort :: "('a \<Rightarrow> 'a \<Rightarrow> bool) \<Rightarrow> 'a list \<Rightarrow> 'a list" where
  "sort_Sort lt xs = rev (insertion_sort_rev lt [] xs)"

lemma mset_insert_left [simp]: "mset (insert_left lt x ys) = add_mset x (mset ys)"
  by (induction ys) auto

lemma mset_insertion_sort_rev: "mset (insertion_sort_rev lt acc xs) = mset acc + mset xs"
  by (induction xs arbitrary: acc) auto

lemma mset_sort_Sort [simp]: "mset (sort_Sort lt xs) = mset xs"
  by (simp add: sort_Sort_def mset_insertion_sort_rev)

lemma set_sort_Sort [simp]: "set (sort_Sort lt xs) = set xs"
  by (metis mset_sort_Sort set_mset_mset)

lemma sort_Sort_eq_Nil [simp]: "sort_Sort lt xs = [] \<longleftrightarrow> xs = []"
  by (metis mset_sort_Sort mset_zero_iff)

lemma length_sort_Sort [simp]: "length (sort_Sort lt xs) = length xs"
  by (metis mset_sort_Sort size_mset)

text \<open>
  A comparison that orders totally, up to a key: two elements that compare equal have the same
  key. It may hold of an element and itself (\<open>LimitList.Less\<close> does) or not.
\<close>

locale total_less =
  fixes lt :: "'a \<Rightarrow> 'a \<Rightarrow> bool" and key :: "'a \<Rightarrow> 'k"
  assumes less_total: "lt x y \<or> lt y x \<or> key x = key y"
    and less_trans: "lt x y \<Longrightarrow> lt y z \<Longrightarrow> lt x z"
    and less_antisym: "lt x y \<Longrightarrow> lt y x \<Longrightarrow> key x = key y"
    and less_key: "key x = key x' \<Longrightarrow> key y = key y' \<Longrightarrow> lt x y = lt x' y'"
begin

definition leq :: "'a \<Rightarrow> 'a \<Rightarrow> bool" where
  "leq x y \<longleftrightarrow> lt x y \<or> key x = key y"

lemma leq_trans: "leq x y \<Longrightarrow> leq y z \<Longrightarrow> leq x z"
  unfolding leq_def by (metis less_trans less_key)

lemma leq_antisym: "leq x y \<Longrightarrow> leq y x \<Longrightarrow> key x = key y"
  unfolding leq_def by (metis less_antisym)

lemma not_less_leq: "\<not> lt x y \<Longrightarrow> leq y x"
  unfolding leq_def by (metis less_total)

lemma set_insert_left: "set (insert_left lt x ys) = insert x (set ys)"
  by (induction ys) auto

lemma sorted_insert_left:
  "sorted_wrt (\<lambda>a b. leq b a) ys \<Longrightarrow> sorted_wrt (\<lambda>a b. leq b a) (insert_left lt x ys)"
proof (induction ys)
  case Nil
  then show ?case by simp
next
  case (Cons y ys)
  show ?case
  proof (cases "lt x y")
    case True
    with Cons show ?thesis by (auto simp: set_insert_left leq_def)
  next
    case False
    with Cons show ?thesis by (auto dest: not_less_leq intro: leq_trans)
  qed
qed

lemma sorted_insertion_sort_rev:
  "sorted_wrt (\<lambda>a b. leq b a) acc \<Longrightarrow> sorted_wrt (\<lambda>a b. leq b a) (insertion_sort_rev lt acc xs)"
  by (induction xs arbitrary: acc) (auto intro: sorted_insert_left)

lemma sorted_sort_Sort: "sorted_wrt leq (sort_Sort lt xs)"
  unfolding sort_Sort_def sorted_wrt_rev
  by (rule sorted_insertion_sort_rev) simp

text \<open>Whichever algorithm sorts, the list is the same where the key tells elements apart.\<close>

lemma sorted_unique:
  assumes "sorted_wrt leq xs" "sorted_wrt leq ys" "mset xs = mset ys" "inj_on key (set xs)"
  shows "xs = ys"
  using assms
proof (induction xs arbitrary: ys)
  case Nil
  then show ?case by simp
next
  case (Cons x xs)
  then obtain y ys' where ys: "ys = y # ys'" by (cases ys) auto
  have sets: "set (x # xs) = set (y # ys')"
    using Cons.prems(3) ys by (metis set_mset_mset)
  have "leq x y \<or> x = y" "leq y x \<or> x = y"
    using Cons.prems(1,2) sets ys by (auto simp: set_eq_iff)
  then have "key x = key y" by (auto dest: leq_antisym)
  then have xy: "x = y"
    using Cons.prems(4) sets by (auto dest!: inj_onD[where x = x and y = y])
  have "xs = ys'"
    using Cons.prems xy ys by (intro Cons.IH) (auto intro: inj_on_subset)
  with xy ys show ?case by simp
qed

lemma sort_eq_iff:
  assumes "inj_on key (set xs \<union> set ys)"
  shows "sort_Sort lt xs = sort_Sort lt ys \<longleftrightarrow> mset xs = mset ys"
proof
  assume "sort_Sort lt xs = sort_Sort lt ys"
  then show "mset xs = mset ys" by (metis mset_sort_Sort)
next
  assume "mset xs = mset ys"
  with assms show "sort_Sort lt xs = sort_Sort lt ys"
    by (intro sorted_unique sorted_sort_Sort) (auto intro: inj_on_subset)
qed

end

end
