(* ===== verification/K8s_Types.thy ===== *)
theory K8s_Types
  imports Go_Strings
begin

text \<open>
  The objects of other projects that the controller reads and writes: Kubernetes metadata and
  conditions, Gateway API gateways and routes, the Limitador and Authorino custom resources,
  Istio's WasmPlugin, EnvoyFilter and AuthorizationPolicy. A record has the fields the code
  touches and no others. \<open>k8s_object\<close> is the embedded ObjectMeta (and the group and kind of
  TypeMeta); every resource extends it, so that a function on client.Object is a function on
  \<open>'a k8s_object_scheme\<close>.
\<close>

section \<open>Object keys and metadata\<close>

datatype object_key = ObjectKey (key_Namespace: string) (key_Name: string)

text \<open>types.NamespacedName.String: \<open>namespace/name\<close>.\<close>

definition key_String :: "object_key \<Rightarrow> string" where
  "key_String k = key_Namespace k @ ''/'' @ key_Name k"

text \<open>Keys are ordered by namespace, then by name.\<close>

instantiation object_key :: linorder
begin

definition less_eq_object_key :: "object_key \<Rightarrow> object_key \<Rightarrow> bool" where
  "less_eq_object_key a b \<longleftrightarrow> key_Namespace a < key_Namespace b \<or>
     (key_Namespace a = key_Namespace b \<and> key_Name a \<le> key_Name b)"

definition less_object_key :: "object_key \<Rightarrow> object_key \<Rightarrow> bool" where
  "less_object_key a b \<longleftrightarrow> key_Namespace a < key_Namespace b \<or>
     (key_Namespace a = key_Namespace b \<and> key_Name a < key_Name b)"

instance
  by standard
    (auto simp: less_eq_object_key_def less_object_key_def object_key.expand)

end

record owner_reference =
  or_APIVersion :: string
  or_Kind :: string
  or_Name :: string

type_synonym str_map = "(string \<rightharpoonup> string) option"

record k8s_object =
  obj_Group :: string
  obj_Kind :: string
  obj_Namespace :: string
  obj_Name :: string
  obj_Generation :: int
  obj_Labels :: str_map
  obj_Annotations :: str_map
  obj_Finalizers :: "string list"
  obj_OwnerReferences :: "owner_reference list"
  obj_DeletionTimestamp :: "string option"

definition ObjectKeyFromObject :: "'a k8s_object_scheme \<Rightarrow> object_key" where
  "ObjectKeyFromObject o' = ObjectKey (obj_Namespace o') (obj_Name o')"

text \<open>\<open>annotations := obj.GetAnnotations(); if annotations == nil { annotations = map{} }\<close>\<close>

definition annotations_of :: "'a k8s_object_scheme \<Rightarrow> (string \<rightharpoonup> string)" where
  "annotations_of o' = (case obj_Annotations o' of None \<Rightarrow> Map.empty | Some m \<Rightarrow> m)"

text \<open>An object literal: the zero value of the metadata with the given names.\<close>

definition new_object :: "string \<Rightarrow> string \<Rightarrow> string \<Rightarrow> string \<Rightarrow> k8s_object" where
  "new_object grp kind ns name =
     \<lparr>obj_Group = grp, obj_Kind = kind, obj_Namespace = ns, obj_Name = name, obj_Generation = 0,
      obj_Labels = None, obj_Annotations = None, obj_Finalizers = [], obj_OwnerReferences = [],
      obj_DeletionTimestamp = None\<rparr>"

record condition =
  cond_Type :: string
  cond_Status :: string
  cond_ObservedGeneration :: int
  cond_LastTransitionTime :: string
  cond_Reason :: string
  cond_Message :: string

section \<open>Gateway API\<close>

record policy_target_reference =
  tr_Group :: string
  tr_Kind :: string
  tr_Name :: string
  tr_Namespace :: "string option"

record listener =
  ln_Hostname :: "string option"

record gateway = k8s_object +
  gw_Listeners :: "listener list"
  gw_Conditions :: "condition slice"

record parent_ref =
  pr_Group :: "string option"
  pr_Kind :: "string option"
  pr_Namespace :: "string option"
  pr_Name :: string
  pr_SectionName :: "string option"

record route_parent_status =
  rps_ParentRef :: parent_ref
  rps_Conditions :: "condition slice"

record http_path_match =
  pm_Type :: "string option"
  pm_Value :: "string option"

record http_route_match =
  hm_Path :: "http_path_match option"
  hm_Method :: "string option"

record http_route_rule =
  hr_Matches :: "http_route_match list"

record http_route = k8s_object +
  rt_ParentRefs :: "parent_ref list"
  rt_Hostnames :: "string list"
  rt_Rules :: "http_route_rule list"
  rt_Parents :: "route_parent_status list"

section \<open>Limitador\<close>

record limitador_rate_limit =
  lrl_Conditions :: "string slice"
  lrl_MaxValue :: int
  lrl_Namespace :: string
  lrl_Seconds :: int
  lrl_Variables :: "string slice"

record limitador_status =
  ls_Conditions :: "condition slice"
  ls_ServiceHost :: string
  ls_ServiceGRPC :: int

record limitador = k8s_object +
  lim_Limits :: "limitador_rate_limit list"
  lim_Status :: limitador_status

section \<open>Istio\<close>

text \<open>JSON values, which are also the values of a protobuf Struct.\<close>

datatype json =
    JNull
  | JBool bool
  | JInt int
  | JString string
  | JList "json list"
  | JObject "(string \<times> json) list"

record wasm_plugin_object = k8s_object +
  wp_MatchLabels :: str_map
  wp_Url :: string
  wp_PluginConfig :: "json option"
  wp_Phase :: string

record envoy_patch =
  ep_Operation :: string
  ep_Value :: json

record envoy_config_patch =
  ecp_ApplyTo :: string
  ecp_MatchClusterService :: string
  ecp_Patch :: envoy_patch

record envoy_filter = k8s_object +
  ef_WorkloadLabels :: "str_map option"
  ef_ConfigPatches :: "envoy_config_patch slice"
  ef_Priority :: int

record istio_operation =
  op_Hosts :: "string slice"
  op_Methods :: "string slice"
  op_Paths :: "string slice"

record istio_rule =
  ir_To :: "istio_operation list"

record authorization_policy = k8s_object +
  azp_Action :: string
  azp_Rules :: "istio_rule list"
  azp_MatchLabels :: "str_map option"
  azp_Provider :: "string option"

section \<open>Authorino\<close>

text \<open>Of an AuthConfigSpec the code reads the hosts; the rest is copied as it is.\<close>

record auth_config_spec =
  acs_Hosts :: "string list"
  acs_Rest :: json

record auth_config = k8s_object +
  ac_Spec :: auth_config_spec
  ac_StatusReady :: json

end
