(* ===== verification/Hostname.thy ===== *)
theory Hostname
  imports K8s_Types
begin

text \<open>
  Host names and subdomains: \<open>Name.SubsetOf\<close> (pkg/common/hostname.go) and \<open>ValidSubdomains\<close>
  (pkg/common/common.go). The abstract specification of a name is the set of concrete host
  names it stands for (\<open>hosts_of\<close>); \<open>SubsetOf\<close> is shown to be set inclusion.
\<close>

section \<open>hostname.go\<close>

fun IsWildCarded :: "string \<Rightarrow> bool" where
  "IsWildCarded [] = False"
| "IsWildCarded (c # cs) = (c = CHR ''*'')"

definition SubsetOf :: "string \<Rightarrow> string \<Rightarrow> bool" where
  "SubsetOf n o' =
     (let hWildcard = IsWildCarded n; oWildcard = IsWildCarded o' in
      if hWildcard then
        (if oWildcard then
           (if length n < length o' then False
            else HasSuffix (drop 1 n) (drop 1 o'))
         else False)
      else if oWildcard then HasSuffix n (drop 1 o')
      else n = o')"

text \<open>What a name stands for: itself, or every concrete name with the suffix after the star.\<close>

definition hosts_of :: "string \<Rightarrow> string set" where
  "hosts_of n = (if IsWildCarded n then {h. \<not> IsWildCarded h \<and> suffix (drop 1 n) h} else {n})"

lemma IsWildCarded_iff: "IsWildCarded n \<longleftrightarrow> (\<exists>m. n = CHR ''*'' # m)"
  by (cases n) auto

lemma SubsetOf_wild_wild:
  "SubsetOf (CHR ''*'' # m) (CHR ''*'' # p) \<longleftrightarrow> suffix p m"
  by (auto simp: SubsetOf_def HasSuffix_iff dest: suffix_length_le)

lemma SubsetOf_plain_wild:
  "\<not> IsWildCarded n \<Longrightarrow> SubsetOf n (CHR ''*'' # p) \<longleftrightarrow> suffix p n"
  by (simp add: SubsetOf_def HasSuffix_iff)

lemma hosts_of_wild: "hosts_of (CHR ''*'' # p) = {h. \<not> IsWildCarded h \<and> suffix p h}"
  by (simp add: hosts_of_def)

text \<open>A wildcard covers another exactly when its suffix is a suffix of the other's.\<close>

lemma hosts_of_wild_subset:
  "hosts_of (CHR ''*'' # m) \<subseteq> hosts_of (CHR ''*'' # p) \<longleftrightarrow> suffix p m"
proof
  assume sub: "hosts_of (CHR ''*'' # m) \<subseteq> hosts_of (CHR ''*'' # p)"
  have "CHR ''a'' # m \<in> hosts_of (CHR ''*'' # m)" "CHR ''b'' # m \<in> hosts_of (CHR ''*'' # m)"
    by (simp_all add: hosts_of_wild suffix_def)
  then have "CHR ''a'' # m \<in> hosts_of (CHR ''*'' # p)" "CHR ''b'' # m \<in> hosts_of (CHR ''*'' # p)"
    using sub by (blast dest: subsetD)+
  then have "suffix p (CHR ''a'' # m)" "suffix p (CHR ''b'' # m)"
    by (simp_all add: hosts_of_wild)
  then show "suffix p m" by (auto simp: suffix_Cons)
next
  assume "suffix p m"
  then show "hosts_of (CHR ''*'' # m) \<subseteq> hosts_of (CHR ''*'' # p)"
    by (auto simp: hosts_of_wild intro: suffix_order.trans)
qed

lemma hosts_of_wild_not_single: "\<not> hosts_of (CHR ''*'' # m) \<subseteq> {n}"
proof
  assume "hosts_of (CHR ''*'' # m) \<subseteq> {n}"
  moreover have "CHR ''a'' # m \<in> hosts_of (CHR ''*'' # m)" "CHR ''b'' # m \<in> hosts_of (CHR ''*'' # m)"
    by (simp_all add: hosts_of_wild suffix_def)
  ultimately have "CHR ''a'' # m = CHR ''b'' # m" by blast
  then show False by simp
qed

lemma SubsetOf_hosts: "SubsetOf n o' \<longleftrightarrow> hosts_of n \<subseteq> hosts_of o'"
proof (cases "IsWildCarded n")
  case True
  then obtain m where n: "n = CHR ''*'' # m" by (auto simp: IsWildCarded_iff)
  show ?thesis
  proof (cases "IsWildCarded o'")
    case True
    then obtain p where "o' = CHR ''*'' # p" by (auto simp: IsWildCarded_iff)
    with n show ?thesis by (simp add: SubsetOf_wild_wild hosts_of_wild_subset)
  next
    case False
    with n hosts_of_wild_not_single[of m o'] show ?thesis
      by (simp add: SubsetOf_def hosts_of_def[of o'])
  qed
next
  case False
  show ?thesis
  proof (cases "IsWildCarded o'")
    case True
    then obtain p where "o' = CHR ''*'' # p" by (auto simp: IsWildCarded_iff)
    with False show ?thesis
      by (simp add: SubsetOf_plain_wild hosts_of_wild hosts_of_def[of n])
  next
    case o': False
    with False show ?thesis by (simp add: SubsetOf_def hosts_of_def)
  qed
qed

lemma SubsetOf_antisym: "SubsetOf n o' \<Longrightarrow> SubsetOf o' n \<Longrightarrow> n = o'"
proof -
  assume h: "SubsetOf n o'" "SubsetOf o' n"
  have wild: "IsWildCarded n \<longleftrightarrow> IsWildCarded o'"
    using h by (cases "IsWildCarded n"; cases "IsWildCarded o'") (simp_all add: SubsetOf_def)
  show "n = o'"
  proof (cases "IsWildCarded n")
    case True
    then obtain m p where "n = CHR ''*'' # m" "o' = CHR ''*'' # p"
      using wild by (auto simp: IsWildCarded_iff)
    with h show ?thesis by (simp add: SubsetOf_wild_wild suffix_order.antisym)
  next
    case False
    with h wild show ?thesis by (simp add: SubsetOf_def)
  qed
qed

text \<open>
  C35: Name.SubsetOf decides inclusion: \<open>n.SubsetOf(o)\<close> holds exactly when every concrete host
  name that \<open>n\<close> stands for (itself, or all names with its suffix when it is a wildcard) is one
  that \<open>o\<close> stands for. So it is reflexive and transitive, and two names that cover each other
  are the same name.
\<close>

theorem SubsetOf_is_inclusion:
  "(SubsetOf n o' \<longleftrightarrow> hosts_of n \<subseteq> hosts_of o') \<and> SubsetOf n n \<and>
   (SubsetOf n o' \<and> SubsetOf o' p \<longrightarrow> SubsetOf n p) \<and>
   (SubsetOf n o' \<and> SubsetOf o' n \<longrightarrow> n = o')"
  using SubsetOf_antisym[of n o'] by (auto simp: SubsetOf_hosts)

theorem SubsetOf_is_inclusion_witness:
  "SubsetOf ''a.b.com'' ''*.com'' \<and> \<not> SubsetOf ''*.com'' ''*.b.com''"
proof -
  have "SubsetOf ''a.b.com'' ''*.b.com''" "SubsetOf ''*.b.com'' ''*.com''"
    by (simp_all add: SubsetOf_def HasSuffix_def)
  then show ?thesis
    using SubsetOf_is_inclusion[of "''a.b.com''" "''*.b.com''" "''*.com''"]
      SubsetOf_is_inclusion[of "''*.com''" "''*.b.com''" "''*''"] by auto
qed

section \<open>ValidSubdomains\<close>

text \<open>The inner loop (stop at the first domain that covers), then the outer one.\<close>

fun covered_by_any :: "string list \<Rightarrow> string \<Rightarrow> bool" where
  "covered_by_any [] subdomain = False"
| "covered_by_any (domain # domains) subdomain =
     (if SubsetOf subdomain domain then True else covered_by_any domains subdomain)"

fun ValidSubdomains :: "string list \<Rightarrow> string list \<Rightarrow> bool \<times> string" where
  "ValidSubdomains domains [] = (True, '''')"
| "ValidSubdomains domains (subdomain # subdomains) =
     (if \<not> covered_by_any domains subdomain then (False, subdomain)
      else ValidSubdomains domains subdomains)"

lemma find_SomeD: "find P xs = Some x \<Longrightarrow> x \<in> set xs \<and> P x"
  by (induction xs) (auto split: if_splits)

lemma covered_by_any_iff: "covered_by_any ds s \<longleftrightarrow> (\<exists>d \<in> set ds. SubsetOf s d)"
  by (induction ds) auto

lemma ValidSubdomains_find:
  "ValidSubdomains ds ss =
     (case find (\<lambda>s. \<not> covered_by_any ds s) ss of None \<Rightarrow> (True, '''') | Some s \<Rightarrow> (False, s))"
  by (induction ss) auto

text \<open>
  ValidSubdomains, on every branch. It answers (true, "") exactly when the concrete hosts
  of every subdomain are hosts of a single one of the domains, and otherwise (false, s) where
  \<open>s\<close> is the first subdomain, in the order given, that no domain covers.
\<close>

theorem ValidSubdomains_correct:
  "(ValidSubdomains ds ss = (True, '''') \<longleftrightarrow>
      list_all (\<lambda>s. list_ex (\<lambda>d. hosts_of s \<subseteq> hosts_of d) ds) ss) \<and>
   (ValidSubdomains ds ss = (False, r) \<longleftrightarrow>
      find (\<lambda>s. \<not> list_ex (\<lambda>d. hosts_of s \<subseteq> hosts_of d) ds) ss = Some r)"
proof -
  have cov: "covered_by_any ds s \<longleftrightarrow> list_ex (\<lambda>d. hosts_of s \<subseteq> hosts_of d) ds" for s
    unfolding covered_by_any_iff SubsetOf_hosts list_ex_iff ..
  show ?thesis
    unfolding ValidSubdomains_find cov
    by (auto simp: find_None_iff list_all_iff split: option.splits dest: find_SomeD)
qed

end
