(* ===== verification/Common.thy ===== *)
theory Common
  imports Hostname "HOL-Library.Word"
begin

text \<open>
  pkg/common: names and constants, the parsing and printing of object keys and limit
  namespaces, sets of object keys, annotations, map merging, status conditions and service
  ports. The two printable keys of the program (\<open>namespace/name\<close> and
  \<open>gwNS/gwName#domain\<close>) are instances of \<open>key_codec\<close>.
\<close>

section \<open>Constants and environment\<close>

definition KuadrantNamespace :: string where
  "KuadrantNamespace = ''kuadrant-system''"

definition KuadrantRateLimitClusterName :: string where
  "KuadrantRateLimitClusterName = ''kuadrant-rate-limiting-service''"

definition KuadrantRateLimitPolicyRefAnnotation :: string where
  "KuadrantRateLimitPolicyRefAnnotation = ''kuadrant.io/ratelimitpolicies''"

definition RateLimitPolicyBackRefAnnotation :: string where
  "RateLimitPolicyBackRefAnnotation = ''kuadrant.io/ratelimitpolicy-direct-backref''"

definition AuthPolicyBackRefAnnotation :: string where
  "AuthPolicyBackRefAnnotation = ''kuadrant.io/authpolicy-backref''"

definition DeleteTagAnnotation :: string where
  "DeleteTagAnnotation = ''kuadrant.io/delete''"

definition NamespaceSeparator :: char where
  "NamespaceSeparator = CHR ''/''"

definition FetchEnv :: "(string \<rightharpoonup> string) \<Rightarrow> string \<Rightarrow> string \<Rightarrow> string" where
  "FetchEnv env key d = (case env key of None \<Rightarrow> d | Some val \<Rightarrow> val)"

lemma annotation_names_distinct [simp]:
  "RateLimitPolicyBackRefAnnotation \<noteq> AuthPolicyBackRefAnnotation"
  "RateLimitPolicyBackRefAnnotation \<noteq> KuadrantRateLimitPolicyRefAnnotation"
  "KuadrantRateLimitPolicyRefAnnotation \<noteq> AuthPolicyBackRefAnnotation"
  by (simp_all add: RateLimitPolicyBackRefAnnotation_def AuthPolicyBackRefAnnotation_def
      KuadrantRateLimitPolicyRefAnnotation_def)

section \<open>Object keys and limit namespaces\<close>

definition NamespacedNameToObjectKey :: "string \<Rightarrow> string \<Rightarrow> object_key" where
  "NamespacedNameToObjectKey namespacedName defaultNamespace =
     (let split = Split namespacedName (CHR ''/'') in
      if length split = 2 then ObjectKey (split ! 0) (split ! 1)
      else ObjectKey defaultNamespace (split ! 0))"

definition string_of_char :: "char \<Rightarrow> string" where
  "string_of_char c = [c]"

definition UnMarshallObjectKey :: "string \<Rightarrow> go_error + object_key" where
  "UnMarshallObjectKey keyStr =
     (let keySplit = Split keyStr NamespaceSeparator in
      if length keySplit < 2 then
        Inl (Errorf (''failed to split on %s: '' @ [CHR 0x27] @ ''%s'' @ [CHR 0x27])
                [string_of_char NamespaceSeparator, keyStr])
      else Inr (ObjectKey (keySplit ! 0) (keySplit ! 1)))"

definition UnMarshallLimitNamespace :: "string \<Rightarrow> go_error + (object_key \<times> string)" where
  "UnMarshallLimitNamespace ns =
     (let split = Split ns (CHR ''#'') in
      if length split \<noteq> 2 then Inl (Errorf ''failed to split on #'' [])
      else
        let domain = split ! 1 in
        case UnMarshallObjectKey (split ! 0) of
          Inl err \<Rightarrow> Inl err
        | Inr gwKey \<Rightarrow> Inr (gwKey, domain))"

definition MarshallNamespace :: "object_key \<Rightarrow> string \<Rightarrow> string" where
  "MarshallNamespace gwKey domain =
     key_Namespace gwKey @ ''/'' @ key_Name gwKey @ ''#'' @ domain"

text \<open>
  Kubernetes names are DNS-1123 labels or subdomains, so they contain neither separator; host
  names contain no \<open>#\<close>.
\<close>

definition key_ok :: "object_key \<Rightarrow> bool" where
  "key_ok k \<longleftrightarrow> CHR ''/'' \<notin> set (key_Namespace k) \<and> CHR ''/'' \<notin> set (key_Name k)"

definition gw_key_ok :: "object_key \<Rightarrow> bool" where
  "gw_key_ok k \<longleftrightarrow> key_ok k \<and> CHR ''#'' \<notin> set (key_Namespace k) \<and> CHR ''#'' \<notin> set (key_Name k)"

definition domain_ok :: "string \<Rightarrow> bool" where
  "domain_ok d \<longleftrightarrow> CHR ''#'' \<notin> set d"

lemma UnMarshallObjectKey_String:
  "key_ok k \<Longrightarrow> UnMarshallObjectKey (key_String k) = Inr k"
  by (cases k) (simp add: UnMarshallObjectKey_def key_String_def key_ok_def NamespaceSeparator_def)

lemma NamespacedNameToObjectKey_String:
  "key_ok k \<Longrightarrow> NamespacedNameToObjectKey (key_String k) d = k"
  by (cases k) (simp add: NamespacedNameToObjectKey_def key_String_def key_ok_def)

lemma Split_MarshallNamespace:
  "gw_key_ok k \<Longrightarrow> domain_ok d \<Longrightarrow>
   Split (MarshallNamespace k d) (CHR ''#'') = [key_String k, d]"
  unfolding Split_two
  by (auto simp: MarshallNamespace_def key_String_def gw_key_ok_def domain_ok_def)

lemma UnMarshallLimitNamespace_MarshallNamespace:
  "gw_key_ok k \<Longrightarrow> domain_ok d \<Longrightarrow> UnMarshallLimitNamespace (MarshallNamespace k d) = Inr (k, d)"
  by (simp add: UnMarshallLimitNamespace_def Split_MarshallNamespace UnMarshallObjectKey_String
      gw_key_ok_def Let_def)

interpretation object_key_text: key_codec key_String UnMarshallObjectKey key_ok
  by unfold_locales (rule UnMarshallObjectKey_String)

interpretation backref_text: key_codec key_String "\<lambda>s. Inr (NamespacedNameToObjectKey s d)" key_ok
  for d
  by unfold_locales (simp add: NamespacedNameToObjectKey_String)

interpretation limit_namespace: key_codec "\<lambda>(k, d). MarshallNamespace k d"
  UnMarshallLimitNamespace "\<lambda>(k, d). gw_key_ok k \<and> domain_ok d"
  by unfold_locales (auto simp: UnMarshallLimitNamespace_MarshallNamespace)

text \<open>
  A limit's namespace names exactly one gateway and domain: for a gateway key without
  separators and a domain without \<open>#\<close>, UnMarshallLimitNamespace reads back what
  MarshallNamespace printed, and two such pairs that print alike are equal.
\<close>

theorem limit_namespace_roundtrip:
  assumes "gw_key_ok k" "domain_ok d" "gw_key_ok k'" "domain_ok d'"
  shows "UnMarshallLimitNamespace (MarshallNamespace k d) = Inr (k, d) \<and>
    (MarshallNamespace k d = MarshallNamespace k' d' \<longleftrightarrow> k = k' \<and> d = d')"
  using assms limit_namespace.dec_enc[of "(k, d)"] limit_namespace.enc_inj[of "(k, d)" "(k', d')"]
  by auto

theorem limit_namespace_roundtrip_witness:
  "UnMarshallLimitNamespace (MarshallNamespace (ObjectKey ''istio'' ''gw'') ''*.toystore.com'')
     = Inr (ObjectKey ''istio'' ''gw'', ''*.toystore.com'') \<and>
   MarshallNamespace (ObjectKey ''istio'' ''gw'') ''*.toystore.com''
     \<noteq> MarshallNamespace (ObjectKey ''istio'' ''gw2'') ''*.toystore.com''"
  using limit_namespace_roundtrip[of "ObjectKey ''istio'' ''gw''" "''*.toystore.com''"
      "ObjectKey ''istio'' ''gw2''" "''*.toystore.com''"]
  by (simp add: gw_key_ok_def key_ok_def domain_ok_def)

text \<open>What the parser accepts, and what it makes of it, on every input.\<close>

lemma UnMarshallLimitNamespace_Inr_iff:
  "UnMarshallLimitNamespace s = Inr (k, d) \<longleftrightarrow>
   (\<exists>pre. Split s (CHR ''#'') = [pre, d] \<and> UnMarshallObjectKey pre = Inr k)"
proof (cases "length (Split s (CHR ''#'')) = 2")
  case True
  then obtain p q where "Split s (CHR ''#'') = [p, q]"
    by (auto simp: length_Suc_conv numeral_2_eq_2)
  then show ?thesis by (auto simp: UnMarshallLimitNamespace_def Let_def split: sum.splits)
next
  case False
  then have "UnMarshallLimitNamespace s = Inl (Errorf ''failed to split on #'' [])"
    unfolding UnMarshallLimitNamespace_def Let_def by (rule if_P)
  with False show ?thesis by auto
qed

lemma UnMarshallObjectKey_Inr_iff:
  "UnMarshallObjectKey s = Inr k \<longleftrightarrow>
   (\<exists>rest. Split s (CHR ''/'') = key_Namespace k # key_Name k # rest)"
proof (cases "Split s (CHR ''/'')")
  case Nil
  then show ?thesis by simp
next
  case (Cons p ps)
  then show ?thesis
    by (cases ps; cases k) (auto simp: UnMarshallObjectKey_def NamespaceSeparator_def Let_def)
qed

text \<open>A key that was read back is one that prints: parsing produces only well-formed pairs.\<close>

lemma UnMarshallLimitNamespace_ok:
  assumes "UnMarshallLimitNamespace s = Inr (k, d)"
  shows "gw_key_ok k \<and> domain_ok d"
proof -
  from assms obtain pre where sp: "Split s (CHR ''#'') = [pre, d]"
    and key: "UnMarshallObjectKey pre = Inr k"
    by (auto simp: UnMarshallLimitNamespace_Inr_iff)
  from key obtain rest where sp2: "Split pre (CHR ''/'') = key_Namespace k # key_Name k # rest"
    by (auto simp: UnMarshallObjectKey_Inr_iff)
  have nohash: "CHR ''#'' \<notin> set pre" "CHR ''#'' \<notin> set d"
    using Split_parts[of _ s "CHR ''#''"] sp by auto
  have noslash: "CHR ''/'' \<notin> set (key_Namespace k)" "CHR ''/'' \<notin> set (key_Name k)"
    using Split_parts[of _ pre "CHR ''/''"] sp2 by auto
  have "set (key_Namespace k) \<union> set (key_Name k) \<subseteq> set pre"
    using sp2 by (metis Un_least Split_subset list.set_intros)
  with nohash noslash show ?thesis by (auto simp: gw_key_ok_def key_ok_def domain_ok_def)
qed

section \<open>Lists of strings and of object keys\<close>

fun Contains :: "string list \<Rightarrow> string \<Rightarrow> bool" where
  "Contains [] target = False"
| "Contains (s # strs) target = (if s = target then True else Contains strs target)"

definition HostnamesToStrings :: "string list \<Rightarrow> string list" where
  "HostnamesToStrings hostnames = map (\<lambda>h. h) hostnames"

fun ContainsObjectKey :: "object_key list \<Rightarrow> object_key \<Rightarrow> bool" where
  "ContainsObjectKey [] x = False"
| "ContainsObjectKey (n # a) x = (if x = n then True else ContainsObjectKey a x)"

fun FindObjectKey :: "object_key list \<Rightarrow> object_key \<Rightarrow> nat" where
  "FindObjectKey [] x = 0"
| "FindObjectKey (n # a) x = (if x = n then 0 else Suc (FindObjectKey a x))"

definition ObjectKeyListDifference :: "object_key list \<Rightarrow> object_key list \<Rightarrow> object_key list" where
  "ObjectKeyListDifference a b =
     (let target = fold (\<lambda>x t. t(x \<mapsto> True)) b Map.empty in
      filter (\<lambda>x. target x = None) a)"

lemma Contains_iff [simp]: "Contains xs x \<longleftrightarrow> x \<in> set xs"
  by (induction xs) auto

lemma ContainsObjectKey_iff [simp]: "ContainsObjectKey ks k \<longleftrightarrow> k \<in> set ks"
  by (induction ks) auto

lemma FindObjectKey_length: "FindObjectKey ks k = length ks \<longleftrightarrow> k \<notin> set ks"
  by (induction ks) auto

lemma FindObjectKey_le: "FindObjectKey ks k \<le> length ks"
  by (induction ks) auto

lemma FindObjectKey_nth: "k \<in> set ks \<Longrightarrow> ks ! FindObjectKey ks k = k"
  by (induction ks) auto

lemma FindObjectKey_first: "i < FindObjectKey ks k \<Longrightarrow> ks ! i \<noteq> k"
  by (induction ks arbitrary: i) (auto simp: nth_Cons split: nat.splits if_splits)

text \<open>Removing the index found removes the first occurrence and nothing else.\<close>

lemma remove_FindObjectKey:
  "take (FindObjectKey ks k) ks @ drop (Suc (FindObjectKey ks k)) ks = remove1 k ks"
  by (induction ks) auto

lemma restrict_map_dom [simp]: "m |` dom m = m"
  by (rule ext) (auto simp: restrict_map_def dom_def)

lemma fold_target: "fold (\<lambda>x t. t(x \<mapsto> True)) b t0 x = None \<longleftrightarrow> x \<notin> set b \<and> t0 x = None"
  by (induction b arbitrary: t0) auto

text \<open>
  The searches on object keys: FindObjectKey returns the smallest index that holds the key,
  or the length exactly when the key is absent (as ContainsObjectKey says); deleting at that
  index deletes the first occurrence; ObjectKeyListDifference keeps, in order, the keys of the
  first list that are not in the second.
\<close>

theorem object_key_search:
  "(ContainsObjectKey ks k \<longleftrightarrow> FindObjectKey ks k \<noteq> length ks) \<and>
   find ((=) k) ks = (if FindObjectKey ks k < length ks then Some (ks ! FindObjectKey ks k) else None) \<and>
   takeWhile ((\<noteq>) k) ks = take (FindObjectKey ks k) ks \<and>
   take (FindObjectKey ks k) ks @ drop (Suc (FindObjectKey ks k)) ks = remove1 k ks \<and>
   ObjectKeyListDifference as ks = filter (\<lambda>x. \<not> ContainsObjectKey ks x) as"
proof -
  have "find ((=) k) ks =
      (if FindObjectKey ks k < length ks then Some (ks ! FindObjectKey ks k) else None)"
    by (induction ks) auto
  moreover have "takeWhile ((\<noteq>) k) ks = take (FindObjectKey ks k) ks"
    by (induction ks) auto
  ultimately show ?thesis
    by (simp add: FindObjectKey_length remove_FindObjectKey ObjectKeyListDifference_def fold_target)
qed

section \<open>Maps of strings\<close>

text \<open>The loop over \<open>desired\<close>, in the order \<open>f\<close> the runtime visits its keys.\<close>

fun merge_keys :: "string list \<Rightarrow> (string \<rightharpoonup> string) \<Rightarrow> (string \<rightharpoonup> string) \<Rightarrow> bool
    \<Rightarrow> (string \<rightharpoonup> string) \<times> bool" where
  "merge_keys [] desired m modified = (m, modified)"
| "merge_keys (k # ks) desired m modified =
     (case desired k of
        None \<Rightarrow> merge_keys ks desired m modified
      | Some v \<Rightarrow>
          if m k = None \<or> m k \<noteq> Some v then merge_keys ks desired (m(k \<mapsto> v)) True
          else merge_keys ks desired m modified)"

definition MergeMapStringString ::
    "(string list \<Rightarrow> string list) \<Rightarrow> str_map \<Rightarrow> (string \<times> string) list \<Rightarrow> bool \<times> str_map" where
  "MergeMapStringString f existing desired =
     (let m = (case existing of None \<Rightarrow> Map.empty | Some m \<Rightarrow> m);
          (m', modified) = merge_keys (range_keys f desired) (map_of desired) m False
      in (modified, Some m'))"

lemma merge_keys_map:
  "fst (merge_keys ks desired m b) = m ++ (desired |` set ks)"
proof (induction ks arbitrary: m b)
  case Nil
  then show ?case by simp
next
  case (Cons k ks)
  show ?case
    by (rule ext)
      (auto simp: Cons.IH map_add_def restrict_map_def split: option.splits)
qed

lemma merge_keys_flag:
  "snd (merge_keys ks desired m b) \<longleftrightarrow> b \<or> (\<exists>k \<in> set ks. desired k \<noteq> None \<and> m k \<noteq> desired k)"
  by (induction ks arbitrary: m b) (auto split: option.splits)

text \<open>
  MergeMapStringString merges the desired entries over the existing ones (a nil map is an
  empty one), reports a modification exactly when that changed the map, and does not depend on
  the order in which the runtime visits the desired keys.
\<close>

theorem MergeMapStringString_correct:
  "MergeMapStringString f existing desired =
     (let m = (case existing of None \<Rightarrow> Map.empty | Some m \<Rightarrow> m)
      in (m ++ map_of desired \<noteq> m, Some (m ++ map_of desired)))"
proof -
  define m where "m = (case existing of None \<Rightarrow> Map.empty | Some m \<Rightarrow> m)"
  let ?r = "merge_keys (range_keys f desired) (map_of desired) m False"
  have keys: "fst ` set desired = dom (map_of desired)"
    by (simp add: dom_map_of_conv_image_fst)
  have "fst ?r = m ++ map_of desired"
    by (simp add: merge_keys_map keys)
  moreover have "snd ?r \<longleftrightarrow> m ++ map_of desired \<noteq> m"
    by (force simp: merge_keys_flag keys map_add_def fun_eq_iff split: option.splits)
  ultimately show ?thesis
    by (simp add: MergeMapStringString_def m_def[symmetric] Let_def split: prod.splits)
      (metis fst_conv snd_conv)
qed

section \<open>Tagging objects for deletion\<close>

definition TagObjectToDelete :: "'a k8s_object_scheme \<Rightarrow> 'a k8s_object_scheme" where
  "TagObjectToDelete obj =
     (let annotations = (case obj_Annotations obj of None \<Rightarrow> Map.empty | Some m \<Rightarrow> m) in
      obj\<lparr>obj_Annotations := Some (annotations(DeleteTagAnnotation \<mapsto> ''true''))\<rparr>)"

definition IsObjectTaggedToDelete :: "'a k8s_object_scheme \<Rightarrow> bool" where
  "IsObjectTaggedToDelete obj =
     (case obj_Annotations obj of
        None \<Rightarrow> False
      | Some annotations \<Rightarrow> annotations DeleteTagAnnotation = Some ''true'')"

definition ObjectInfo :: "'a k8s_object_scheme \<Rightarrow> string" where
  "ObjectInfo obj = obj_Kind obj @ ''/'' @ obj_Name obj"

lemma IsObjectTaggedToDelete_Tag [simp]: "IsObjectTaggedToDelete (TagObjectToDelete obj)"
  by (simp add: IsObjectTaggedToDelete_def TagObjectToDelete_def Let_def)

lemma ObjectKeyFromObject_Tag [simp]:
  "ObjectKeyFromObject (TagObjectToDelete obj) = ObjectKeyFromObject obj"
  by (simp add: ObjectKeyFromObject_def TagObjectToDelete_def Let_def)

section \<open>Ownership\<close>

text \<open>
  \<open>parseGV\<close> is schema.ParseGroupVersion of apimachinery: the group and the version, or an
  error.
\<close>

fun owned_by_refs :: "(string \<Rightarrow> go_error + (string \<times> string)) \<Rightarrow> owner_reference list
    \<Rightarrow> 'a k8s_object_scheme \<Rightarrow> bool" where
  "owned_by_refs parseGV [] owner = False"
| "owned_by_refs parseGV (o' # refs) owner =
     (case parseGV (or_APIVersion o') of
        Inl err \<Rightarrow> False
      | Inr oGV \<Rightarrow>
          if fst oGV = obj_Group owner \<and> or_Kind o' = obj_Kind owner \<and> obj_Name owner = or_Name o'
          then True else owned_by_refs parseGV refs owner)"

definition IsOwnedBy :: "(string \<Rightarrow> go_error + (string \<times> string)) \<Rightarrow> 'b k8s_object_scheme
    \<Rightarrow> 'a k8s_object_scheme \<Rightarrow> bool" where
  "IsOwnedBy parseGV owned owner = owned_by_refs parseGV (obj_OwnerReferences owned) owner"

section \<open>Status conditions\<close>

text \<open>
  \<open>marshal\<close> is json.Marshal on a list of conditions (nil is \<open>null\<close>). sort.Slice orders by
  the condition type.
\<close>

definition CopyConditions :: "condition slice \<Rightarrow> condition slice" where
  "CopyConditions conditions = Some (map (\<lambda>c. c) (elems conditions))"

definition type_less :: "condition \<Rightarrow> condition \<Rightarrow> bool" where
  "type_less a b = (cond_Type a < cond_Type b)"

definition ConditionMarshal :: "(condition slice \<Rightarrow> string) \<Rightarrow> condition slice \<Rightarrow> string" where
  "ConditionMarshal marshal conditions =
     marshal (map_option (sort_Sort type_less) (append_nil (elems conditions)))"

definition StatusConditionsMarshalJSON ::
    "(condition slice \<Rightarrow> string) \<Rightarrow> condition slice \<Rightarrow> string" where
  "StatusConditionsMarshalJSON marshal input = marshal (Some (sort_Sort type_less (elems input)))"

interpretation by_type: total_less type_less cond_Type
  by unfold_locales (auto simp: type_less_def)

lemma sort_Sort_Nil_eq:
  "sort_Sort lt [] = sort_Sort lt ys \<Longrightarrow> ys = []" "sort_Sort lt ys = sort_Sort lt [] \<Longrightarrow> ys = []"
  by (metis sort_Sort_eq_Nil)+

lemma map_option_sort_eq:
  "map_option (sort_Sort lt) (append_nil xs) = map_option (sort_Sort lt) (append_nil ys) \<longleftrightarrow>
   sort_Sort lt xs = sort_Sort lt ys"
  by (cases "xs = []"; cases "ys = []") (auto simp: append_nil_def dest: sort_Sort_Nil_eq)

text \<open>
  ConditionMarshal compares sets of conditions: when the encoder is injective and no two
  different conditions of the two lists share a type, the two texts are equal exactly when the
  lists hold the same conditions, in whatever order.
\<close>

lemma ConditionMarshal_correct:
  assumes "inj marshal" and "inj_on cond_Type (set (elems cs) \<union> set (elems cs'))"
  shows "ConditionMarshal marshal cs = ConditionMarshal marshal cs' \<longleftrightarrow>
    mset (elems cs) = mset (elems cs')"
proof -
  have "ConditionMarshal marshal cs = ConditionMarshal marshal cs' \<longleftrightarrow>
      sort_Sort type_less (elems cs) = sort_Sort type_less (elems cs')"
    using assms(1) by (simp add: ConditionMarshal_def inj_eq map_option_sort_eq)
  then show ?thesis using assms(2) by (simp add: by_type.sort_eq_iff)
qed

end
