(* ===== verification/JSON_Text.thy ===== *)
theory JSON_Text
  imports K8s_Types
begin

text \<open>
  The text that encoding/json writes for the two types the program stores or compares as text:
  a list of object keys (the annotation that lists the policies of a gateway) and a list of
  conditions. The rest of the model takes the encoder as a parameter; the functions here are the
  concrete encoder its interpretations and witnesses use. Strings are quoted and escaped as
  encoding/json escapes ASCII; bytes from 128 on, which encoding/json copies when they are valid
  UTF-8, are copied. The decoder reads exactly the texts the encoder writes.
\<close>

section \<open>Prefix codes\<close>

text \<open>An encoder whose texts can be cut off from whatever follows them.\<close>

definition prefix_code :: "('a \<Rightarrow> string) \<Rightarrow> bool" where
  "prefix_code enc \<longleftrightarrow> (\<forall>x y r s. enc x @ r = enc y @ s \<longrightarrow> x = y \<and> r = s)"

lemma prefix_codeI: "(\<And>x y r s. enc x @ r = enc y @ s \<Longrightarrow> x = y \<and> r = s) \<Longrightarrow> prefix_code enc"
  by (auto simp: prefix_code_def)

lemma prefix_codeD: "prefix_code enc \<Longrightarrow> enc x @ r = enc y @ s \<longleftrightarrow> x = y \<and> r = s"
  by (auto simp: prefix_code_def)

lemma prefix_code_inj: "prefix_code enc \<Longrightarrow> inj enc"
  by (rule injI) (metis append_Nil2 prefix_codeD)

section \<open>Strings\<close>

definition hex_digit :: "nat \<Rightarrow> char" where
  "hex_digit n = ''0123456789abcdef'' ! n"

definition escape :: "char \<Rightarrow> string" where
  "escape c =
     (if c = CHR 0x22 then [CHR 0x5C, CHR 0x22]
      else if c = CHR 0x5C then [CHR 0x5C, CHR 0x5C]
      else if c = CHR 0x0A then [CHR 0x5C, CHR ''n'']
      else if c = CHR 0x0D then [CHR 0x5C, CHR ''r'']
      else if c = CHR 0x09 then [CHR 0x5C, CHR ''t'']
      else if of_char c < (32 :: nat) \<or> c = CHR ''<'' \<or> c = CHR ''>'' \<or> c = CHR ''&'' then
        [CHR 0x5C, CHR ''u'', CHR ''0'', CHR ''0'',
         hex_digit (of_char c div 16), hex_digit (of_char c mod 16)]
      else [c])"

definition quote :: "string \<Rightarrow> string" where
  "quote s = [CHR 0x22] @ concat (map escape s) @ [CHR 0x22]"

definition hex_value :: "char \<Rightarrow> nat" where
  "hex_value c = (if CHR ''a'' \<le> c then of_char c - 87 else of_char c - 48)"

text \<open>Reading one string up to its closing quote: the string and the rest of the text.\<close>

fun unescape :: "string \<Rightarrow> (string \<times> string) option" where
  "unescape [] = None"
| "unescape (c # cs) =
     (if c = CHR 0x22 then Some ([], cs)
      else if c = CHR 0x5C then
        (case cs of
           e # cs' \<Rightarrow>
             if e = CHR ''u'' then
               (case cs' of
                  z # y # h # l # cs'' \<Rightarrow>
                    map_option (\<lambda>(s, r). (char_of (16 * hex_value h + hex_value l :: nat) # s, r))
                      (unescape cs'')
                | _ \<Rightarrow> None)
             else
               map_option (\<lambda>(s, r).
                   ((if e = CHR ''n'' then CHR 0x0A else if e = CHR ''r'' then CHR 0x0D
                     else if e = CHR ''t'' then CHR 0x09 else e) # s, r))
                 (unescape cs')
         | [] \<Rightarrow> None)
      else map_option (\<lambda>(s, r). (c # s, r)) (unescape cs))"

lemma hex_value_digit:
  assumes "n < 16" shows "hex_value (hex_digit n) = n"
proof -
  have "n \<in> set [0..<16]" using assms by simp
  moreover have "list_all (\<lambda>n. hex_value (hex_digit n) = n) [0..<16]" by code_simp
  ultimately show ?thesis by (auto simp: list_all_iff)
qed

lemma unescape_escape:
  "unescape (escape c @ t) = map_option (\<lambda>(s, r). (c # s, r)) (unescape t)"
proof -
  have n: "of_char c < (256 :: nat)" by simp
  have "16 * hex_value (hex_digit (of_char c div 16)) + hex_value (hex_digit (of_char c mod 16))
      = (of_char c :: nat)"
    using n by (simp add: hex_value_digit less_mult_imp_div_less)
  then show ?thesis by (simp add: escape_def)
qed

lemma unescape_body:
  "unescape (concat (map escape s) @ [CHR 0x22] @ r) = Some (s, r)"
  by (induction s) (simp_all add: unescape_escape)

lemma quote_prefix_code: "prefix_code quote"
proof (rule prefix_codeI)
  fix x y r s
  assume "quote x @ r = quote y @ s"
  then have "concat (map escape x) @ [CHR 0x22] @ r = concat (map escape y) @ [CHR 0x22] @ s"
    by (simp add: quote_def)
  then have "unescape (concat (map escape x) @ [CHR 0x22] @ r)
      = unescape (concat (map escape y) @ [CHR 0x22] @ s)" by simp
  then show "x = y \<and> r = s" by (simp only: unescape_body option.inject prod.inject)
qed

section \<open>Integers\<close>

fun show_nat :: "nat \<Rightarrow> string" where
  "show_nat n = (if n < 10 then [char_of (48 + n)] else show_nat (n div 10) @ [char_of (48 + n mod 10)])"

declare show_nat.simps [simp del]

definition show_int :: "int \<Rightarrow> string" where
  "show_int i = (if i < 0 then ''-'' @ show_nat (nat (- i)) else show_nat (nat i))"

definition nat_value :: "string \<Rightarrow> nat" where
  "nat_value = foldl (\<lambda>a c. 10 * a + (of_char c - 48)) 0"

definition is_digit :: "char \<Rightarrow> bool" where
  "is_digit c \<longleftrightarrow> 48 \<le> (of_char c :: nat) \<and> of_char c \<le> (57 :: nat)"

lemma of_char_digit: "n < 10 \<Longrightarrow> of_char (char_of (48 + n) :: char) = (48 + n :: nat)"
  by (simp add: of_char_of)

lemma nat_value_show_nat: "nat_value (show_nat n) = n"
proof (induction n rule: show_nat.induct)
  case (1 n)
  show ?case
  proof (cases "n < 10")
    case True
    then show ?thesis by (simp add: show_nat.simps[of n] nat_value_def of_char_digit del: of_char_of)
  next
    case False
    have "nat_value (show_nat n) = 10 * nat_value (show_nat (n div 10)) + n mod 10"
      using False of_char_digit[of "n mod 10"]
      by (subst show_nat.simps) (simp add: nat_value_def del: of_char_of)
    with 1 False show ?thesis by simp
  qed
qed

lemma show_nat_digits: "c \<in> set (show_nat n) \<Longrightarrow> is_digit c"
proof (induction n rule: show_nat.induct)
  case (1 n)
  show ?case
  proof (cases "n < 10")
    case True
    with "1.prems" of_char_digit[of n] show ?thesis
      by (simp add: show_nat.simps[of n] is_digit_def del: of_char_of)
  next
    case False
    with 1 of_char_digit[of "n mod 10"] show ?thesis
      by (subst (asm) show_nat.simps) (auto simp: is_digit_def simp del: of_char_of)
  qed
qed

lemma show_nat_inj: "show_nat m = show_nat n \<Longrightarrow> m = n"
  by (metis nat_value_show_nat)

lemma minus_not_digit: "\<not> is_digit (CHR ''-'')"
  by (simp add: is_digit_def)

lemma comma_not_digit: "\<not> is_digit (CHR '','')"
  by (simp add: is_digit_def)

lemma show_int_inj:
  assumes "show_int i = show_int j" shows "i = j"
proof -
  have no_minus: "hd (show_nat n) \<noteq> CHR ''-''" if "show_nat n \<noteq> []" for n
    using that show_nat_digits[of "hd (show_nat n)" n] minus_not_digit by (metis list.set_sel(1))
  have ne: "show_nat n \<noteq> []" for n by (subst show_nat.simps) simp
  have pm: "''-'' @ show_nat m \<noteq> show_nat n" for m n
    using no_minus[OF ne[of n]] by (metis append_Cons list.sel(1))
  show ?thesis
    using assms pm pm[symmetric]
    by (auto simp: show_int_def split: if_splits dest!: show_nat_inj)
qed

lemma show_int_no_comma: "CHR '','' \<notin> set (show_int i)"
  using show_nat_digits comma_not_digit by (auto simp: show_int_def)

lemma split_at_comma:
  assumes "CHR '','' \<notin> set a" "CHR '','' \<notin> set b" "a @ CHR '','' # r = b @ CHR '','' # s"
  shows "a = b \<and> r = s"
  using assms by (induction a arbitrary: b) (auto simp: Cons_eq_append_conv append_eq_Cons_conv)

lemma int_field: "show_int i @ CHR '','' # r = show_int j @ CHR '','' # s \<longleftrightarrow> i = j \<and> r = s"
  using split_at_comma[OF show_int_no_comma show_int_no_comma] show_int_inj by blast

section \<open>Lists and objects\<close>

text \<open>A list of encoded elements; an element starts with an opening brace.\<close>

definition brace :: "('a \<Rightarrow> string) \<Rightarrow> 'a \<Rightarrow> string" where
  "brace body x = ''{'' @ body x @ ''}''"

fun list_tail :: "('a \<Rightarrow> string) \<Rightarrow> 'a list \<Rightarrow> string" where
  "list_tail enc [] = '']''"
| "list_tail enc (x # xs) = '','' @ enc x @ list_tail enc xs"

fun list_text :: "('a \<Rightarrow> string) \<Rightarrow> 'a list \<Rightarrow> string" where
  "list_text enc [] = ''[]''"
| "list_text enc (x # xs) = ''['' @ enc x @ list_tail enc xs"

lemma list_tail_prefix:
  assumes "prefix_code enc" "list_tail enc xs @ r = list_tail enc ys @ s"
  shows "xs = ys \<and> r = s"
  using assms(2)
proof (induction xs arbitrary: ys)
  case Nil
  then show ?case by (cases ys) auto
next
  case (Cons x xs)
  then show ?case by (cases ys) (auto simp: prefix_codeD[OF assms(1)])
qed

lemma list_text_prefix_code:
  assumes pc: "prefix_code enc" and obj: "\<And>x. \<exists>t. enc x = CHR ''{'' # t"
  shows "prefix_code (list_text enc)"
proof (rule prefix_codeI)
  fix xs ys r s
  assume eq: "list_text enc xs @ r = list_text enc ys @ s"
  show "xs = ys \<and> r = s"
  proof (cases xs; cases ys)
    fix x xs' y ys'
    assume "xs = x # xs'" "ys = y # ys'"
    with eq show ?thesis using list_tail_prefix[OF pc] by (auto simp: prefix_codeD[OF pc])
  next
    fix y ys'
    assume "xs = []" "ys = y # ys'"
    with eq obj[of y] show ?thesis by auto
  next
    fix x xs'
    assume "xs = x # xs'" "ys = []"
    with eq obj[of x] show ?thesis by auto
  qed (use eq in simp_all)
qed

section \<open>The two encoders\<close>

definition field :: "string \<Rightarrow> string" where
  "field name = quote name @ '':''"

definition ref_body :: "object_key \<Rightarrow> string" where
  "ref_body k = field ''Namespace'' @ quote (key_Namespace k) @ '','' @
     field ''Name'' @ quote (key_Name k)"

definition marshal_refs :: "object_key slice \<Rightarrow> string" where
  "marshal_refs refs = (case refs of None \<Rightarrow> ''null'' | Some ks \<Rightarrow> list_text (brace ref_body) ks)"

definition condition_body :: "condition \<Rightarrow> string" where
  "condition_body c = field ''type'' @ quote (cond_Type c) @ '','' @
     field ''status'' @ quote (cond_Status c) @ '','' @
     field ''observedGeneration'' @ (show_int (cond_ObservedGeneration c) @ '','') @
     field ''lastTransitionTime'' @ quote (cond_LastTransitionTime c) @ '','' @
     field ''reason'' @ quote (cond_Reason c) @ '','' @
     field ''message'' @ quote (cond_Message c)"

definition marshal_conditions :: "condition slice \<Rightarrow> string" where
  "marshal_conditions cs =
     (case cs of None \<Rightarrow> ''null'' | Some xs \<Rightarrow> list_text (brace condition_body) xs)"

lemma brace_prefix_code:
  "prefix_code body \<Longrightarrow> prefix_code (brace body)"
  by (rule prefix_codeI) (auto simp: brace_def prefix_codeD)

lemma brace_object: "\<exists>t. brace body x = CHR ''{'' # t"
  by (simp add: brace_def)

lemma ref_body_prefix_code: "prefix_code ref_body"
  by (rule prefix_codeI)
    (auto simp: ref_body_def prefix_codeD[OF quote_prefix_code] object_key.expand)

lemma condition_body_prefix_code: "prefix_code condition_body"
  by (rule prefix_codeI)
    (auto simp: condition_body_def prefix_codeD[OF quote_prefix_code] int_field)

lemmas refs_prefix_code =
  list_text_prefix_code[OF brace_prefix_code[OF ref_body_prefix_code] brace_object]

lemmas conditions_prefix_code =
  list_text_prefix_code[OF brace_prefix_code[OF condition_body_prefix_code] brace_object]

lemma slice_text_inj:
  assumes "prefix_code (list_text enc)"
  shows "inj (\<lambda>s. case s of None \<Rightarrow> ''null'' | Some xs \<Rightarrow> list_text enc xs)"
proof (rule injI)
  fix x y :: "'a slice"
  have "list_text enc xs \<noteq> ''null''" for xs by (cases xs) auto
  moreover assume "(case x of None \<Rightarrow> ''null'' | Some xs \<Rightarrow> list_text enc xs)
    = (case y of None \<Rightarrow> ''null'' | Some xs \<Rightarrow> list_text enc xs)"
  ultimately show "x = y"
    using injD[OF prefix_code_inj[OF assms]] by (cases x; cases y) (auto simp: eq_commute[of "''null''"])
qed

lemma marshal_refs_inj: "inj marshal_refs"
  using slice_text_inj[OF refs_prefix_code] by (simp add: marshal_refs_def[abs_def])

lemma marshal_conditions_inj: "inj marshal_conditions"
  using slice_text_inj[OF conditions_prefix_code] by (simp add: marshal_conditions_def[abs_def])

section \<open>Reading a list of object keys\<close>

definition expect :: "string \<Rightarrow> string \<Rightarrow> string option" where
  "expect p s = (if take (length p) s = p then Some (drop (length p) s) else None)"

definition read_ref :: "string \<Rightarrow> (object_key \<times> string) option" where
  "read_ref s =
     Option.bind (expect (''{'' @ field ''Namespace'' @ [CHR 0x22]) s) (\<lambda>s1.
     Option.bind (unescape s1) (\<lambda>(ns, s2).
     Option.bind (expect ('','' @ field ''Name'' @ [CHR 0x22]) s2) (\<lambda>s3.
     Option.bind (unescape s3) (\<lambda>(name, s4).
     Option.bind (expect ''}'' s4) (\<lambda>s5. Some (ObjectKey ns name, s5))))))"

text \<open>The first argument bounds the number of elements; the length of the text is enough.\<close>

fun read_tail :: "nat \<Rightarrow> string \<Rightarrow> object_key list option" where
  "read_tail 0 s = None"
| "read_tail (Suc n) s =
     (if s = '']'' then Some []
      else Option.bind (expect '','' s) (\<lambda>s1.
           Option.bind (read_ref s1) (\<lambda>(k, s2). map_option (Cons k) (read_tail n s2))))"

definition unmarshal_refs :: "string \<Rightarrow> object_key slice option" where
  "unmarshal_refs s =
     (if s = ''null'' then Some None
      else if s = ''[]'' then Some (Some [])
      else Option.bind (expect ''['' s) (\<lambda>s1.
           Option.bind (read_ref s1) (\<lambda>(k, s2).
             map_option (\<lambda>ks. Some (k # ks)) (read_tail (length s) s2))))"

lemma expect_append [simp]: "expect p (p @ s) = Some s"
  by (simp add: expect_def)

lemma unescape_quoted:
  "unescape (concat (map escape s) @ CHR 0x22 # r) = Some (s, r)"
  using unescape_body[of s r] by simp

lemma read_ref_brace: "read_ref (brace ref_body k @ t) = Some (k, t)"
proof -
  let ?p = "''{'' @ field ''Namespace'' @ [CHR 0x22]" and ?q = "'','' @ field ''Name'' @ [CHR 0x22]"
  have eqn: "brace ref_body k @ t = ?p @ concat (map escape (key_Namespace k)) @ CHR 0x22 #
      ?q @ concat (map escape (key_Name k)) @ CHR 0x22 # ''}'' @ t"
    by (simp add: brace_def ref_body_def quote_def)
  show ?thesis
    unfolding eqn read_ref_def expect_append bind.bind_lunit prod.case unescape_quoted by simp
qed

lemma read_tail_list: "length ks < n \<Longrightarrow> read_tail n (list_tail (brace ref_body) ks) = Some ks"
proof (induction ks arbitrary: n)
  case Nil
  then show ?case by (cases n) auto
next
  case (Cons k ks)
  then obtain m where n: "n = Suc m" and m: "length ks < m" by (cases n) auto
  have "expect '','' ('','' @ (brace ref_body k @ list_tail (brace ref_body) ks))
      = Some (brace ref_body k @ list_tail (brace ref_body) ks)"
    by (rule expect_append)
  with n Cons.IH[OF m] show ?case by (simp add: read_ref_brace)
qed

lemma length_list_tail: "length ks < length (list_tail enc ks)"
  by (induction ks) auto

lemma unmarshal_marshal_refs: "unmarshal_refs (marshal_refs refs) = Some refs"
proof (cases refs)
  case None
  then show ?thesis by (simp add: marshal_refs_def unmarshal_refs_def)
next
  case (Some ks)
  show ?thesis
  proof (cases ks)
    case Nil
    with Some show ?thesis by (simp add: marshal_refs_def unmarshal_refs_def)
  next
    case (Cons k ks')
    let ?body = "brace ref_body k @ list_tail (brace ref_body) ks'"
    have eqn: "marshal_refs refs = ''['' @ ?body"
      using Some Cons by (simp add: marshal_refs_def)
    have "length ks' < length (marshal_refs refs)"
      using length_list_tail[of ks' "brace ref_body"] unfolding eqn length_append by linarith
    moreover have "marshal_refs refs \<noteq> ''null''" "marshal_refs refs \<noteq> ''[]''"
      unfolding eqn by (simp_all add: brace_def)
    moreover have "expect ''['' (marshal_refs refs) = Some ?body"
      unfolding eqn by (rule expect_append)
    ultimately show ?thesis
      using Some Cons by (simp add: unmarshal_refs_def read_ref_brace read_tail_list)
  qed
qed

section \<open>The encoder as a parameter\<close>

text \<open>
  What the model asks of encoding/json: json.Marshal and json.Unmarshal on lists of object keys
  (\<open>None\<close> is an error) and json.Marshal on conditions. \<open>refs_json J ok\<close> is the documented
  behaviour the reference lists rely on: a list of keys with valid text is encoded, and decodes
  to itself; what the decoder returns has valid text.
\<close>

record json_codec =
  json_MarshalRefs :: "object_key slice \<Rightarrow> string option"
  json_UnmarshalRefs :: "string \<Rightarrow> object_key slice option"
  json_MarshalConditions :: "condition slice \<Rightarrow> string"

locale refs_json =
  fixes J :: json_codec and ok :: "object_key \<Rightarrow> bool"
  assumes marshal_total: "list_all ok (elems refs) \<Longrightarrow> json_MarshalRefs J refs \<noteq> None"
    and unmarshal_marshal:
      "list_all ok (elems refs) \<Longrightarrow> json_MarshalRefs J refs = Some s \<Longrightarrow> json_UnmarshalRefs J s = Some refs"
    and unmarshal_ok: "json_UnmarshalRefs J s = Some refs \<Longrightarrow> list_all ok (elems refs)"

definition reference_json :: json_codec where
  "reference_json = \<lparr>json_MarshalRefs = Some \<circ> marshal_refs, json_UnmarshalRefs = unmarshal_refs,
     json_MarshalConditions = marshal_conditions\<rparr>"

lemma reference_json_sel [simp]:
  "json_MarshalRefs reference_json refs = Some (marshal_refs refs)"
  "json_UnmarshalRefs reference_json s = unmarshal_refs s"
  "json_MarshalConditions reference_json = marshal_conditions"
  by (simp_all add: reference_json_def)

interpretation reference_refs: refs_json reference_json "\<lambda>_. True"
  by unfold_locales (auto simp: unmarshal_marshal_refs list_all_iff)

end
