(* ===== verification/API_Types.thy ===== *)
theory API_Types
  imports Common JSON_Text
begin

text \<open>
  apis/apim/v1alpha1: the custom resources RateLimitPolicy and AuthPolicy with the methods of
  ratelimitpolicy_types.go and authpolicy_types.go: Validate, TargetKey, FlattenLimits, the
  comparison of statuses, and the conversion from Limitador's limits.
\<close>

section \<open>Action configurations, rules and limits\<close>

record GenericKeySpec =
  gks_DescriptorValue :: string
  gks_DescriptorKey :: "string option"

record MetadataKeySpec =
  mks_Key :: string
  mks_Path :: "string slice"

record MetadataSpec =
  ms_DescriptorKey :: string
  ms_MetadataKey :: MetadataKeySpec
  ms_DefaultValue :: "string option"
  ms_Source :: string

record RequestHeadersSpec =
  rhs_HeaderName :: string
  rhs_DescriptorKey :: string
  rhs_SkipIfAbsent :: "bool option"

record ActionSpecifier =
  as_GenericKey :: "GenericKeySpec option"
  as_Metadata :: "MetadataSpec option"
  as_RemoteAddress :: "unit option"
  as_RequestHeaders :: "RequestHeadersSpec option"

record Rule =
  Paths :: "string slice"
  Methods :: "string slice"
  Hosts :: "string slice"

record Configuration =
  Actions :: "ActionSpecifier slice"

record Limit =
  MaxValue :: int
  Seconds :: int
  Conditions :: "string slice"
  Variables :: "string slice"

record RateLimit =
  Configurations :: "Configuration slice"
  Rules :: "Rule slice"
  Limits :: "Limit slice"

record GatewayRateLimits =
  grl_GatewayName :: string
  grl_RateLimits :: "RateLimit slice"

section \<open>RateLimitPolicy\<close>

record RateLimitPolicySpec =
  rlps_TargetRef :: policy_target_reference
  rlps_RateLimits :: "RateLimit slice"

record RateLimitPolicyStatus =
  rlpst_ObservedGeneration :: int
  rlpst_Conditions :: "condition slice"
  rlpst_GatewaysRateLimits :: "GatewayRateLimits slice"

record RateLimitPolicy = k8s_object +
  rlp_Spec :: RateLimitPolicySpec
  rlp_Status :: RateLimitPolicyStatus

abbreviation rlp_TargetRef :: "RateLimitPolicy \<Rightarrow> policy_target_reference" where
  "rlp_TargetRef r \<equiv> rlps_TargetRef (rlp_Spec r)"

text \<open>A deep copy: equal to the original, nil slices included.\<close>

fun LimitFromLimitadorRateLimit :: "limitador_rate_limit option \<Rightarrow> Limit option" where
  "LimitFromLimitadorRateLimit None = None"
| "LimitFromLimitadorRateLimit (Some limit) =
     Some \<lparr>MaxValue = lrl_MaxValue limit, Seconds = lrl_Seconds limit,
       Conditions = (case lrl_Conditions limit of None \<Rightarrow> None | Some cs \<Rightarrow> Some cs),
       Variables = (case lrl_Variables limit of None \<Rightarrow> None | Some vs \<Rightarrow> Some vs)\<rparr>"

text \<open>
  \<open>marshal\<close> is json.Marshal on conditions, as in \<open>ConditionMarshal\<close>. reflect.DeepEqual on the
  gateway rate limits is equality, where a nil slice differs from an empty one.
\<close>

definition RateLimitPolicyStatus_Equals ::
    "(condition slice \<Rightarrow> string) \<Rightarrow> RateLimitPolicyStatus \<Rightarrow> RateLimitPolicyStatus \<Rightarrow> bool" where
  "RateLimitPolicyStatus_Equals marshal s other =
     (if rlpst_ObservedGeneration s \<noteq> rlpst_ObservedGeneration other then False
      else if ConditionMarshal marshal (rlpst_Conditions s)
          \<noteq> ConditionMarshal marshal (rlpst_Conditions other) then False
      else if rlpst_GatewaysRateLimits s \<noteq> rlpst_GatewaysRateLimits other then False
      else True)"

definition gateway_api_group :: string where
  "gateway_api_group = ''gateway.networking.k8s.io''"

definition Validate :: "RateLimitPolicy \<Rightarrow> go_error option" where
  "Validate r =
     (if tr_Group (rlp_TargetRef r) \<noteq> gateway_api_group then
        Some (Errorf ''invalid targetRef.Group %s. The only supported group is gateway.networking.k8s.io''
          [tr_Group (rlp_TargetRef r)])
      else if tr_Kind (rlp_TargetRef r) \<noteq> ''HTTPRoute'' \<and> tr_Kind (rlp_TargetRef r) \<noteq> ''Gateway'' then
        Some (Errorf ''invalid targetRef.Kind %s. The only supported kind types are HTTPRoute and Gateway''
          [tr_Kind (rlp_TargetRef r)])
      else case tr_Namespace (rlp_TargetRef r) of
        Some ns \<Rightarrow>
          if ns \<noteq> obj_Namespace r then
            Some (Errorf ''invalid targetRef.Namespace %s. Currently only supporting references to the same namespace'' [ns])
          else None
      | None \<Rightarrow> None)"

definition TargetKey :: "RateLimitPolicy \<Rightarrow> object_key" where
  "TargetKey r =
     (let tmpNS = (case tr_Namespace (rlp_TargetRef r) of None \<Rightarrow> obj_Namespace r | Some ns \<Rightarrow> ns)
      in ObjectKey tmpNS (tr_Name (rlp_TargetRef r)))"

text \<open>The loop that appends the limits of each rate limit.\<close>

definition FlattenLimits :: "RateLimitPolicy \<Rightarrow> Limit list" where
  "FlattenLimits r =
     foldl (\<lambda>flattenLimits rl. flattenLimits @ elems (Limits rl)) [] (elems (rlps_RateLimits (rlp_Spec r)))"

lemma foldl_append_concat: "foldl (\<lambda>acc x. acc @ f x) a xs = a @ concat (map f xs)"
  by (induction xs arbitrary: a) auto

lemma FlattenLimits_concat:
  "FlattenLimits r = concat (map (elems \<circ> Limits) (elems (rlps_RateLimits (rlp_Spec r))))"
  by (simp add: FlattenLimits_def foldl_append_concat comp_def)

section \<open>AuthPolicy\<close>

record AuthRule =
  ar_Hosts :: "string slice"
  ar_Methods :: "string slice"
  ar_Paths :: "string slice"

record AuthPolicySpec =
  aps_TargetRef :: policy_target_reference
  aps_AuthRules :: "AuthRule list"
  aps_AuthScheme :: "auth_config_spec option"

record AuthPolicyStatus =
  apst_ObservedGeneration :: int
  apst_Conditions :: "condition slice"

record AuthPolicy = k8s_object +
  ap_Spec :: AuthPolicySpec
  ap_Status :: AuthPolicyStatus

abbreviation ap_TargetRef :: "AuthPolicy \<Rightarrow> policy_target_reference" where
  "ap_TargetRef a \<equiv> aps_TargetRef (ap_Spec a)"

definition AuthPolicyStatus_Equals ::
    "(condition slice \<Rightarrow> string) \<Rightarrow> AuthPolicyStatus \<Rightarrow> AuthPolicyStatus \<Rightarrow> bool" where
  "AuthPolicyStatus_Equals marshal s other =
     (if apst_ObservedGeneration s \<noteq> apst_ObservedGeneration other then False
      else if ConditionMarshal marshal (apst_Conditions s)
          \<noteq> ConditionMarshal marshal (apst_Conditions other) then False
      else True)"

definition AuthPolicy_Validate :: "AuthPolicy \<Rightarrow> go_error option" where
  "AuthPolicy_Validate ap =
     (if tr_Group (ap_TargetRef ap) \<noteq> gateway_api_group then
        Some (Errorf ''invalid targetRef.Group %s. The only supported group is gateway.networking.k8s.io''
          [tr_Group (ap_TargetRef ap)])
      else if \<not> (tr_Kind (ap_TargetRef ap) = ''HTTPRoute'' \<or> tr_Kind (ap_TargetRef ap) = ''Gateway'') then
        Some (Errorf ''invalid targetRef.Kind %s. The only supported kinds are HTTPRoute and Gateway''
          [tr_Kind (ap_TargetRef ap)])
      else case tr_Namespace (ap_TargetRef ap) of
        Some ns \<Rightarrow>
          if ns \<noteq> obj_Namespace ap then
            Some (Errorf ''invalid targetRef.Namespace %s. Currently only supporting references to the same namespace'' [ns])
          else None
      | None \<Rightarrow> None)"

section \<open>Which target references are valid\<close>

text \<open>The specification both Validate methods implement, over the reference and the namespace.\<close>

definition valid_target :: "policy_target_reference \<Rightarrow> string \<Rightarrow> bool" where
  "valid_target tr ns \<longleftrightarrow> tr_Group tr = ''gateway.networking.k8s.io'' \<and>
     tr_Kind tr \<in> {''HTTPRoute'', ''Gateway''} \<and> tr_Namespace tr \<in> {None, Some ns}"

lemma Validate_iff: "Validate r = None \<longleftrightarrow> valid_target (rlp_TargetRef r) (obj_Namespace r)"
  by (auto simp: Validate_def valid_target_def gateway_api_group_def split: option.splits)

lemma AuthPolicy_Validate_iff:
  "AuthPolicy_Validate a = None \<longleftrightarrow> valid_target (ap_TargetRef a) (obj_Namespace a)"
  by (auto simp: AuthPolicy_Validate_def valid_target_def gateway_api_group_def split: option.splits)

text \<open>
  Both Validate methods accept exactly the references to an HTTPRoute or a Gateway of the
  Gateway API group whose namespace is absent or the policy's own; so the target of a policy
  that validates lives in the policy's namespace.
\<close>

theorem Validate_correct:
  "(Validate r = None \<longleftrightarrow> valid_target (rlp_TargetRef r) (obj_Namespace r)) \<and>
   (AuthPolicy_Validate a = None \<longleftrightarrow> valid_target (ap_TargetRef a) (obj_Namespace a)) \<and>
   (Validate r = None \<longrightarrow> TargetKey r = ObjectKey (obj_Namespace r) (tr_Name (rlp_TargetRef r)))"
  by (auto simp: Validate_iff AuthPolicy_Validate_iff TargetKey_def valid_target_def
      split: option.splits)

definition example_target :: policy_target_reference where
  "example_target = \<lparr>tr_Group = ''gateway.networking.k8s.io'', tr_Kind = ''HTTPRoute'',
     tr_Name = ''toystore'', tr_Namespace = None\<rparr>"

definition example_rlp :: RateLimitPolicy where
  "example_rlp = k8s_object.extend (new_object ''apim.kuadrant.io'' ''RateLimitPolicy'' ''default'' ''rlp'')
     \<lparr>rlp_Spec = \<lparr>rlps_TargetRef = example_target, rlps_RateLimits = None\<rparr>,
      rlp_Status = \<lparr>rlpst_ObservedGeneration = 0, rlpst_Conditions = None,
        rlpst_GatewaysRateLimits = None\<rparr>\<rparr>"

theorem Validate_correct_witness:
  "Validate example_rlp = None \<and> TargetKey example_rlp = ObjectKey ''default'' ''toystore''"
proof -
  have "Validate example_rlp = None"
    by (simp add: Validate_iff example_rlp_def example_target_def valid_target_def new_object_def
        k8s_object.defs)
  then show ?thesis
    using Validate_correct[of example_rlp]
    by (simp add: example_rlp_def example_target_def new_object_def k8s_object.defs)
qed

section \<open>Comparing statuses\<close>

text \<open>
  A RateLimitPolicy status equals another exactly when they agree on the observed
  generation, hold the same set of conditions (whatever their order) and the same gateway rate
  limits, a nil list being different from an empty one. An AuthPolicy status is compared on the
  first two.
\<close>

theorem status_Equals_correct:
  assumes "inj marshal"
    and "inj_on cond_Type (set (elems (rlpst_Conditions s)) \<union> set (elems (rlpst_Conditions t)))"
    and "inj_on cond_Type (set (elems (apst_Conditions u)) \<union> set (elems (apst_Conditions v)))"
  shows "(RateLimitPolicyStatus_Equals marshal s t \<longleftrightarrow>
      rlpst_ObservedGeneration s = rlpst_ObservedGeneration t \<and>
      mset (elems (rlpst_Conditions s)) = mset (elems (rlpst_Conditions t)) \<and>
      rlpst_GatewaysRateLimits s = rlpst_GatewaysRateLimits t) \<and>
    (AuthPolicyStatus_Equals marshal u v \<longleftrightarrow>
      apst_ObservedGeneration u = apst_ObservedGeneration v \<and>
      mset (elems (apst_Conditions u)) = mset (elems (apst_Conditions v)))"
  by (simp_all add: RateLimitPolicyStatus_Equals_def AuthPolicyStatus_Equals_def
      ConditionMarshal_correct[OF assms(1,2)] ConditionMarshal_correct[OF assms(1,3)])

definition example_condition :: "string \<Rightarrow> string \<Rightarrow> condition" where
  "example_condition typ status = \<lparr>cond_Type = typ, cond_Status = status, cond_ObservedGeneration = 1,
     cond_LastTransitionTime = ''2022-09-01T10:00:00Z'', cond_Reason = ''R'', cond_Message = ''m''\<rparr>"

theorem status_Equals_correct_witness:
  "RateLimitPolicyStatus_Equals marshal_conditions
     \<lparr>rlpst_ObservedGeneration = 2,
      rlpst_Conditions = Some [example_condition ''Available'' ''True'', example_condition ''Ready'' ''True''],
      rlpst_GatewaysRateLimits = None\<rparr>
     \<lparr>rlpst_ObservedGeneration = 2,
      rlpst_Conditions = Some [example_condition ''Ready'' ''True'', example_condition ''Available'' ''True''],
      rlpst_GatewaysRateLimits = None\<rparr> \<and>
   \<not> AuthPolicyStatus_Equals marshal_conditions
     \<lparr>apst_ObservedGeneration = 2, apst_Conditions = Some [example_condition ''Available'' ''True'']\<rparr>
     \<lparr>apst_ObservedGeneration = 2, apst_Conditions = None\<rparr>"
  (is "RateLimitPolicyStatus_Equals _ ?s ?t \<and> \<not> AuthPolicyStatus_Equals _ ?u ?v")
proof -
  have "inj_on cond_Type (set (elems (rlpst_Conditions ?s)) \<union> set (elems (rlpst_Conditions ?t)))"
    "inj_on cond_Type (set (elems (apst_Conditions ?u)) \<union> set (elems (apst_Conditions ?v)))"
    by (auto simp: inj_on_def example_condition_def)
  from status_Equals_correct[OF marshal_conditions_inj this] show ?thesis
    by (simp add: add_mset_commute)
qed

end
