(* ===== verification/Gateway_API.thy ===== *)
theory Gateway_API
  imports API_Types
begin

text \<open>
  pkg/common/gatewayapi_utils.go: kinds of targets, and the rules (hosts, methods, paths) that a
  policy without rules of its own inherits from the route it targets.
\<close>

record HTTPRouteRule =
  hrr_Paths :: "string slice"
  hrr_Methods :: "string slice"
  hrr_Hosts :: "string slice"

definition IsTargetRefHTTPRoute :: "policy_target_reference \<Rightarrow> bool" where
  "IsTargetRefHTTPRoute targetRef = (tr_Kind targetRef = ''HTTPRoute'')"

definition IsTargetRefGateway :: "policy_target_reference \<Rightarrow> bool" where
  "IsTargetRefGateway targetRef = (tr_Kind targetRef = ''Gateway'')"

lemma target_kinds_exclusive [simp]:
  "IsTargetRefHTTPRoute tr \<Longrightarrow> \<not> IsTargetRefGateway tr"
  "IsTargetRefGateway tr \<Longrightarrow> \<not> IsTargetRefHTTPRoute tr"
  by (simp_all add: IsTargetRefHTTPRoute_def IsTargetRefGateway_def)

definition RouteHTTPMethodToRuleMethod :: "string option \<Rightarrow> string slice" where
  "RouteHTTPMethodToRuleMethod httpMethod =
     (case httpMethod of None \<Rightarrow> None | Some m \<Rightarrow> Some [m])"

definition RouteHostnames :: "http_route option \<Rightarrow> string slice" where
  "RouteHostnames route =
     (case route of
        None \<Rightarrow> None
      | Some r \<Rightarrow>
          if length (rt_Hostnames r) = 0 then Some [''*'']
          else Some (foldl (\<lambda>hosts hostname. hosts @ [hostname]) [] (rt_Hostnames r)))"

definition routePathMatchToRulePath :: "http_path_match option \<Rightarrow> string slice" where
  "routePathMatchToRulePath pathMatch =
     (case pathMatch of
        None \<Rightarrow> None
      | Some pm \<Rightarrow>
          if pm_Type pm \<noteq> None \<and> pm_Type pm \<noteq> Some ''PathPrefix'' \<and> pm_Type pm \<noteq> Some ''Exact'' then None
          else
            let suffix = (if pm_Type pm = None \<or> pm_Type pm = Some ''PathPrefix'' then ''*'' else '''');
                val = (case pm_Value pm of None \<Rightarrow> ''/'' | Some v \<Rightarrow> v)
            in Some [val @ suffix])"

definition rule_from_match :: "http_route \<Rightarrow> http_route_match \<Rightarrow> HTTPRouteRule" where
  "rule_from_match route m =
     \<lparr>hrr_Paths = routePathMatchToRulePath (hm_Path m),
      hrr_Methods = RouteHTTPMethodToRuleMethod (hm_Method m),
      hrr_Hosts = RouteHostnames (Some route)\<rparr>"

text \<open>The inner loop over the matches of one route rule, and the outer one over the rules.\<close>

fun rules_of_matches ::
    "http_route \<Rightarrow> http_route_match list \<Rightarrow> HTTPRouteRule list \<Rightarrow> HTTPRouteRule list" where
  "rules_of_matches route [] rules = rules"
| "rules_of_matches route (m # matches) rules =
     (let rule = rule_from_match route m in
      if length (elems (hrr_Methods rule)) \<noteq> 0 \<or> length (elems (hrr_Paths rule)) \<noteq> 0
      then rules_of_matches route matches (rules @ [rule])
      else rules_of_matches route matches rules)"

fun rules_of_route_rules ::
    "http_route \<Rightarrow> http_route_rule list \<Rightarrow> HTTPRouteRule list \<Rightarrow> HTTPRouteRule list" where
  "rules_of_route_rules route [] rules = rules"
| "rules_of_route_rules route (r # rs) rules =
     rules_of_route_rules route rs (rules_of_matches route (hr_Matches r) rules)"

definition RulesFromHTTPRoute :: "http_route option \<Rightarrow> HTTPRouteRule slice" where
  "RulesFromHTTPRoute route =
     (case route of
        None \<Rightarrow> None
      | Some r \<Rightarrow>
          let rules = rules_of_route_rules r (rt_Rules r) [] in
          if length rules = 0 then
            Some [\<lparr>hrr_Paths = None, hrr_Methods = None, hrr_Hosts = RouteHostnames (Some r)\<rparr>]
          else Some rules)"

section \<open>What the rules of a route are\<close>

lemma foldl_snoc: "foldl (\<lambda>acc x. acc @ [x]) a xs = a @ xs"
  by (induction xs arbitrary: a) auto

lemma RouteHostnames_Some:
  "RouteHostnames (Some r) = Some (if rt_Hostnames r = [] then [''*''] else rt_Hostnames r)"
  by (simp add: RouteHostnames_def foldl_snoc)

text \<open>A match makes a rule when it constrains the method, or the path in a supported way.\<close>

definition restricts :: "http_route_match \<Rightarrow> bool" where
  "restricts m \<longleftrightarrow> hm_Method m \<noteq> None \<or>
     (case hm_Path m of None \<Rightarrow> False
      | Some pm \<Rightarrow> pm_Type pm \<in> {None, Some ''PathPrefix'', Some ''Exact''})"

lemma restricts_iff:
  "length (elems (hrr_Methods (rule_from_match r m))) \<noteq> 0 \<or>
   length (elems (hrr_Paths (rule_from_match r m))) \<noteq> 0 \<longleftrightarrow> restricts m"
  by (auto simp: rule_from_match_def restricts_def RouteHTTPMethodToRuleMethod_def
      routePathMatchToRulePath_def Let_def split: option.splits)

lemma rules_of_matches_filter:
  "rules_of_matches r ms rules = rules @ map (rule_from_match r) (filter restricts ms)"
  by (induction ms arbitrary: rules) (simp_all only: rules_of_matches.simps restricts_iff Let_def, auto)

lemma rules_of_route_rules_concat:
  "rules_of_route_rules r rs rules =
     rules @ map (rule_from_match r) (filter restricts (concat (map hr_Matches rs)))"
  by (induction rs arbitrary: rules) (simp_all add: rules_of_matches_filter)

text \<open>The hosts a route stands for: its host names, a wildcard when it has none.\<close>

definition route_hosts :: "http_route \<Rightarrow> string list" where
  "route_hosts r = (if rt_Hostnames r = [] then [''*''] else rt_Hostnames r)"

lemma route_hosts_nonempty [simp]: "route_hosts r \<noteq> []"
  by (simp add: route_hosts_def)

lemma elems_RulesFromHTTPRoute:
  "elems (RulesFromHTTPRoute (Some r)) =
     (let ms = filter restricts (concat (map hr_Matches (rt_Rules r)))
      in if ms = [] then [\<lparr>hrr_Paths = None, hrr_Methods = None, hrr_Hosts = Some (route_hosts r)\<rparr>]
         else map (rule_from_match r) ms)"
  by (simp add: RulesFromHTTPRoute_def rules_of_route_rules_concat RouteHostnames_Some Let_def
      route_hosts_def del: filter_concat)

lemma RulesFromHTTPRoute_hosts:
  "rule \<in> set (elems (RulesFromHTTPRoute (Some r))) \<Longrightarrow> hrr_Hosts rule = Some (route_hosts r)"
  by (auto simp: elems_RulesFromHTTPRoute Let_def rule_from_match_def RouteHostnames_Some
      route_hosts_def simp del: filter_concat split: if_splits)

lemma RulesFromHTTPRoute_nonempty: "elems (RulesFromHTTPRoute (Some r)) \<noteq> []"
  by (simp add: elems_RulesFromHTTPRoute Let_def del: filter_concat)

text \<open>
  The rules compiled from a route are, in order, one per match that constrains the method or
  has a path match of a supported type, and a single rule with the hosts alone when there is no
  such match. So there is always a rule, and every rule carries all host names of the route (a
  wildcard when the route has none).
\<close>

theorem RulesFromHTTPRoute_correct:
  "let ms = filter restricts (concat (map hr_Matches (rt_Rules r)));
       rules = elems (RulesFromHTTPRoute (Some r))
   in rules = (if ms = [] then [\<lparr>hrr_Paths = None, hrr_Methods = None, hrr_Hosts = Some (route_hosts r)\<rparr>]
               else map (rule_from_match r) ms) \<and>
      rules \<noteq> [] \<and> list_all (\<lambda>rule. hrr_Hosts rule = Some (route_hosts r)) rules"
  using RulesFromHTTPRoute_nonempty[of r] RulesFromHTTPRoute_hosts[of _ r]
  by (simp add: elems_RulesFromHTTPRoute[of r] list_all_iff Let_def)

end
