(* ===== verification/Gateway_Refs.thy ===== *)
theory Gateway_Refs
  imports Gateway_API
begin

text \<open>
  pkg/rlptools/gateway_utils.go: a gateway carries, in an annotation, the JSON list of the
  RateLimitPolicies that configure it. Here are the operations on that list, and the three
  groups of gateways (new, same, left) a policy is reconciled against.

  The contract of the list (\<open>ref_store\<close>) is a locale over its four operations; it is proved
  from the contract of the encoder (\<open>refs_json\<close>) for the gateway's operations.
\<close>

section \<open>The operations\<close>

text \<open>GatewayWrapper embeds a pointer, which may be nil; json errors leave the gateway alone.\<close>

type_synonym GatewayWrapper = "gateway option"

definition Key :: "GatewayWrapper \<Rightarrow> object_key" where
  "Key g = (case g of None \<Rightarrow> ObjectKey '''' '''' | Some gw \<Rightarrow> ObjectKeyFromObject gw)"

definition RLPRefs :: "json_codec \<Rightarrow> GatewayWrapper \<Rightarrow> object_key slice" where
  "RLPRefs J g =
     (case g of
        None \<Rightarrow> Some []
      | Some gw \<Rightarrow>
          case annotations_of gw KuadrantRateLimitPolicyRefAnnotation of
            None \<Rightarrow> Some []
          | Some val \<Rightarrow>
              case json_UnmarshalRefs J val of
                None \<Rightarrow> Some []
              | Some refs \<Rightarrow> refs)"

definition ContainsRLP :: "json_codec \<Rightarrow> GatewayWrapper \<Rightarrow> object_key \<Rightarrow> bool" where
  "ContainsRLP J g rlpKey =
     (case g of
        None \<Rightarrow> False
      | Some gw \<Rightarrow>
          case annotations_of gw KuadrantRateLimitPolicyRefAnnotation of
            None \<Rightarrow> False
          | Some val \<Rightarrow>
              case json_UnmarshalRefs J val of
                None \<Rightarrow> False
              | Some refs \<Rightarrow> ContainsObjectKey (elems refs) rlpKey)"

text \<open>\<open>gwAnnotations[...] = string(serialized); g.SetAnnotations(gwAnnotations)\<close>\<close>

definition set_refs_annotation :: "gateway \<Rightarrow> string \<Rightarrow> gateway" where
  "set_refs_annotation gw serialized =
     gw\<lparr>obj_Annotations := Some ((annotations_of gw)(KuadrantRateLimitPolicyRefAnnotation \<mapsto> serialized))\<rparr>"

definition AddRLP :: "json_codec \<Rightarrow> object_key \<Rightarrow> GatewayWrapper \<Rightarrow> bool \<times> GatewayWrapper" where
  "AddRLP J rlpKey g =
     (case g of
        None \<Rightarrow> (False, None)
      | Some gw \<Rightarrow>
          case annotations_of gw KuadrantRateLimitPolicyRefAnnotation of
            None \<Rightarrow>
              (case json_MarshalRefs J (Some [rlpKey]) of
                 None \<Rightarrow> (False, g)
               | Some serialized \<Rightarrow> (True, Some (set_refs_annotation gw serialized)))
          | Some val \<Rightarrow>
              case json_UnmarshalRefs J val of
                None \<Rightarrow> (False, g)
              | Some refs \<Rightarrow>
                  if ContainsObjectKey (elems refs) rlpKey then (False, g)
                  else case json_MarshalRefs J (Some (elems refs @ [rlpKey])) of
                      None \<Rightarrow> (False, g)
                    | Some serialized \<Rightarrow> (True, Some (set_refs_annotation gw serialized)))"

definition DeleteRLP :: "json_codec \<Rightarrow> object_key \<Rightarrow> GatewayWrapper \<Rightarrow> bool \<times> GatewayWrapper" where
  "DeleteRLP J rlpKey g =
     (case g of
        None \<Rightarrow> (False, None)
      | Some gw \<Rightarrow>
          case annotations_of gw KuadrantRateLimitPolicyRefAnnotation of
            None \<Rightarrow> (False, g)
          | Some val \<Rightarrow>
              case json_UnmarshalRefs J val of
                None \<Rightarrow> (False, g)
              | Some refs \<Rightarrow>
                  let rs = elems refs; refID = FindObjectKey rs rlpKey in
                  if refID \<noteq> length rs then
                    (case json_MarshalRefs J (Some (take refID rs @ drop (Suc refID) rs)) of
                       None \<Rightarrow> (False, g)
                     | Some serialized \<Rightarrow> (True, Some (set_refs_annotation gw serialized)))
                  else (False, g))"

definition Hostnames :: "GatewayWrapper \<Rightarrow> string list" where
  "Hostnames g =
     (case g of None \<Rightarrow> [] | Some gw \<Rightarrow> List.map_filter ln_Hostname (gw_Listeners gw))"

definition NewGateways :: "json_codec \<Rightarrow> gateway list \<Rightarrow> object_key \<Rightarrow> object_key list \<Rightarrow> gateway list" where
  "NewGateways J items rlpKey rlpGwKeys =
     filter (\<lambda>gw. ContainsObjectKey rlpGwKeys (ObjectKeyFromObject gw) \<and> \<not> ContainsRLP J (Some gw) rlpKey) items"

definition SameGateways :: "json_codec \<Rightarrow> gateway list \<Rightarrow> object_key \<Rightarrow> object_key list \<Rightarrow> gateway list" where
  "SameGateways J items rlpKey rlpGwKeys =
     filter (\<lambda>gw. ContainsObjectKey rlpGwKeys (ObjectKeyFromObject gw) \<and> ContainsRLP J (Some gw) rlpKey) items"

definition LeftGateways :: "json_codec \<Rightarrow> gateway list \<Rightarrow> object_key \<Rightarrow> object_key list \<Rightarrow> gateway list" where
  "LeftGateways J items rlpKey rlpGwKeys =
     filter (\<lambda>gw. \<not> ContainsObjectKey rlpGwKeys (ObjectKeyFromObject gw) \<and> ContainsRLP J (Some gw) rlpKey) items"

section \<open>The list of references as a store\<close>

text \<open>Whether the annotation is absent or decodes: only then can the list be changed.\<close>

definition refs_readable :: "json_codec \<Rightarrow> GatewayWrapper \<Rightarrow> bool" where
  "refs_readable J g =
     (case g of None \<Rightarrow> False
      | Some gw \<Rightarrow>
          case annotations_of gw KuadrantRateLimitPolicyRefAnnotation of
            None \<Rightarrow> True | Some val \<Rightarrow> json_UnmarshalRefs J val \<noteq> None)"

definition refs_of :: "json_codec \<Rightarrow> GatewayWrapper \<Rightarrow> object_key list" where
  "refs_of J g = elems (RLPRefs J g)"

locale ref_store =
  fixes refs :: "'g \<Rightarrow> 'k list"
    and contains :: "'g \<Rightarrow> 'k \<Rightarrow> bool"
    and add :: "'k \<Rightarrow> 'g \<Rightarrow> bool \<times> 'g"
    and del :: "'k \<Rightarrow> 'g \<Rightarrow> bool \<times> 'g"
    and readable :: "'g \<Rightarrow> bool"
    and ok :: "'k \<Rightarrow> bool"
  assumes contains_refs: "contains g k \<longleftrightarrow> k \<in> set (refs g)"
    and add_present: "k \<in> set (refs g) \<Longrightarrow> add k g = (False, g)"
    and add_absent: "readable g \<Longrightarrow> ok k \<Longrightarrow> k \<notin> set (refs g) \<Longrightarrow>
      fst (add k g) \<and> refs (snd (add k g)) = refs g @ [k]"
    and del_present: "readable g \<Longrightarrow> k \<in> set (refs g) \<Longrightarrow>
      fst (del k g) \<and> refs (snd (del k g)) = remove1 k (refs g)"
    and del_absent: "k \<notin> set (refs g) \<Longrightarrow> del k g = (False, g)"
    and readable_add: "readable g \<Longrightarrow> ok k \<Longrightarrow> readable (snd (add k g))"
    and readable_del: "readable g \<Longrightarrow> readable (snd (del k g))"
begin

lemma add_contains: "readable g \<Longrightarrow> ok k \<Longrightarrow>
  contains (snd (add k g)) k' \<longleftrightarrow> k' = k \<or> contains g k'"
  by (cases "k \<in> set (refs g)") (auto simp: contains_refs add_present add_absent)

lemma add_distinct: "readable g \<Longrightarrow> ok k \<Longrightarrow> distinct (refs g) \<Longrightarrow> distinct (refs (snd (add k g)))"
  by (cases "k \<in> set (refs g)") (auto simp: add_present add_absent)

lemma del_distinct: "readable g \<Longrightarrow> distinct (refs g) \<Longrightarrow> distinct (refs (snd (del k g)))"
  by (cases "k \<in> set (refs g)") (auto simp: del_present del_absent)

lemma del_contains: "readable g \<Longrightarrow> distinct (refs g) \<Longrightarrow>
  contains (snd (del k g)) k' \<longleftrightarrow> k' \<noteq> k \<and> contains g k'"
  by (cases "k \<in> set (refs g)") (auto simp: contains_refs del_present del_absent)

lemma add_idem: "readable g \<Longrightarrow> ok k \<Longrightarrow> add k (snd (add k g)) = (False, snd (add k g))"
  by (metis add_contains add_present contains_refs)

lemma del_add: "readable g \<Longrightarrow> ok k \<Longrightarrow> k \<notin> set (refs g) \<Longrightarrow>
  refs (snd (del k (snd (add k g)))) = refs g"
  using add_absent[of g k] del_present[of "snd (add k g)" k] readable_add[of g k]
  by (simp add: remove1_append)

text \<open>Any history of additions and deletions keeps the list free of duplicates and readable.\<close>

lemma history_distinct:
  assumes "readable g" "distinct (refs g)" "list_all (ok \<circ> snd) ops"
  shows "let g' = fold (\<lambda>(a, k) g. snd (if a then add k g else del k g)) ops g
         in readable g' \<and> distinct (refs g')"
  using assms
  by (induction ops arbitrary: g)
    (auto simp: Let_def add_distinct del_distinct readable_add readable_del split: prod.splits)

end

lemma annotations_set_refs [simp]:
  "annotations_of (set_refs_annotation gw s) =
     (annotations_of gw)(KuadrantRateLimitPolicyRefAnnotation \<mapsto> s)"
  by (simp add: set_refs_annotation_def annotations_of_def)

lemma ObjectKey_set_refs [simp]:
  "ObjectKeyFromObject (set_refs_annotation gw s) = ObjectKeyFromObject gw"
  by (simp add: set_refs_annotation_def ObjectKeyFromObject_def)

lemma gw_Listeners_set_refs [simp]: "gw_Listeners (set_refs_annotation gw s) = gw_Listeners gw"
  by (simp add: set_refs_annotation_def)

lemma obj_Labels_set_refs [simp]:
  "obj_Labels (set_refs_annotation gw s) = obj_Labels gw"
  "obj_Name (set_refs_annotation gw s) = obj_Name gw"
  "obj_Namespace (set_refs_annotation gw s) = obj_Namespace gw"
  by (simp_all add: set_refs_annotation_def)

lemma ContainsRLP_refs: "ContainsRLP J g k \<longleftrightarrow> k \<in> set (refs_of J g)"
  by (auto simp: ContainsRLP_def refs_of_def RLPRefs_def split: option.splits)

lemma Hostnames_Some [simp]:
  "Hostnames (Some gw) = List.map_filter ln_Hostname (gw_Listeners gw)"
  by (simp add: Hostnames_def)

context refs_json
begin

lemma AddRLP_absent:
  assumes "refs_readable J g" "ok k" "k \<notin> set (refs_of J g)"
  shows "fst (AddRLP J k g) \<and> refs_of J (snd (AddRLP J k g)) = refs_of J g @ [k] \<and>
    refs_readable J (snd (AddRLP J k g))"
proof -
  obtain gw where g: "g = Some gw" using assms(1) by (auto simp: refs_readable_def split: option.splits)
  show ?thesis
  proof (cases "annotations_of gw KuadrantRateLimitPolicyRefAnnotation")
    case None
    obtain s where s: "json_MarshalRefs J (Some [k]) = Some s"
      using marshal_total[of "Some [k]"] assms(2) by auto
    then have "json_UnmarshalRefs J s = Some (Some [k])"
      by (intro unmarshal_marshal) (simp_all add: assms(2))
    with g None s show ?thesis by (simp add: AddRLP_def refs_of_def RLPRefs_def refs_readable_def)
  next
    case (Some val)
    then obtain rs where rs: "json_UnmarshalRefs J val = Some rs"
      using assms(1) g by (auto simp: refs_readable_def)
    have ok: "list_all ok (elems rs @ [k])"
      using unmarshal_ok[OF rs] assms(2) by simp
    then obtain s where s: "json_MarshalRefs J (Some (elems rs @ [k])) = Some s"
      using marshal_total[of "Some (elems rs @ [k])"] by auto
    have "json_UnmarshalRefs J s = Some (Some (elems rs @ [k]))"
      using s ok by (intro unmarshal_marshal) simp_all
    with g Some rs s assms(3) show ?thesis
      by (simp add: AddRLP_def refs_of_def RLPRefs_def refs_readable_def)
  qed
qed

lemma DeleteRLP_present:
  assumes "k \<in> set (refs_of J g)"
  shows "fst (DeleteRLP J k g) \<and> refs_of J (snd (DeleteRLP J k g)) = remove1 k (refs_of J g) \<and>
    refs_readable J (snd (DeleteRLP J k g))"
proof -
  from assms obtain gw val rs where g: "g = Some gw"
    and val: "annotations_of gw KuadrantRateLimitPolicyRefAnnotation = Some val"
    and rs: "json_UnmarshalRefs J val = Some rs" and k: "k \<in> set (elems rs)"
    by (auto simp: refs_of_def RLPRefs_def split: option.splits)
  have ok: "list_all ok (remove1 k (elems rs))"
    using unmarshal_ok[OF rs] set_remove1_subset[of k "elems rs"] by (auto simp: list_all_iff)
  then obtain s where s: "json_MarshalRefs J (Some (remove1 k (elems rs))) = Some s"
    using marshal_total[of "Some (remove1 k (elems rs))"] by auto
  have "json_UnmarshalRefs J s = Some (Some (remove1 k (elems rs)))"
    using s ok by (intro unmarshal_marshal) simp_all
  with g val rs s k show ?thesis
    by (simp add: DeleteRLP_def refs_of_def RLPRefs_def refs_readable_def FindObjectKey_length
        remove_FindObjectKey Let_def)
qed

lemma AddRLP_present: "k \<in> set (refs_of J g) \<Longrightarrow> AddRLP J k g = (False, g)"
  by (auto simp: AddRLP_def refs_of_def RLPRefs_def split: option.splits)

lemma DeleteRLP_absent: "k \<notin> set (refs_of J g) \<Longrightarrow> DeleteRLP J k g = (False, g)"
  by (auto simp: DeleteRLP_def refs_of_def RLPRefs_def FindObjectKey_length Let_def split: option.splits)

lemma AddRLP_readable: "refs_readable J g \<Longrightarrow> ok k \<Longrightarrow> refs_readable J (snd (AddRLP J k g))"
  by (cases "k \<in> set (refs_of J g)") (simp_all add: AddRLP_present AddRLP_absent)

lemma DeleteRLP_readable: "refs_readable J g \<Longrightarrow> refs_readable J (snd (DeleteRLP J k g))"
  by (cases "k \<in> set (refs_of J g)") (simp_all add: DeleteRLP_present DeleteRLP_absent)

end

sublocale refs_json \<subseteq> gw_refs: ref_store "refs_of J" "ContainsRLP J" "AddRLP J" "DeleteRLP J"
  "refs_readable J" ok
  by unfold_locales
    (simp_all add: ContainsRLP_refs AddRLP_present AddRLP_absent DeleteRLP_present DeleteRLP_absent
      AddRLP_readable DeleteRLP_readable)

interpretation annotation_refs: ref_store "refs_of reference_json" "ContainsRLP reference_json"
  "AddRLP reference_json" "DeleteRLP reference_json" "refs_readable reference_json" "\<lambda>_. True"
  by unfold_locales
    (simp_all add: ContainsRLP_refs reference_refs.AddRLP_present reference_refs.AddRLP_absent
      reference_refs.DeleteRLP_present reference_refs.DeleteRLP_absent
      reference_refs.AddRLP_readable reference_refs.DeleteRLP_readable)

context refs_json
begin

lemma set_AddRLP: "refs_readable J g \<Longrightarrow> ok k \<Longrightarrow>
  set (refs_of J (snd (AddRLP J k g))) = insert k (set (refs_of J g))"
  using gw_refs.add_contains by (auto simp: ContainsRLP_refs)

lemma AddRLP_flag: "refs_readable J g \<Longrightarrow> ok k \<Longrightarrow> fst (AddRLP J k g) \<longleftrightarrow> k \<notin> set (refs_of J g)"
  by (cases "k \<in> set (refs_of J g)") (simp_all add: AddRLP_present AddRLP_absent)

lemma AddRLP_refs: "refs_readable J g \<Longrightarrow> ok k \<Longrightarrow>
  refs_of J (snd (AddRLP J k g)) = (if k \<in> set (refs_of J g) then refs_of J g else refs_of J g @ [k])"
  by (simp add: AddRLP_present AddRLP_absent)

lemma DeleteRLP_flag: "fst (DeleteRLP J k g) \<longleftrightarrow> k \<in> set (refs_of J g)"
  by (cases "k \<in> set (refs_of J g)") (simp_all add: DeleteRLP_present DeleteRLP_absent)

lemma DeleteRLP_refs: "refs_of J (snd (DeleteRLP J k g)) = remove1 k (refs_of J g)"
  by (cases "k \<in> set (refs_of J g)") (simp_all add: DeleteRLP_present DeleteRLP_absent remove1_idem)

lemma Delete_Add: "refs_readable J g \<Longrightarrow> ok k \<Longrightarrow> k \<notin> set (refs_of J g) \<Longrightarrow>
  refs_of J (snd (DeleteRLP J k (snd (AddRLP J k g)))) = refs_of J g"
  by (rule gw_refs.del_add)

lemma refs_history:
  "refs_readable J g \<Longrightarrow> distinct (refs_of J g) \<Longrightarrow> list_all (ok \<circ> snd) ops \<Longrightarrow>
   let g' = fold (\<lambda>(a, k) g. snd (if a then AddRLP J k g else DeleteRLP J k g)) ops g
   in refs_readable J g' \<and> distinct (refs_of J g')"
  by (rule gw_refs.history_distinct)

end

section \<open>Properties\<close>

definition example_gateway :: gateway where
  "example_gateway = k8s_object.extend (new_object ''gateway.networking.k8s.io'' ''Gateway'' ''istio'' ''gw'')
     \<lparr>gw_Listeners = [\<lparr>ln_Hostname = Some ''*.toystore.com''\<rparr>], gw_Conditions = None\<rparr>"

lemma annotations_example_gateway [simp]: "annotations_of example_gateway = Map.empty"
  by (simp add: example_gateway_def new_object_def k8s_object.defs annotations_of_def)

lemma readable_example_gateway [simp]: "refs_readable J (Some example_gateway)"
  by (simp add: refs_readable_def)

lemma refs_example_gateway [simp]: "refs_of J (Some example_gateway) = []"
  by (simp add: refs_of_def RLPRefs_def)



text \<open>
  Whatever sequence of additions and deletions is applied to a gateway, its list of
  references stays readable and free of duplicates, so a deleted policy is really gone.
\<close>

theorem gateway_refs_no_duplicates:
  assumes "refs_json J ok" "refs_readable J g" "distinct (refs_of J g)" "list_all (ok \<circ> snd) ops"
  shows "let g' = fold (\<lambda>(a, k) g. snd (if a then AddRLP J k g else DeleteRLP J k g)) ops g
         in refs_readable J g' \<and> distinct (refs_of J g') \<and> \<not> ContainsRLP J (snd (DeleteRLP J k g')) k"
  using refs_json.refs_history[OF assms] refs_json.DeleteRLP_refs[OF assms(1)]
  by (simp add: Let_def ContainsRLP_refs)

theorem gateway_refs_no_duplicates_witness:
  "distinct (refs_of reference_json (snd (AddRLP reference_json (ObjectKey ''b'' ''y'')
     (snd (DeleteRLP reference_json (ObjectKey ''a'' ''x'')
     (snd (AddRLP reference_json (ObjectKey ''a'' ''x'') (Some example_gateway)))))))) "
  using gateway_refs_no_duplicates[OF reference_refs.refs_json_axioms, of "Some example_gateway"
      "[(True, ObjectKey ''a'' ''x''), (False, ObjectKey ''a'' ''x''), (True, ObjectKey ''b'' ''y'')]"]
  by (simp add: Let_def)

text \<open>
  The three groups of gateways a policy is reconciled against: the new and the same ones
  together are the gateways the policy targets, the same and the left ones together are the
  gateways that reference the policy, and the new and left ones are those where the two differ.
\<close>

theorem gateway_groups:
  "mset (NewGateways J items k keys) + mset (SameGateways J items k keys) =
     mset (filter (\<lambda>gw. ObjectKeyFromObject gw \<in> set keys) items) \<and>
   mset (SameGateways J items k keys) + mset (LeftGateways J items k keys) =
     mset (filter (\<lambda>gw. k \<in> set (refs_of J (Some gw))) items) \<and>
   mset (NewGateways J items k keys) + mset (LeftGateways J items k keys) =
     mset (filter (\<lambda>gw. (ObjectKeyFromObject gw \<in> set keys) \<noteq> (k \<in> set (refs_of J (Some gw)))) items)"
  unfolding NewGateways_def SameGateways_def LeftGateways_def
  by (induction items) (auto simp: ContainsRLP_refs)

end
