(* ===== verification/Limit_Index.thy ===== *)
theory Limit_Index
  imports Gateway_Refs "HOL-Library.Product_Lexorder"
begin

text \<open>
  pkg/rlptools/limit_index.go: the index of Limitador's limits by gateway and domain, built from
  the Limitador resource and turned back into its list of limits.

  The abstract state of an index is the function \<open>index_view\<close>: for a gateway and a domain, the
  limits in order. The contract of the index (\<open>limit_store\<close>) is stated over it; the index is
  shown to satisfy it, and what the reconciler relies on (replacing a gateway's limits, the
  independence of the runtime's map order, the comparison of two indexes, the round trip through
  the Limitador resource) follows.
\<close>

section \<open>Ordering and comparing limits\<close>

text \<open>The loop over the conditions (or variables) of two limits with equally many.\<close>

fun compare_lists :: "string list \<Rightarrow> string list \<Rightarrow> bool option" where
  "compare_lists (condI # is) (condJ # js) =
     (if Compare condI condJ = 1 then Some True
      else if Compare condI condJ = -1 then Some False
      else compare_lists is js)"
| "compare_lists _ _ = None"

definition Less :: "Limit \<Rightarrow> Limit \<Rightarrow> bool" where
  "Less li lj =
     (if MaxValue li \<noteq> MaxValue lj then MaxValue li > MaxValue lj
      else if Seconds li \<noteq> Seconds lj then Seconds li > Seconds lj
      else if length (elems (Conditions li)) \<noteq> length (elems (Conditions lj)) then
        length (elems (Conditions li)) > length (elems (Conditions lj))
      else case compare_lists (elems (Conditions li)) (elems (Conditions lj)) of
        Some r \<Rightarrow> r
      | None \<Rightarrow>
          if length (elems (Variables li)) \<noteq> length (elems (Variables lj)) then
            length (elems (Variables li)) > length (elems (Variables lj))
          else case compare_lists (elems (Variables li)) (elems (Variables lj)) of
            Some r \<Rightarrow> r
          | None \<Rightarrow> True)"

text \<open>
  The other two methods sort.Sort calls on a LimitList. An index out of range is a panic; sort.Sort
  keeps its indexes in range, so what it leaves is a permutation.
\<close>

definition LimitList_Len :: "Limit list \<Rightarrow> nat" where
  "LimitList_Len l = length l"

definition LimitList_Swap :: "Limit list \<Rightarrow> nat \<Rightarrow> nat \<Rightarrow> go_error + Limit list" where
  "LimitList_Swap l i j =
     (if i < LimitList_Len l \<and> j < LimitList_Len l then Inr (l[i := l ! j, j := l ! i])
      else Inl (Panic ''index out of range''))"

lemma LimitList_Swap_permutes:
  "(\<exists>l'. LimitList_Swap l i j = Inr l') \<longleftrightarrow> i < LimitList_Len l \<and> j < LimitList_Len l"
  "LimitList_Swap l i j = Inr l' \<Longrightarrow> mset l' = mset l"
  by (auto simp: LimitList_Swap_def LimitList_Len_def mset_swap split: if_splits)

text \<open>reflect.DeepEqual on limits is equality: a nil list of conditions is not an empty one.\<close>

definition SameLimitList :: "Limit list \<Rightarrow> Limit list \<Rightarrow> bool" where
  "SameLimitList a b =
     (if length a \<noteq> length b then False
      else sort_Sort Less a = sort_Sort Less b)"

text \<open>What Less looks at, and the order it implements: descending, lexicographic.\<close>

definition limit_key :: "Limit \<Rightarrow> int \<times> int \<times> string list \<times> string list" where
  "limit_key l = (MaxValue l, Seconds l, elems (Conditions l), elems (Variables l))"

definition limit_rank :: "Limit \<Rightarrow> int \<times> int \<times> nat \<times> string list \<times> nat \<times> string list" where
  "limit_rank l = (MaxValue l, Seconds l, length (elems (Conditions l)), elems (Conditions l),
     length (elems (Variables l)), elems (Variables l))"

lemma compare_lists_lex:
  "length xs = length ys \<Longrightarrow> compare_lists xs ys = (if xs = ys then None else Some (ys < xs))"
proof (induction xs ys rule: compare_lists.induct)
  case (1 x xs y ys)
  then show ?case
    by (cases x y rule: linorder_cases) (auto simp: Compare_def)
qed auto

lemma Less_iff: "Less a b \<longleftrightarrow> limit_rank b \<le> limit_rank a"
  by (auto simp: Less_def limit_rank_def compare_lists_lex less_le)

lemma limit_rank_key: "limit_rank a = limit_rank b \<longleftrightarrow> limit_key a = limit_key b"
  by (auto simp: limit_rank_def limit_key_def)

interpretation limit_order: total_less Less limit_key
  by unfold_locales (auto simp: Less_iff limit_rank_key[symmetric])

text \<open>
  Limits for which Less can tell apart whatever DeepEqual can: no two differ only by a nil
  against an empty list.
\<close>

definition no_ties :: "Limit list \<Rightarrow> bool" where
  "no_ties ls \<longleftrightarrow> inj_on limit_key (set ls)"

lemma SameLimitList_length: "SameLimitList a b \<Longrightarrow> length a = length b"
  by (simp add: SameLimitList_def split: if_splits)

lemma SameLimitList_refl [simp]: "SameLimitList a a"
  by (simp add: SameLimitList_def)

lemma SameLimitList_mset: "SameLimitList a b \<Longrightarrow> mset a = mset b"
  by (metis SameLimitList_def mset_sort_Sort)

lemma SameLimitList_iff: "no_ties (a @ b) \<Longrightarrow> SameLimitList a b \<longleftrightarrow> mset a = mset b"
  using limit_order.sort_eq_iff[of a b] mset_eq_length[of a b]
  by (auto simp: SameLimitList_def no_ties_def)

text \<open>
  SameLimitList compares bags of limits. If it answers yes the two lists hold the same
  limits with the same multiplicities; and it does answer yes then, unless two limits of the
  lists differ only by a nil list of conditions or variables against an empty one.
\<close>

theorem SameLimitList_correct:
  "(SameLimitList a b \<longrightarrow> mset a = mset b) \<and>
   (no_ties (a @ b) \<longrightarrow> (SameLimitList a b \<longleftrightarrow> mset a = mset b))"
  by (simp add: SameLimitList_mset SameLimitList_iff)

definition example_limit :: "int \<Rightarrow> string slice \<Rightarrow> Limit" where
  "example_limit n conds = \<lparr>MaxValue = n, Seconds = 60, Conditions = conds, Variables = None\<rparr>"

theorem SameLimitList_correct_witness:
  "SameLimitList [example_limit 1 None, example_limit 2 None] [example_limit 2 None, example_limit 1 None]"
proof -
  have "no_ties ([example_limit 1 None, example_limit 2 None] @ [example_limit 2 None, example_limit 1 None])"
    by (auto simp: no_ties_def inj_on_def limit_key_def example_limit_def)
  then show ?thesis
    using SameLimitList_correct[of "[example_limit 1 None, example_limit 2 None]"
        "[example_limit 2 None, example_limit 1 None]"]
    by (simp add: add_mset_commute)
qed

text \<open>
  The exception is real: for limits that differ only by nil against empty conditions the
  comparison depends on the order of the lists, and reports a difference between two lists that
  hold the same limits.
\<close>

theorem SameLimitList_nil_conditions:
  "let a = [example_limit 1 None, example_limit 1 (Some [])];
       b = [example_limit 1 (Some []), example_limit 1 None]
   in mset a = mset b \<and> \<not> SameLimitList a b"
  by (simp add: SameLimitList_def sort_Sort_def example_limit_def Less_def Let_def add_mset_commute)

section \<open>The index\<close>

type_synonym LimitsByDomain = "(string \<times> Limit list) list"

type_synonym LimitIndex = "(object_key \<times> LimitsByDomain) list"

text \<open>The orders in which the runtime visits the two levels of maps.\<close>

record range_order =
  ro_keys :: "object_key list \<Rightarrow> object_key list"
  ro_domains :: "object_key \<Rightarrow> string list \<Rightarrow> string list"

fun equal_domains :: "string list \<Rightarrow> LimitsByDomain \<Rightarrow> LimitsByDomain \<Rightarrow> bool" where
  "equal_domains [] l other = True"
| "equal_domains (domain # domains) l other =
     (case map_of other domain of
        None \<Rightarrow> False
      | Some otherLimits \<Rightarrow>
          if \<not> SameLimitList (lookup_list l domain) otherLimits then False
          else equal_domains domains l other)"

text \<open>\<open>other\<close> may be a nil map.\<close>

definition LimitsByDomain_Equals :: "LimitsByDomain \<Rightarrow> LimitsByDomain option \<Rightarrow> bool" where
  "LimitsByDomain_Equals l other =
     (case other of
        None \<Rightarrow> False
      | Some o' \<Rightarrow>
          if length l \<noteq> length o' then False
          else equal_domains (map fst l) l o')"

definition to_rate_limit :: "object_key \<Rightarrow> string \<Rightarrow> Limit \<Rightarrow> limitador_rate_limit" where
  "to_rate_limit gwKey domain l =
     \<lparr>lrl_Conditions = Conditions l, lrl_MaxValue = MaxValue l,
      lrl_Namespace = MarshallNamespace gwKey domain, lrl_Seconds = Seconds l,
      lrl_Variables = Variables l\<rparr>"

definition domains_of :: "LimitIndex \<Rightarrow> object_key \<Rightarrow> LimitsByDomain" where
  "domains_of idx gwKey = (case map_of idx gwKey of None \<Rightarrow> [] | Some m \<Rightarrow> m)"

definition ToLimits :: "range_order \<Rightarrow> LimitIndex \<Rightarrow> limitador_rate_limit list" where
  "ToLimits ro idx =
     concat (map (\<lambda>gwKey.
       let limitsByDomain = domains_of idx gwKey in
       concat (map (\<lambda>domain. map (to_rate_limit gwKey domain) (lookup_list limitsByDomain domain))
         (range_keys (ro_domains ro gwKey) limitsByDomain)))
       (range_keys (ro_keys ro) idx))"

definition DeleteGateway :: "LimitIndex \<Rightarrow> object_key \<Rightarrow> LimitIndex" where
  "DeleteGateway idx gwKey = AList.delete gwKey idx"

definition AddLimit :: "LimitIndex \<Rightarrow> object_key \<Rightarrow> string \<Rightarrow> Limit \<Rightarrow> LimitIndex" where
  "AddLimit idx gwKey domain limit =
     (let idx = (case map_of idx gwKey of None \<Rightarrow> AList.update gwKey [] idx | Some _ \<Rightarrow> idx)
      in AList.update gwKey (append_at domain [limit] (domains_of idx gwKey)) idx)"

definition AddGatewayLimits ::
    "range_order \<Rightarrow> LimitIndex \<Rightarrow> object_key \<Rightarrow> LimitsByDomain \<Rightarrow> LimitIndex" where
  "AddGatewayLimits ro idx gwKey gwLimits =
     foldl (\<lambda>idx domain.
         foldl (\<lambda>idx limit. AddLimit idx gwKey domain limit) idx (lookup_list gwLimits domain))
       idx (range_keys (ro_domains ro gwKey) gwLimits)"

definition AddLimitFromRateLimit :: "LimitIndex \<Rightarrow> limitador_rate_limit option \<Rightarrow> LimitIndex" where
  "AddLimitFromRateLimit idx limit =
     (case limit of
        None \<Rightarrow> idx
      | Some l \<Rightarrow>
          case UnMarshallLimitNamespace (lrl_Namespace l) of
            Inl err \<Rightarrow> idx
          | Inr (gwKey, domain) \<Rightarrow>
              (case LimitFromLimitadorRateLimit limit of
                 None \<Rightarrow> idx
               | Some limit' \<Rightarrow> AddLimit idx gwKey domain limit'))"

fun equal_gateways :: "object_key list \<Rightarrow> LimitIndex \<Rightarrow> LimitIndex \<Rightarrow> bool" where
  "equal_gateways [] l other = True"
| "equal_gateways (gwKey # gwKeys) l other =
     (if map_of other gwKey = None then False
      else if \<not> LimitsByDomain_Equals (domains_of l gwKey) (map_of other gwKey) then False
      else equal_gateways gwKeys l other)"

definition LimitIndex_Equals :: "LimitIndex \<Rightarrow> LimitIndex option \<Rightarrow> bool" where
  "LimitIndex_Equals l other =
     (case other of
        None \<Rightarrow> False
      | Some o' \<Rightarrow>
          if length l \<noteq> length o' then False
          else equal_gateways (map fst l) l o')"

definition NewLimitadorIndex :: "limitador option \<Rightarrow> LimitIndex" where
  "NewLimitadorIndex limitador =
     (case limitador of
        None \<Rightarrow> []
      | Some l \<Rightarrow> foldl (\<lambda>idx rl. AddLimitFromRateLimit idx (Some rl)) [] (lim_Limits l))"

section \<open>The abstract state and the invariant\<close>

definition index_view :: "LimitIndex \<Rightarrow> object_key \<Rightarrow> string \<Rightarrow> Limit list" where
  "index_view idx gwKey domain = lookup_list (domains_of idx gwKey) domain"

text \<open>Keys are distinct, and no gateway and no domain is empty.\<close>

definition wf_domains :: "LimitsByDomain \<Rightarrow> bool" where
  "wf_domains m \<longleftrightarrow> distinct (map fst m) \<and> list_all (\<lambda>(d, ls). ls \<noteq> []) m"

definition wf_index :: "LimitIndex \<Rightarrow> bool" where
  "wf_index idx \<longleftrightarrow> distinct (map fst idx) \<and> list_all (\<lambda>(k, m). m \<noteq> [] \<and> wf_domains m) idx"

lemma index_view_Nil [simp]: "index_view [] k d = []"
  by (simp add: index_view_def domains_of_def)

lemma wf_index_Nil [simp]: "wf_index []"
  by (simp add: wf_index_def)

lemma wf_index_entry: "wf_index idx \<Longrightarrow> map_of idx k = Some m \<Longrightarrow> m \<noteq> [] \<and> wf_domains m"
  by (auto simp: wf_index_def list_all_iff dest!: map_of_SomeD)

lemma wf_domains_of: "wf_index idx \<Longrightarrow> wf_domains (domains_of idx k)"
  by (auto simp: domains_of_def wf_domains_def dest: wf_index_entry split: option.splits)

lemma set_update_subset: "set (AList.update k v m) \<subseteq> insert (k, v) (set m)"
  by (induction m) auto

lemma wf_domains_append_at:
  "wf_domains m \<Longrightarrow> ls \<noteq> [] \<Longrightarrow> wf_domains (append_at d ls m)"
  using set_update_subset[of d "lookup_list m d @ ls" m]
  by (fastforce simp: wf_domains_def list_all_iff append_at_def distinct_update)

lemma append_at_nonempty [simp]: "append_at d ls m \<noteq> []"
  by (cases m) (auto simp: append_at_def)

lemma wf_index_update:
  "wf_index idx \<Longrightarrow> m \<noteq> [] \<Longrightarrow> wf_domains m \<Longrightarrow> wf_index (AList.update k m idx)"
  using set_update_subset[of k m idx]
  by (fastforce simp: wf_index_def list_all_iff distinct_update)

lemma AddLimit_update:
  "AddLimit idx k d l = AList.update k (append_at d [l] (domains_of idx k)) idx"
proof -
  have "AList.update k v (AList.update k [] idx) = AList.update k v idx" for v
    by (induction idx) auto
  then show ?thesis by (auto simp: AddLimit_def domains_of_def update_conv' split: option.splits)
qed

lemma domains_of_update:
  "domains_of (AList.update k m idx) k' = (if k' = k then m else domains_of idx k')"
  by (simp add: domains_of_def update_conv')

lemma index_view_AddLimit:
  "index_view (AddLimit idx k d l) k' d' =
     (if k' = k \<and> d' = d then index_view idx k d @ [l] else index_view idx k' d')"
  by (simp add: index_view_def AddLimit_update domains_of_update lookup_append_at)

lemma index_view_DeleteGateway:
  "index_view (DeleteGateway idx k) k' d = (if k' = k then [] else index_view idx k' d)"
  by (simp add: index_view_def DeleteGateway_def domains_of_def delete_conv')

lemma wf_AddLimit: "wf_index idx \<Longrightarrow> wf_index (AddLimit idx k d l)"
  unfolding AddLimit_update
  by (rule wf_index_update) (simp_all add: wf_domains_append_at wf_domains_of)

lemma set_delete_subset: "set (AList.delete k m) \<subseteq> set m"
  by (induction m) auto

lemma wf_DeleteGateway: "wf_index idx \<Longrightarrow> wf_index (DeleteGateway idx k)"
  using set_delete_subset[of k idx]
  by (auto simp: wf_index_def DeleteGateway_def list_all_iff distinct_delete)

section \<open>The contract of the index\<close>

locale limit_store =
  fixes view :: "'s \<Rightarrow> 'k \<Rightarrow> 'd \<Rightarrow> 'v list"
    and add :: "'s \<Rightarrow> 'k \<Rightarrow> 'd \<Rightarrow> 'v \<Rightarrow> 's"
    and del :: "'s \<Rightarrow> 'k \<Rightarrow> 's"
    and inv :: "'s \<Rightarrow> bool"
  assumes view_add: "view (add s k d v) k' d' =
      (if k' = k \<and> d' = d then view s k d @ [v] else view s k' d')"
    and view_del: "view (del s k) k' d' = (if k' = k then [] else view s k' d')"
    and inv_add: "inv s \<Longrightarrow> inv (add s k d v)"
    and inv_del: "inv s \<Longrightarrow> inv (del s k)"
begin

lemma view_add_list:
  "view (foldl (\<lambda>s v. add s k d v) s vs) k' d' =
     (if k' = k \<and> d' = d then view s k d @ vs else view s k' d')"
  by (induction vs arbitrary: s) (auto simp: view_add)

lemma view_add_domains:
  assumes "distinct ds"
  shows "view (foldl (\<lambda>s d. foldl (\<lambda>s v. add s k d v) s (f d)) s ds) k' d' =
     (if k' = k \<and> d' \<in> set ds then view s k d' @ f d' else view s k' d')"
  using assms by (induction ds arbitrary: s) (auto simp: view_add_list)

lemma inv_add_list: "inv s \<Longrightarrow> inv (foldl (\<lambda>s v. add s k d v) s vs)"
  by (induction vs arbitrary: s) (auto simp: inv_add)

lemma inv_add_domains: "inv s \<Longrightarrow> inv (foldl (\<lambda>s d. foldl (\<lambda>s v. add s k d v) s (f d)) s ds)"
  by (induction ds arbitrary: s) (auto simp: inv_add_list)

text \<open>Adding a list of keyed values one by one: each view is the sub-list of its own.\<close>

lemma view_add_keyed:
  "view (foldl (\<lambda>s x. case g x of None \<Rightarrow> s | Some (k, d, v) \<Rightarrow> add s k d v) s xs) k' d' =
     view s k' d' @ List.map_filter (\<lambda>x. case g x of None \<Rightarrow> None
        | Some (k, d, v) \<Rightarrow> if k = k' \<and> d = d' then Some v else None) xs"
  by (induction xs arbitrary: s)
    (auto simp: view_add List.map_filter_simps split: option.splits prod.splits)

lemma inv_add_keyed:
  "inv s \<Longrightarrow> inv (foldl (\<lambda>s x. case g x of None \<Rightarrow> s | Some (k, d, v) \<Rightarrow> add s k d v) s xs)"
  by (induction xs arbitrary: s) (auto simp: inv_add split: option.splits prod.splits)

text \<open>Deleting a gateway and adding its limits anew replaces exactly that gateway.\<close>

lemma view_replace:
  assumes "distinct ds"
  shows "view (foldl (\<lambda>s d. foldl (\<lambda>s v. add s k d v) s (f d)) (del s k) ds) k' d' =
     (if k' = k then (if d' \<in> set ds then f d' else []) else view s k' d')"
  using assms by (simp add: view_add_domains view_del)

end

interpretation idx: limit_store index_view AddLimit DeleteGateway wf_index
  by unfold_locales
    (simp_all add: index_view_AddLimit index_view_DeleteGateway wf_AddLimit wf_DeleteGateway)

section \<open>Adding and replacing the limits of a gateway\<close>

lemma lookup_list_absent: "d \<notin> fst ` set m \<Longrightarrow> lookup_list m d = []"
  by (force simp: lookup_list_def split: option.splits dest: map_of_SomeD)

lemma index_view_AddGatewayLimits:
  assumes "distinct (map fst m)"
  shows "index_view (AddGatewayLimits ro s k m) k' d =
    (if k' = k then index_view s k d @ lookup_list m d else index_view s k' d)"
  using assms
  by (auto simp: AddGatewayLimits_def idx.view_add_domains lookup_list_absent)

lemma wf_AddGatewayLimits: "wf_index s \<Longrightarrow> wf_index (AddGatewayLimits ro s k m)"
  unfolding AddGatewayLimits_def by (rule idx.inv_add_domains)

text \<open>
  Deleting a gateway from the index and adding its limits again, as the reconciler does,
  leaves exactly the new limits for that gateway, domain by domain and in their order, leaves
  every other gateway alone and keeps the index well formed; the order in which the runtime
  visits the domains has no influence.
\<close>

theorem replace_gateway_limits:
  assumes "wf_index s" "distinct (map fst m)"
  shows "index_view (AddGatewayLimits ro (DeleteGateway s k) k m) =
      (\<lambda>k' d. if k' = k then lookup_list m d else index_view s k' d) \<and>
    wf_index (AddGatewayLimits ro (DeleteGateway s k) k m)"
  using assms
  by (auto simp: fun_eq_iff index_view_AddGatewayLimits index_view_DeleteGateway
      intro!: wf_AddGatewayLimits wf_DeleteGateway)

definition example_index :: LimitIndex where
  "example_index =
     [(ObjectKey ''istio'' ''gw'', [(''a.com'', [example_limit 1 None, example_limit 2 None])]),
      (ObjectKey ''istio'' ''gw2'', [(''*'', [example_limit 3 None])])]"

lemma wf_example_index [simp]: "wf_index example_index"
  by (simp add: example_index_def wf_index_def wf_domains_def)

theorem replace_gateway_limits_witness:
  "index_view (AddGatewayLimits \<lparr>ro_keys = rev, ro_domains = (\<lambda>_. rev)\<rparr>
      (DeleteGateway example_index (ObjectKey ''istio'' ''gw'')) (ObjectKey ''istio'' ''gw'')
      [(''b.com'', [example_limit 5 None]), (''c.com'', [example_limit 6 None])])
     (ObjectKey ''istio'' ''gw'') ''b.com'' = [example_limit 5 None]"
proof -
  let ?m = "[(''b.com'', [example_limit 5 None]), (''c.com'', [example_limit 6 None])]"
  have "distinct (map fst ?m)" by simp
  from replace_gateway_limits[OF wf_example_index this] show ?thesis
    by (simp add: lookup_list_def)
qed

section \<open>Building an index from Limitador's limits\<close>

definition limit_of :: "limitador_rate_limit \<Rightarrow> Limit" where
  "limit_of l = \<lparr>MaxValue = lrl_MaxValue l, Seconds = lrl_Seconds l, Conditions = lrl_Conditions l,
     Variables = lrl_Variables l\<rparr>"

lemma LimitFromLimitadorRateLimit_Some: "LimitFromLimitadorRateLimit (Some l) = Some (limit_of l)"
  by (auto simp: limit_of_def split: option.splits)

lemma limit_of_to_rate_limit [simp]: "limit_of (to_rate_limit k d l) = l"
  by (simp add: limit_of_def to_rate_limit_def)

definition keyed_limit :: "limitador_rate_limit \<Rightarrow> (object_key \<times> string \<times> Limit) option" where
  "keyed_limit rl = (case UnMarshallLimitNamespace (lrl_Namespace rl) of
     Inl _ \<Rightarrow> None | Inr (k, d) \<Rightarrow> Some (k, d, limit_of rl))"

lemma AddLimitFromRateLimit_keyed:
  "AddLimitFromRateLimit s (Some rl) =
     (case keyed_limit rl of None \<Rightarrow> s | Some (k, d, v) \<Rightarrow> AddLimit s k d v)"
  by (auto simp: AddLimitFromRateLimit_def keyed_limit_def LimitFromLimitadorRateLimit_Some
      simp del: LimitFromLimitadorRateLimit.simps split: sum.splits)

text \<open>The limits of a Limitador resource that belong to a gateway and a domain.\<close>

definition limits_named :: "limitador_rate_limit list \<Rightarrow> object_key \<Rightarrow> string \<Rightarrow> Limit list" where
  "limits_named rls k d =
     map limit_of (filter (\<lambda>rl. UnMarshallLimitNamespace (lrl_Namespace rl) = Inr (k, d)) rls)"

lemma map_filter_keyed:
  "List.map_filter (\<lambda>x. case keyed_limit x of None \<Rightarrow> None
     | Some (k', d', v) \<Rightarrow> if k' = k \<and> d' = d then Some v else None) rls = limits_named rls k d"
  by (induction rls)
    (auto simp: limits_named_def List.map_filter_simps keyed_limit_def split: sum.splits)

lemma index_view_New: "index_view (NewLimitadorIndex (Some l)) k d = limits_named (lim_Limits l) k d"
  using idx.view_add_keyed[where g = keyed_limit and s = "[]" and xs = "lim_Limits l"]
  by (simp add: NewLimitadorIndex_def AddLimitFromRateLimit_keyed map_filter_keyed)

lemma wf_NewLimitadorIndex: "wf_index (NewLimitadorIndex l)"
  using idx.inv_add_keyed[where g = keyed_limit and s = "[]"]
  by (cases l) (simp_all add: NewLimitadorIndex_def AddLimitFromRateLimit_keyed)

text \<open>
  The index of a Limitador resource holds, for each gateway and domain, the limits whose
  namespace names them, in the resource's order; a limit whose namespace does not parse is not
  in it. The index is well formed, with no empty entries.
\<close>

theorem NewLimitadorIndex_correct:
  "index_view (NewLimitadorIndex (Some l)) = limits_named (lim_Limits l) \<and>
   wf_index (NewLimitadorIndex (Some l)) \<and> NewLimitadorIndex None = []"
  by (simp add: fun_eq_iff index_view_New wf_NewLimitadorIndex) (simp add: NewLimitadorIndex_def)

section \<open>Comparing indexes\<close>

text \<open>The two levels of the comparison have the same shape.\<close>

lemma equal_maps_iff:
  assumes "distinct (map fst l)" "distinct (map fst m)"
  shows "length l = length m \<and> (\<forall>k \<in> set (map fst l). \<exists>v. map_of m k = Some v \<and> R (the (map_of l k)) v)
    \<longleftrightarrow> (\<forall>k. rel_option R (map_of l k) (map_of m k))" (is "?L \<longleftrightarrow> ?R")
proof
  assume L: ?L
  have sub: "set (map fst l) \<subseteq> set (map fst m)"
    using L by (force simp: map_of_eq_None_iff dest: map_of_SomeD)
  moreover have "card (set (map fst l)) = card (set (map fst m))"
    using L assms distinct_card[of "map fst l"] distinct_card[of "map fst m"] by simp
  ultimately have keys: "set (map fst l) = set (map fst m)"
    by (intro card_subset_eq) auto
  show ?R
  proof
    fix k
    show "rel_option R (map_of l k) (map_of m k)"
    proof (cases "k \<in> set (map fst l)")
      case True
      then obtain v where "map_of m k = Some v" "R (the (map_of l k)) v" using L by blast
      moreover obtain u where "map_of l k = Some u"
        using True by (metis list.set_map map_of_eq_None_iff option.exhaust)
      ultimately show ?thesis by simp
    next
      case False
      with keys have "map_of l k = None" "map_of m k = None"
        by (metis list.set_map map_of_eq_None_iff)+
      then show ?thesis by simp
    qed
  qed
next
  assume R: ?R
  have dom: "map_of l k = None \<longleftrightarrow> map_of m k = None" for k
    using spec[OF R, of k] by (cases "map_of l k"; cases "map_of m k") auto
  then have "fst ` set l = fst ` set m" by (metis (no_types) map_of_eq_None_iff subsetI subset_antisym)
  then have "length l = length m"
    using assms distinct_card[of "map fst l"] distinct_card[of "map fst m"] by simp
  moreover have "\<exists>v. map_of m k = Some v \<and> R (the (map_of l k)) v" if "k \<in> set (map fst l)" for k
  proof -
    obtain u where "map_of l k = Some u"
      using \<open>k \<in> set (map fst l)\<close> by (metis list.set_map map_of_eq_None_iff option.exhaust)
    with spec[OF R, of k] show ?thesis by (cases "map_of m k") auto
  qed
  ultimately show ?L by blast
qed

lemma equal_domains_iff:
  "equal_domains ds l m \<longleftrightarrow>
     (\<forall>d \<in> set ds. \<exists>v. map_of m d = Some v \<and> SameLimitList (lookup_list l d) v)"
  by (induction ds) (auto split: option.splits)

lemma lookup_list_the: "d \<in> fst ` set l \<Longrightarrow> lookup_list l d = the (map_of l d)"
  by (cases "map_of l d") (auto simp: lookup_list_def map_of_eq_None_iff)

lemma LimitsByDomain_Equals_rel:
  assumes "distinct (map fst l)" "distinct (map fst m)"
  shows "LimitsByDomain_Equals l (Some m) \<longleftrightarrow> (\<forall>d. rel_option SameLimitList (map_of l d) (map_of m d))"
  using equal_maps_iff[OF assms, of SameLimitList]
  by (auto simp: LimitsByDomain_Equals_def equal_domains_iff lookup_list_the)

lemma SameLimitList_Nil [simp]: "SameLimitList [] b \<longleftrightarrow> b = []" "SameLimitList a [] \<longleftrightarrow> a = []"
  by (auto dest: SameLimitList_length)

lemma rel_option_lookup:
  assumes "wf_domains l" "wf_domains m"
  shows "rel_option SameLimitList (map_of l d) (map_of m d) \<longleftrightarrow>
    SameLimitList (lookup_list l d) (lookup_list m d)"
proof -
  have "ls \<noteq> []" if "wf_domains m" "map_of m d = Some ls" for m ls
    using that by (auto simp: wf_domains_def list_all_iff dest: map_of_SomeD)
  from this[OF assms(1)] this[OF assms(2)] show ?thesis
    by (cases "map_of l d"; cases "map_of m d") (auto simp: lookup_list_def)
qed

lemma LimitsByDomain_Equals_iff:
  assumes "wf_domains l" "wf_domains m"
  shows "LimitsByDomain_Equals l (Some m) \<longleftrightarrow>
    (\<forall>d. SameLimitList (lookup_list l d) (lookup_list m d))"
  using assms by (simp add: LimitsByDomain_Equals_rel rel_option_lookup wf_domains_def)

lemma equal_gateways_iff:
  "equal_gateways ks l m \<longleftrightarrow>
     (\<forall>k \<in> set ks. \<exists>v. map_of m k = Some v \<and> LimitsByDomain_Equals (domains_of l k) (Some v))"
  by (induction ks) auto

lemma wf_domains_nonempty: "wf_domains m \<Longrightarrow> m \<noteq> [] \<Longrightarrow> \<exists>d. lookup_list m d \<noteq> []"
  by (cases m) (auto simp: wf_domains_def lookup_list_def)

lemma LimitIndex_Equals_iff:
  assumes "wf_index a" "wf_index b"
  shows "LimitIndex_Equals a (Some b) \<longleftrightarrow> (\<forall>k d. SameLimitList (index_view a k d) (index_view b k d))"
proof -
  let ?R = "\<lambda>l m. LimitsByDomain_Equals l (Some m)"
  have "LimitIndex_Equals a (Some b) \<longleftrightarrow> (\<forall>k. rel_option ?R (map_of a k) (map_of b k))"
  proof -
    have "k \<in> fst ` set a \<Longrightarrow> domains_of a k = the (map_of a k)" for k
      by (cases "map_of a k") (auto simp: domains_of_def map_of_eq_None_iff)
    then show ?thesis
      using assms equal_maps_iff[of a b ?R]
      by (auto simp: LimitIndex_Equals_def equal_gateways_iff wf_index_def
          simp del: map_of_eq_Some_iff)
  qed
  also have "\<dots> \<longleftrightarrow> (\<forall>k d. SameLimitList (index_view a k d) (index_view b k d))"
  proof (intro all_cong1)
    fix k
    show "rel_option ?R (map_of a k) (map_of b k) \<longleftrightarrow>
        (\<forall>d. SameLimitList (index_view a k d) (index_view b k d))"
      using wf_index_entry[OF assms(1), of k] wf_index_entry[OF assms(2), of k]
        wf_domains_nonempty
      by (cases "map_of a k"; cases "map_of b k")
        (fastforce simp: index_view_def domains_of_def LimitsByDomain_Equals_iff)+
  qed
  finally show ?thesis .
qed


lemma index_view_example:
  "index_view example_index k d =
     (if k = ObjectKey ''istio'' ''gw'' \<and> d = ''a.com'' then [example_limit 1 None, example_limit 2 None]
      else if k = ObjectKey ''istio'' ''gw2'' \<and> d = ''*'' then [example_limit 3 None] else [])"
  by (auto simp: index_view_def domains_of_def lookup_list_def example_index_def)

definition example_index_permuted :: LimitIndex where
  "example_index_permuted =
     [(ObjectKey ''istio'' ''gw2'', [(''*'', [example_limit 3 None])]),
      (ObjectKey ''istio'' ''gw'', [(''a.com'', [example_limit 2 None, example_limit 1 None])])]"


section \<open>Every index the program builds\<close>

text \<open>The operations of the package, in any order, from the index of a Limitador resource.\<close>

inductive built_index :: "LimitIndex \<Rightarrow> bool" where
  built_New: "built_index (NewLimitadorIndex limitador)"
| built_AddLimit: "built_index s \<Longrightarrow> built_index (AddLimit s k d l)"
| built_AddLimitFromRateLimit: "built_index s \<Longrightarrow> built_index (AddLimitFromRateLimit s rl)"
| built_AddGatewayLimits: "built_index s \<Longrightarrow> built_index (AddGatewayLimits ro s k m)"
| built_DeleteGateway: "built_index s \<Longrightarrow> built_index (DeleteGateway s k)"

lemma wf_AddLimitFromRateLimit: "wf_index s \<Longrightarrow> wf_index (AddLimitFromRateLimit s rl)"
  by (cases rl)
    (simp_all add: AddLimitFromRateLimit_keyed wf_AddLimit split: option.split, simp add: AddLimitFromRateLimit_def)

lemma wf_built_index: "built_index s \<Longrightarrow> wf_index s"
  by (induction rule: built_index.induct)
    (simp_all add: wf_NewLimitadorIndex wf_AddLimit wf_AddLimitFromRateLimit wf_AddGatewayLimits wf_DeleteGateway)

text \<open>
  C31: The type of an index. Whatever sequence of operations built it, an index has each gateway
  and each domain of a gateway once, no gateway without domains and no domain without limits. So
  on all indexes the program builds, Equals, which compares the numbers of gateways and domains
  first, answers yes exactly when SameLimitList does for every gateway and domain: an index never
  differs from another by an entry that holds nothing.
\<close>

theorem built_index_typed:
  assumes "built_index a" "built_index b"
  shows "distinct (map fst a) \<and>
    list_all (\<lambda>(k, m). m \<noteq> [] \<and> distinct (map fst m) \<and> list_all (\<lambda>(d, ls). ls \<noteq> []) m) a \<and>
    (LimitIndex_Equals a (Some b) \<longleftrightarrow> (\<forall>k d. SameLimitList (index_view a k d) (index_view b k d)))"
  using wf_built_index[OF assms(1)] LimitIndex_Equals_iff[OF assms[THEN wf_built_index]]
  by (simp add: wf_index_def wf_domains_def)

theorem built_index_typed_witness:
  "LimitIndex_Equals (DeleteGateway (AddLimit [] (ObjectKey ''istio'' ''gw'') ''*'' (example_limit 1 None))
     (ObjectKey ''istio'' ''gw'')) (Some [])"
proof -
  have "built_index []"
    using built_New[of None] by (simp add: NewLimitadorIndex_def)
  from built_index_typed[OF built_DeleteGateway[OF built_AddLimit[OF this]] this]
  show ?thesis
    by (simp add: index_view_DeleteGateway index_view_AddLimit)
qed

section \<open>The round trip through the Limitador resource\<close>

definition printable :: "LimitIndex \<Rightarrow> bool" where
  "printable s \<longleftrightarrow> list_all (\<lambda>(k, m). gw_key_ok k \<and> list_all (domain_ok \<circ> fst) m) s"

lemma printable_key: "printable s \<Longrightarrow> k \<in> fst ` set s \<Longrightarrow> gw_key_ok k"
  by (auto simp: printable_def list_all_iff)

lemma printable_domain: "printable s \<Longrightarrow> d \<in> fst ` set (domains_of s k) \<Longrightarrow> domain_ok d"
  by (fastforce simp: printable_def list_all_iff domains_of_def split: option.splits
      dest: map_of_SomeD[OF sym])

lemma limits_named_append: "limits_named (xs @ ys) k d = limits_named xs k d @ limits_named ys k d"
  by (simp add: limits_named_def)

lemma limits_named_concat: "limits_named (concat xss) k d = concat (map (\<lambda>xs. limits_named xs k d) xss)"
  by (induction xss) (simp_all add: limits_named_append, simp add: limits_named_def)

lemma limits_named_to_rate_limit:
  assumes "gw_key_ok k" "domain_ok d"
  shows "limits_named (map (to_rate_limit k d) ls) k' d' = (if k' = k \<and> d' = d then ls else [])"
proof -
  have "UnMarshallLimitNamespace (lrl_Namespace (to_rate_limit k d l)) = Inr (k, d)" for l
    using UnMarshallLimitNamespace_MarshallNamespace[OF assms] by (simp add: to_rate_limit_def)
  then show ?thesis by (induction ls) (auto simp: limits_named_def)
qed

lemma domains_of_absent: "k \<notin> fst ` set s \<Longrightarrow> domains_of s k = []"
  by (force simp: domains_of_def split: option.splits dest: map_of_SomeD)

lemma limits_named_ToLimits:
  assumes "wf_index s" "printable s"
  shows "limits_named (ToLimits ro s) k d = index_view s k d"
proof -
  define per_gw where "per_gw k' = concat (map (\<lambda>d'. map (to_rate_limit k' d') (lookup_list (domains_of s k') d'))
      (range_keys (ro_domains ro k') (domains_of s k')))" for k'
  have gw: "limits_named (per_gw k') k d = (if k' = k then index_view s k d else [])"
    if k': "k' \<in> fst ` set s" for k'
  proof -
    have dist: "distinct (range_keys (ro_domains ro k') (domains_of s k'))"
      using wf_domains_of[OF assms(1), of k'] by (simp add: wf_domains_def)
    have entry: "limits_named (map (to_rate_limit k' d') (lookup_list (domains_of s k') d')) k d =
        (if k' = k \<and> d' = d then index_view s k d else [])" if "d' \<in> fst ` set (domains_of s k')" for d'
      using limits_named_to_rate_limit[OF printable_key[OF assms(2) k'] printable_domain[OF assms(2) that]]
      by (simp add: index_view_def)
    have "limits_named (per_gw k') k d = concat (map (\<lambda>d'. if k' = k \<and> d' = d then index_view s k d else [])
        (range_keys (ro_domains ro k') (domains_of s k')))"
      unfolding per_gw_def limits_named_concat map_map comp_def
      by (rule arg_cong[where f = concat], rule map_cong) (simp_all add: entry)
    also have "\<dots> = (if k' = k then index_view s k d else [])"
      by (subst concat_map_single[OF dist, where k = d])
        (auto simp: index_view_def lookup_list_absent)
    finally show ?thesis .
  qed
  have "limits_named (ToLimits ro s) k d =
      concat (map (\<lambda>k'. if k' = k then index_view s k d else []) (range_keys (ro_keys ro) s))"
    unfolding ToLimits_def Let_def per_gw_def[symmetric] limits_named_concat map_map comp_def
    by (rule arg_cong[where f = concat], rule map_cong) (simp_all add: gw)
  also have "\<dots> = index_view s k d"
    using assms(1)
    by (subst concat_map_single[where k = k])
      (auto simp: wf_index_def index_view_def domains_of_absent)
  finally show ?thesis .
qed

text \<open>
  C32: The round trip through the Limitador resource: for a well-formed index whose gateway
  names and domains have no separators, the index built from the limits it was turned into has
  the same limits for every gateway and domain, in the same order, whatever order the runtime
  visited the maps in; and any two such orders produce the same limits up to their order.
\<close>

theorem limit_index_roundtrip:
  assumes "wf_index s" "printable s"
  shows "index_view (NewLimitadorIndex (Some (l\<lparr>lim_Limits := ToLimits ro s\<rparr>))) = index_view s \<and>
    mset (ToLimits ro s) = mset (ToLimits ro' s)"
proof -
  have "mset (ToLimits ro s) = mset (ToLimits ro' s)"
    unfolding ToLimits_def Let_def
    by (intro concat_map_mset_cong concat_map_eq_multiset) simp_all
  then show ?thesis
    by (simp add: index_view_New limits_named_ToLimits[OF assms] fun_eq_iff)
qed

definition example_limitador :: limitador where
  "example_limitador = k8s_object.extend (new_object ''limitador.kuadrant.io'' ''Limitador'' ''kuadrant-system'' ''limitador'')
     \<lparr>lim_Limits = [], lim_Status = \<lparr>ls_Conditions = Some [example_condition ''Ready'' ''True''], ls_ServiceHost = ''limitador.svc'', ls_ServiceGRPC = 8081\<rparr>\<rparr>"

theorem limit_index_roundtrip_witness:
  "index_view (NewLimitadorIndex (Some (example_limitador
     \<lparr>lim_Limits := ToLimits \<lparr>ro_keys = rev, ro_domains = (\<lambda>_. rev)\<rparr> example_index\<rparr>)))
     (ObjectKey ''istio'' ''gw'') ''a.com'' = [example_limit 1 None, example_limit 2 None]"
proof -
  have "printable example_index"
    by (simp add: printable_def example_index_def gw_key_ok_def key_ok_def domain_ok_def)
  from limit_index_roundtrip[OF wf_example_index this] show ?thesis
    by (simp add: index_view_example)
qed

end
