(* ===== verification/Wasm_Utils.thy ===== *)
theory Wasm_Utils
  imports Limit_Index
begin

text \<open>
  pkg/rlptools/wasm_utils.go and pkg/istio/envoy_filters.go: the gateway actions of a policy, the
  configuration of the WASM plugin with its conversion to and from a protobuf Struct, and the
  mutators that decide whether an existing WasmPlugin or EnvoyFilter must be updated. The JSON
  and protobuf conversions of the libraries are parameters (\<open>wasm_codec\<close>).
\<close>

section \<open>Gateway actions\<close>

record GatewayAction =
  ga_Configurations :: "Configuration slice"
  ga_Rules :: "Rule slice"

definition HTTPRouteRulesToRLPRules :: "HTTPRouteRule slice \<Rightarrow> Rule slice" where
  "HTTPRouteRulesToRLPRules httpRouteRules =
     Some (map (\<lambda>r. \<lparr>Paths = append_nil (elems (hrr_Paths r)),
                     Methods = append_nil (elems (hrr_Methods r)),
                     Hosts = append_nil (elems (hrr_Hosts r))\<rparr>) (elems httpRouteRules))"

definition gateway_action :: "http_route option \<Rightarrow> RateLimit \<Rightarrow> GatewayAction" where
  "gateway_action route rl =
     (let rules = Rules rl;
          rules = (if route \<noteq> None \<and> length (elems rules) = 0
                   then HTTPRouteRulesToRLPRules (RulesFromHTTPRoute route) else rules)
      in \<lparr>ga_Configurations = Configurations rl, ga_Rules = rules\<rparr>)"

definition GatewayActionsFromRateLimitPolicy ::
    "RateLimitPolicy option \<Rightarrow> http_route option \<Rightarrow> GatewayAction list" where
  "GatewayActionsFromRateLimitPolicy rlp route =
     (case rlp of
        None \<Rightarrow> []
      | Some r \<Rightarrow> map (gateway_action route) (elems (rlps_RateLimits (rlp_Spec r))))"

text \<open>
  The actions of a policy are one per rate limit, in order, with its configurations. Without
  a route the rules are the rate limit's own; with a route an empty list of rules is replaced by
  the rules compiled from the route, so that no action of a route policy is left without rules
  and every inherited rule is bound to the host names of the route.
\<close>

theorem GatewayActions_correct:
  "let rls = elems (rlps_RateLimits (rlp_Spec r));
       actions = GatewayActionsFromRateLimitPolicy (Some r) (Some route)
   in map ga_Configurations actions = map Configurations rls \<and>
      map ga_Rules (GatewayActionsFromRateLimitPolicy (Some r) None) = map Rules rls \<and>
      list_all (\<lambda>a. elems (ga_Rules a) \<noteq> []) actions \<and>
      list_all2 (\<lambda>rl a. if elems (Rules rl) = []
          then list_all (\<lambda>rule. Hosts rule = Some (route_hosts route)) (elems (ga_Rules a))
          else ga_Rules a = Rules rl) rls actions"
proof -
  have "Hosts rule = Some (route_hosts route)"
    if "rule \<in> set (elems (HTTPRouteRulesToRLPRules (RulesFromHTTPRoute (Some route))))" for rule
    using that RulesFromHTTPRoute_hosts[of _ route]
    by (auto simp: HTTPRouteRulesToRLPRules_def append_nil_def)
  moreover have "elems (HTTPRouteRulesToRLPRules (RulesFromHTTPRoute (Some route))) \<noteq> []"
    using RulesFromHTTPRoute_nonempty[of route] by (simp add: HTTPRouteRulesToRLPRules_def)
  ultimately show ?thesis
    by (auto simp: GatewayActionsFromRateLimitPolicy_def gateway_action_def Let_def list_all_iff
        list_all2_map2 list_all2_same comp_def)
qed

section \<open>The WASM plugin configuration\<close>

record WASMRateLimitPolicy =
  wrlp_Name :: string
  wrlp_RateLimitDomain :: string
  wrlp_UpstreamCluster :: string
  wrlp_Hostnames :: "string list"
  wrlp_GatewayActions :: "GatewayAction list"

record WASMPlugin =
  FailureModeDeny :: bool
  RateLimitPolicies :: "WASMRateLimitPolicy list"

text \<open>json.Marshal and json.Unmarshal on a plugin, and a protobuf Struct's own two methods.\<close>

record wasm_codec =
  wc_Marshal :: "WASMPlugin \<Rightarrow> go_error + string"
  wc_Unmarshal :: "string \<Rightarrow> go_error + WASMPlugin"
  wc_StructMarshalJSON :: "json \<Rightarrow> go_error + string"
  wc_StructUnmarshalJSON :: "string \<Rightarrow> go_error + json"

definition ToStruct :: "wasm_codec \<Rightarrow> WASMPlugin \<Rightarrow> go_error + json" where
  "ToStruct W w =
     (case wc_Marshal W w of
        Inl err \<Rightarrow> Inl err
      | Inr wasmPluginJSON \<Rightarrow>
          case wc_StructUnmarshalJSON W wasmPluginJSON of
            Inl err \<Rightarrow> Inl err
          | Inr pluginConfigStruct \<Rightarrow> Inr pluginConfigStruct)"

definition WASMPluginFromStruct :: "wasm_codec \<Rightarrow> json option \<Rightarrow> go_error + WASMPlugin" where
  "WASMPluginFromStruct W structure =
     (case structure of
        None \<Rightarrow> Inl (Errorf ''cannot desestructure WASMPlugin from nil'' [])
      | Some s \<Rightarrow>
          case wc_StructMarshalJSON W s of
            Inl err \<Rightarrow> Inl err
          | Inr configJSON \<Rightarrow>
              case wc_Unmarshal W configJSON of
                Inl err \<Rightarrow> Inl err
              | Inr wasmPlugin \<Rightarrow> Inr wasmPlugin)"

text \<open>
  The arguments are of the right type already (the two type assertions of the source cannot
  fail); the result is the answer and the existing object as the mutator left it.
\<close>

definition WASMPluginMutator ::
    "wasm_codec \<Rightarrow> wasm_plugin_object \<Rightarrow> wasm_plugin_object \<Rightarrow> go_error + (bool \<times> wasm_plugin_object)" where
  "WASMPluginMutator W existing desired =
     (case WASMPluginFromStruct W (wp_PluginConfig existing) of
        Inl err \<Rightarrow> Inl err
      | Inr existingWASMPlugin \<Rightarrow>
          case WASMPluginFromStruct W (wp_PluginConfig desired) of
            Inl err \<Rightarrow> Inl err
          | Inr desiredWASMPlugin \<Rightarrow>
              if desiredWASMPlugin \<noteq> existingWASMPlugin
              then Inr (True, existing\<lparr>wp_PluginConfig := wp_PluginConfig desired\<rparr>)
              else Inr (False, existing))"

text \<open>
  The WasmPlugin mutator never touches anything but the plugin configuration; when it
  succeeds, the object it leaves has a configuration that decodes to the desired one, it asks for
  an update exactly when the two decode differently, and mutating again asks for none.
\<close>

theorem WASMPluginMutator_correct:
  assumes "WASMPluginMutator W existing desired = Inr (update, result)"
  shows "WASMPluginFromStruct W (wp_PluginConfig result) = WASMPluginFromStruct W (wp_PluginConfig desired) \<and>
    (update \<longleftrightarrow> WASMPluginFromStruct W (wp_PluginConfig existing) \<noteq> WASMPluginFromStruct W (wp_PluginConfig desired)) \<and>
    result = existing\<lparr>wp_PluginConfig := wp_PluginConfig result\<rparr> \<and>
    WASMPluginMutator W result desired = Inr (False, result)"
  using assms by (auto simp: WASMPluginMutator_def split: sum.splits if_splits)

definition example_wasm_codec :: wasm_codec where
  "example_wasm_codec = \<lparr>wc_Marshal = (\<lambda>w. Inr (if FailureModeDeny w then ''deny'' else ''allow'')),
     wc_Unmarshal = (\<lambda>s. Inr \<lparr>FailureModeDeny = (s = ''deny''), RateLimitPolicies = []\<rparr>),
     wc_StructMarshalJSON = (\<lambda>j. case j of JString s \<Rightarrow> Inr s | _ \<Rightarrow> Inl (Errorf ''not an object'' [])),
     wc_StructUnmarshalJSON = (\<lambda>s. Inr (JString s))\<rparr>"

definition example_wasm_plugin :: "json option \<Rightarrow> wasm_plugin_object" where
  "example_wasm_plugin config = k8s_object.extend (new_object ''extensions.istio.io'' ''WasmPlugin'' ''istio'' ''kuadrant-gw'')
     \<lparr>wp_MatchLabels = None, wp_Url = '''', wp_PluginConfig = config, wp_Phase = ''STATS''\<rparr>"

theorem WASMPluginMutator_correct_witness:
  "WASMPluginMutator example_wasm_codec (example_wasm_plugin (Some (JString ''deny'')))
     (example_wasm_plugin (Some (JString ''deny''))) =
     Inr (False, example_wasm_plugin (Some (JString ''deny'')))"
proof -
  have "WASMPluginMutator example_wasm_codec (example_wasm_plugin (Some (JString ''allow'')))
      (example_wasm_plugin (Some (JString ''deny''))) =
      Inr (True, example_wasm_plugin (Some (JString ''deny'')))"
    by (simp add: WASMPluginMutator_def WASMPluginFromStruct_def example_wasm_codec_def
        example_wasm_plugin_def new_object_def k8s_object.defs)
  then show ?thesis
    using WASMPluginMutator_correct by blast
qed

section \<open>envoy_filters.go\<close>

text \<open>\<open>unmarshal\<close> is json.Marshal followed by the UnmarshalJSON of EnvoyFilter_Patch.\<close>

definition LimitadorClusterPatch ::
    "(json \<Rightarrow> go_error + envoy_patch) \<Rightarrow> string \<Rightarrow> int \<Rightarrow> go_error + envoy_config_patch slice" where
  "LimitadorClusterPatch unmarshal limitadorSvcHost limitadorGRPCPort =
     (let patchUnstructured = JObject
        [(''operation'', JString ''ADD''),
         (''value'', JObject
           [(''name'', JString KuadrantRateLimitClusterName),
            (''type'', JString ''STRICT_DNS''),
            (''connect_timeout'', JString ''1s''),
            (''lb_policy'', JString ''ROUND_ROBIN''),
            (''http2_protocol_options'', JObject []),
            (''load_assignment'', JObject
              [(''cluster_name'', JString KuadrantRateLimitClusterName),
               (''endpoints'', JList
                 [JObject
                   [(''lb_endpoints'', JList
                     [JObject
                       [(''endpoint'', JObject
                         [(''address'', JObject
                           [(''socket_address'', JObject
                             [(''address'', JString limitadorSvcHost),
                              (''port_value'', JInt limitadorGRPCPort)])])])]])]])])])]
      in case unmarshal patchUnstructured of
           Inl err \<Rightarrow> Inl err
         | Inr patch \<Rightarrow>
             Inr (Some [\<lparr>ecp_ApplyTo = ''CLUSTER'', ecp_MatchClusterService = limitadorSvcHost,
               ecp_Patch = patch\<rparr>]))"

definition AlwaysUpdateEnvoyFilter ::
    "envoy_filter \<Rightarrow> envoy_filter \<Rightarrow> go_error + (bool \<times> envoy_filter)" where
  "AlwaysUpdateEnvoyFilter existing desired =
     Inr (True, existing\<lparr>ef_WorkloadLabels := ef_WorkloadLabels desired,
       ef_ConfigPatches := ef_ConfigPatches desired, ef_Priority := ef_Priority desired\<rparr>)"

end
