(* ===== verification/Client.thy ===== *)
theory Client
  imports Wasm_Utils
begin

text \<open>
  What the controllers run against. The Kubernetes client of controller-runtime, the helper
  functions of apimachinery and of the operators' APIs, the runtime's map orders and the process
  environment are not code of the repository: they are the fields of \<open>'w env\<close>, an argument of
  every reconciler function, over an arbitrary type \<open>'w\<close> of worlds (\<open>lib_KindText\<close> and
  \<open>lib_TargetRefText\<close> are the texts fmt prints for a group, version and kind and for a target
  reference). A theorem that relies on them names what it relies on (\<open>store_api\<close>, ...).

  The base reconciler (pkg/reconcilers/base_reconciler.go) follows.
\<close>

section \<open>The client\<close>

text \<open>
  One kind of resource. Update writes the server's version back into the object, so it returns
  an object. Delete reads only the key of its argument.
\<close>

record ('w, 'o) resource_api =
  api_Get :: "object_key \<Rightarrow> ('w, 'o) io"
  api_Create :: "'o \<Rightarrow> ('w, unit) io"
  api_Update :: "'o \<Rightarrow> ('w, 'o) io"
  api_Delete :: "'o \<Rightarrow> ('w, unit) io"
  api_StatusUpdate :: "'o \<Rightarrow> ('w, unit) io"

record 'w env =
  cl_RLPs :: "('w, RateLimitPolicy) resource_api"
  cl_APs :: "('w, AuthPolicy) resource_api"
  cl_Gateways :: "('w, gateway) resource_api"
  cl_HTTPRoutes :: "('w, http_route) resource_api"
  cl_Limitadors :: "('w, limitador) resource_api"
  cl_WasmPlugins :: "('w, wasm_plugin_object) resource_api"
  cl_EnvoyFilters :: "('w, envoy_filter) resource_api"
  cl_AuthorizationPolicies :: "('w, authorization_policy) resource_api"
  cl_AuthConfigs :: "('w, auth_config) resource_api"
  cl_ListGateways :: "('w, gateway list) io"
  lib_IsStatusConditionFalse :: "condition slice \<Rightarrow> string \<Rightarrow> bool"
  lib_SetStatusCondition :: "'w \<Rightarrow> condition slice \<Rightarrow> condition \<Rightarrow> condition slice"
  lib_ContainsFinalizer :: "string list \<Rightarrow> string \<Rightarrow> bool"
  lib_AddFinalizer :: "string list \<Rightarrow> string \<Rightarrow> string list"
  lib_RemoveFinalizer :: "string list \<Rightarrow> string \<Rightarrow> string list"
  lib_LimitadorReady :: "limitador_status \<Rightarrow> bool"
  lib_AuthConfigReady :: "json \<Rightarrow> bool"
  lib_Json :: json_codec
  lib_Wasm :: wasm_codec
  lib_PatchUnmarshal :: "json \<Rightarrow> go_error + envoy_patch"
  lib_KindText :: "string \<Rightarrow> string \<Rightarrow> string"
  lib_TargetRefText :: "policy_target_reference \<Rightarrow> string"
  rt_Range :: "'w \<Rightarrow> range_order"
  os_Env :: "string \<rightharpoonup> string"

text \<open>Package variables read from the environment when the process starts.\<close>

definition WASMFilterImageURL :: "'w env \<Rightarrow> string" where
  "WASMFilterImageURL c = FetchEnv (os_Env c) ''WASM_FILTER_IMAGE'' ''oci://quay.io/kuadrant/wasm-shim:latest''"

definition LimitadorNamespace :: "'w env \<Rightarrow> string" where
  "LimitadorNamespace c = FetchEnv (os_Env c) ''LIMITADOR_NAMESPACE'' KuadrantNamespace"

definition LimitadorName :: "'w env \<Rightarrow> string" where
  "LimitadorName c = FetchEnv (os_Env c) ''LIMITADOR_NAME'' ''limitador''"

definition AuthProvider :: "'w env \<Rightarrow> string" where
  "AuthProvider c = FetchEnv (os_Env c) ''AUTH_PROVIDER'' ''kuadrant-authorization''"

section \<open>base_reconciler.go\<close>

definition CreateOnlyMutator :: "'o \<Rightarrow> 'o \<Rightarrow> go_error + (bool \<times> 'o)" where
  "CreateOnlyMutator existing desired = Inr (False, existing)"

definition GetResource :: "('w, 'o) resource_api \<Rightarrow> object_key \<Rightarrow> ('w, 'o) io" where
  "GetResource A objKey = api_Get A objKey"

definition CreateResource :: "('w, 'o) resource_api \<Rightarrow> 'o \<Rightarrow> ('w, unit) io" where
  "CreateResource A obj = api_Create A obj"

definition UpdateResource :: "('w, 'o) resource_api \<Rightarrow> 'o \<Rightarrow> ('w, 'o) io" where
  "UpdateResource A obj = api_Update A obj"

definition DeleteResource :: "('w, 'o) resource_api \<Rightarrow> 'o \<Rightarrow> ('w, unit) io" where
  "DeleteResource A obj = api_Delete A obj"

definition UpdateResourceStatus :: "('w, 'o) resource_api \<Rightarrow> 'o \<Rightarrow> ('w, unit) io" where
  "UpdateResourceStatus A obj = api_StatusUpdate A obj"

definition ReconcileResource ::
    "('w, 'a k8s_object_scheme) resource_api \<Rightarrow> 'a k8s_object_scheme \<Rightarrow>
     ('a k8s_object_scheme \<Rightarrow> 'a k8s_object_scheme \<Rightarrow> go_error + (bool \<times> 'a k8s_object_scheme)) \<Rightarrow>
     ('w, unit) io" where
  "ReconcileResource A desired mutateFn =
     (let key = ObjectKeyFromObject desired in
      bindE (attempt (api_Get A key)) (\<lambda>got.
        case got of
          Inl err \<Rightarrow>
            if \<not> IsNotFound err then throwE err
            else if \<not> IsObjectTaggedToDelete desired then CreateResource A desired
            else retE ()
        | Inr obj \<Rightarrow>
            if IsObjectTaggedToDelete desired then DeleteResource A desired
            else bindE (liftE (mutateFn obj desired)) (\<lambda>(update, obj).
              if update then bindE (UpdateResource A obj) (\<lambda>_. retE ()) else retE ())))"

text \<open>\<open>setRef\<close> is controllerutil.SetControllerReference on the list of owner references.\<close>

definition SetOwnerReference ::
    "('b k8s_object_scheme \<Rightarrow> 'a k8s_object_scheme \<Rightarrow> go_error + owner_reference list) \<Rightarrow>
     'b k8s_object_scheme \<Rightarrow> 'a k8s_object_scheme \<Rightarrow> go_error + 'a k8s_object_scheme" where
  "SetOwnerReference setRef owner obj =
     (case setRef owner obj of
        Inl err \<Rightarrow> Inl err
      | Inr refs \<Rightarrow> Inr (obj\<lparr>obj_OwnerReferences := refs\<rparr>))"

definition EnsureOwnerReference ::
    "('b k8s_object_scheme \<Rightarrow> 'a k8s_object_scheme \<Rightarrow> go_error + owner_reference list) \<Rightarrow>
     'b k8s_object_scheme \<Rightarrow> 'a k8s_object_scheme \<Rightarrow> go_error + (bool \<times> 'a k8s_object_scheme)" where
  "EnsureOwnerReference setRef owner obj =
     (let originalSize = length (obj_OwnerReferences obj) in
      case SetOwnerReference setRef owner obj of
        Inl err \<Rightarrow> Inl err
      | Inr obj \<Rightarrow>
          let newSize = length (obj_OwnerReferences obj)
          in Inr (originalSize \<noteq> newSize, obj))"

section \<open>What a store of objects promises\<close>

text \<open>
  The documented behaviour of the API server on one kind of object, while nobody else writes it:
  \<open>view w\<close> is the store in the world \<open>w\<close>. A Get reads it and changes nothing; a successful
  Create, Update or Delete changes it at the object's key only, and the stored object has the
  \<open>same\<close> content as the one sent (the server changes other fields, such as the generation); a
  failed call changes nothing. An Update or Delete that answers not found has found no object, and
  a Delete of an object that is not there answers so. Only a Create answers that an object already
  exists, and then it does.
\<close>

definition store_api ::
    "('w, 'a k8s_object_scheme) resource_api \<Rightarrow> ('w \<Rightarrow> object_key \<rightharpoonup> 'a k8s_object_scheme) \<Rightarrow>
     ('a k8s_object_scheme \<Rightarrow> 'a k8s_object_scheme \<Rightarrow> bool) \<Rightarrow> bool" where
  "store_api A view same \<longleftrightarrow>
     (\<forall>w k. (case view w k of
               Some obj \<Rightarrow> ObjectKeyFromObject obj = k \<and> api_Get A k w = (Inr obj, w)
             | None \<Rightarrow> \<exists>e. IsNotFound e \<and> api_Get A k w = (Inl e, w))) \<and>
     (\<forall>w obj. (case api_Create A obj w of
               (Inr _, w') \<Rightarrow> \<exists>obj'. same obj' obj \<and> view w' = (view w)(ObjectKeyFromObject obj \<mapsto> obj')
             | (Inl e, w') \<Rightarrow> view w' = view w \<and> (IsAlreadyExists e \<longrightarrow> view w (ObjectKeyFromObject obj) \<noteq> None))) \<and>
     (\<forall>w obj. (case api_Update A obj w of
               (Inr obj', w') \<Rightarrow> same obj' obj \<and> view w' = (view w)(ObjectKeyFromObject obj \<mapsto> obj')
             | (Inl e, w') \<Rightarrow> view w' = view w \<and> \<not> IsAlreadyExists e \<and>
                 (IsNotFound e \<longrightarrow> view w (ObjectKeyFromObject obj) = None))) \<and>
     (\<forall>w obj. (case api_Delete A obj w of
               (Inr _, w') \<Rightarrow> view w (ObjectKeyFromObject obj) \<noteq> None \<and>
                 view w' = (view w)(ObjectKeyFromObject obj := None)
             | (Inl e, w') \<Rightarrow> view w' = view w \<and> (IsNotFound e \<longleftrightarrow> view w (ObjectKeyFromObject obj) = None)))"

lemma store_Get:
  "store_api A view same \<Longrightarrow>
   (case view w k of
      Some obj \<Rightarrow> ObjectKeyFromObject obj = k \<and> api_Get A k w = (Inr obj, w)
    | None \<Rightarrow> \<exists>e. IsNotFound e \<and> api_Get A k w = (Inl e, w))"
  unfolding store_api_def by blast

lemma store_Get_Some:
  "store_api A view same \<Longrightarrow> view w k = Some obj \<Longrightarrow>
   ObjectKeyFromObject obj = k \<and> api_Get A k w = (Inr obj, w)"
  using store_Get[where A = A and view = view and same = same and w = w and k = k] by simp

lemma store_Get_None:
  "store_api A view same \<Longrightarrow> view w k = None \<Longrightarrow> \<exists>e. IsNotFound e \<and> api_Get A k w = (Inl e, w)"
  using store_Get[where A = A and view = view and same = same and w = w and k = k] by simp

lemma store_Create:
  "store_api A view same \<Longrightarrow> api_Create A obj w = (Inr u, w') \<Longrightarrow>
   \<exists>obj'. same obj' obj \<and> view w' = (view w)(ObjectKeyFromObject obj \<mapsto> obj')"
  unfolding store_api_def by (elim conjE allE[where x = w] allE[where x = obj]) simp

lemma store_Update:
  "store_api A view same \<Longrightarrow> api_Update A obj w = (Inr obj', w') \<Longrightarrow>
   same obj' obj \<and> view w' = (view w)(ObjectKeyFromObject obj \<mapsto> obj')"
  unfolding store_api_def by (elim conjE allE[where x = w] allE[where x = obj]) simp

lemma store_Delete:
  "store_api A view same \<Longrightarrow> api_Delete A obj w = (Inr u, w') \<Longrightarrow>
   view w (ObjectKeyFromObject obj) \<noteq> None \<and> view w' = (view w)(ObjectKeyFromObject obj := None)"
  unfolding store_api_def by (elim conjE allE[where x = w] allE[where x = obj]) simp

lemma store_failure:
  assumes "store_api A view same"
  shows "api_Create A obj w = (Inl e, w') \<Longrightarrow> view w' = view w"
    and "api_Update A obj w = (Inl e, w') \<Longrightarrow> view w' = view w"
    and "api_Delete A obj w = (Inl e, w') \<Longrightarrow> view w' = view w"
    and "api_Update A obj w = (Inl e, w') \<Longrightarrow> IsNotFound e \<Longrightarrow> view w (ObjectKeyFromObject obj) = None"
    and "api_Delete A obj w = (Inl e, w') \<Longrightarrow> IsNotFound e \<longleftrightarrow> view w (ObjectKeyFromObject obj) = None"
    and "api_Create A obj w = (Inl e, w') \<Longrightarrow> IsAlreadyExists e \<Longrightarrow> view w (ObjectKeyFromObject obj) \<noteq> None"
    and "api_Update A obj w = (Inl e, w') \<Longrightarrow> \<not> IsAlreadyExists e"
  using assms unfolding store_api_def
  by (elim conjE allE[where x = w] allE[where x = obj], simp)+

text \<open>
  A store kept as a list of objects in a field of the world, the instance on which witnesses
  evaluate. \<open>get\<close> and \<open>put\<close> read and write the field.
\<close>

definition list_view :: "('w \<Rightarrow> 'a k8s_object_scheme list) \<Rightarrow> 'w \<Rightarrow> object_key \<rightharpoonup> 'a k8s_object_scheme" where
  "list_view get w k = find (\<lambda>obj. ObjectKeyFromObject obj = k) (get w)"

definition list_store :: "'a k8s_object_scheme \<Rightarrow> 'a k8s_object_scheme list \<Rightarrow> 'a k8s_object_scheme list" where
  "list_store obj objs = obj # filter (\<lambda>x. ObjectKeyFromObject x \<noteq> ObjectKeyFromObject obj) objs"

definition list_api :: "('w \<Rightarrow> 'a k8s_object_scheme list) \<Rightarrow> ('a k8s_object_scheme list \<Rightarrow> 'w \<Rightarrow> 'w) \<Rightarrow>
    ('w, 'a k8s_object_scheme) resource_api" where
  "list_api get put =
     \<lparr>api_Get = (\<lambda>k w. case list_view get w k of
        None \<Rightarrow> (Inl (APIError NotFound ''not found''), w) | Some obj \<Rightarrow> (Inr obj, w)),
      api_Create = (\<lambda>obj w. case list_view get w (ObjectKeyFromObject obj) of
        None \<Rightarrow> (Inr (), put (list_store obj (get w)) w)
      | Some _ \<Rightarrow> (Inl (APIError AlreadyExists ''already exists''), w)),
      api_Update = (\<lambda>obj w. case list_view get w (ObjectKeyFromObject obj) of
        None \<Rightarrow> (Inl (APIError NotFound ''not found''), w)
      | Some _ \<Rightarrow> (Inr obj, put (list_store obj (get w)) w)),
      api_Delete = (\<lambda>obj w. case list_view get w (ObjectKeyFromObject obj) of
        None \<Rightarrow> (Inl (APIError NotFound ''not found''), w)
      | Some _ \<Rightarrow> (Inr (), put (filter (\<lambda>x. ObjectKeyFromObject x \<noteq> ObjectKeyFromObject obj) (get w)) w)),
      api_StatusUpdate = (\<lambda>obj w. case list_view get w (ObjectKeyFromObject obj) of
        None \<Rightarrow> (Inl (APIError NotFound ''not found''), w)
      | Some _ \<Rightarrow> (Inr (), put (list_store obj (get w)) w))\<rparr>"

lemma find_filter_key:
  "find (\<lambda>x. f x = k) (filter (\<lambda>x. f x \<noteq> k') xs) = (if k = k' then None else find (\<lambda>x. f x = k) xs)"
  by (induction xs) auto

lemma list_view_store:
  assumes "\<And>xs w. get (put xs w) = xs"
  shows "list_view get (put (list_store obj (get w)) w) = (list_view get w)(ObjectKeyFromObject obj \<mapsto> obj)"
    and "list_view get (put (filter (\<lambda>x. ObjectKeyFromObject x \<noteq> ObjectKeyFromObject obj) (get w)) w)
      = (list_view get w)(ObjectKeyFromObject obj := None)"
  by (auto simp: fun_eq_iff list_view_def list_store_def assms find_filter_key)

lemma list_api_store:
  assumes "\<And>xs w. get (put xs w) = xs" and "\<And>x. same x x"
  shows "store_api (list_api get put) (list_view get) same"
proof -
  have "list_view get w k = Some obj \<Longrightarrow> ObjectKeyFromObject obj = k" for w k obj
    by (simp add: list_view_def) (metis (mono_tags, lifting) find_Some_iff)
  then show ?thesis
    using assms(2)
    by (auto simp: store_api_def list_api_def list_view_store[where get = get and put = put, OF assms(1)]
        split: option.splits) (use assms(2) in blast)
qed

lemma not_found_not_panic [simp]: "IsNotFound e \<Longrightarrow> \<not> is_panic e"
  by (cases e) auto

section \<open>ReconcileResource reaches the desired state\<close>

text \<open>A mutator changes the content of the existing object, never its name.\<close>

definition keeps_key ::
    "('a k8s_object_scheme \<Rightarrow> 'a k8s_object_scheme \<Rightarrow> go_error + (bool \<times> 'a k8s_object_scheme)) \<Rightarrow> bool" where
  "keeps_key f \<longleftrightarrow> (\<forall>o1 d upd o2. f o1 d = Inr (upd, o2) \<longrightarrow> ObjectKeyFromObject o2 = ObjectKeyFromObject o1)"

lemma keeps_keyD: "keeps_key f \<Longrightarrow> f o1 d = Inr (upd, o2) \<Longrightarrow> ObjectKeyFromObject o2 = ObjectKeyFromObject o1"
  unfolding keeps_key_def by blast

lemma keeps_key_CreateOnly: "keeps_key CreateOnlyMutator"
  by (simp add: keeps_key_def CreateOnlyMutator_def)

lemma ReconcileResource_present:
  assumes "api_Get A (ObjectKeyFromObject desired) w = (Inr obj, w)"
  shows "ReconcileResource A desired f w =
     (if IsObjectTaggedToDelete desired then api_Delete A desired w
      else case f obj desired of
        Inl e \<Rightarrow> (Inl e, w)
      | Inr (update, obj') \<Rightarrow>
          if update then (case api_Update A obj' w of (Inl e, w') \<Rightarrow> (Inl e, w') | (Inr _, w') \<Rightarrow> (Inr (), w'))
          else (Inr (), w))"
  using assms
  by (auto simp: ReconcileResource_def Let_def DeleteResource_def UpdateResource_def bindE_def
      attempt_def split: sum.splits prod.splits)

lemma ReconcileResource_absent:
  assumes "api_Get A (ObjectKeyFromObject desired) w = (Inl e, w')" "IsNotFound e"
  shows "ReconcileResource A desired f w =
     (if IsObjectTaggedToDelete desired then (Inr (), w') else api_Create A desired w')"
  using assms
  by (simp add: ReconcileResource_def Let_def CreateResource_def attempt_def bindE_def)

lemma ReconcileResource_get_error:
  assumes "api_Get A (ObjectKeyFromObject desired) w = (Inl e, w')" "\<not> IsNotFound e"
  shows "ReconcileResource A desired f w = (Inl e, w')"
  using assms by (simp add: ReconcileResource_def Let_def attempt_def bindE_def)

text \<open>Nobody else writing, a reconciliation never meets an object that already exists.\<close>

lemma ReconcileResource_not_exists:
  assumes "store_api A view same" "\<And>o1 d. \<exists>r. f o1 d = Inr r" "\<not> IsObjectTaggedToDelete desired"
    and "ReconcileResource A desired f w = (Inl e, w')"
  shows "\<not> IsAlreadyExists e"
proof (cases "view w (ObjectKeyFromObject desired)")
  case None
  then obtain e0 where "api_Get A (ObjectKeyFromObject desired) w = (Inl e0, w)" "IsNotFound e0"
    using store_Get_None[OF assms(1)] by blast
  with assms(3,4) have "api_Create A desired w = (Inl e, w')" by (simp add: ReconcileResource_absent)
  with None store_failure(6)[OF assms(1)] show ?thesis by blast
next
  case (Some obj)
  then have get: "api_Get A (ObjectKeyFromObject desired) w = (Inr obj, w)"
    using store_Get_Some[OF assms(1)] by blast
  obtain upd new where "f obj desired = Inr (upd, new)" using assms(2)[of obj desired] by auto
  with assms(3,4) have "api_Update A new w = (Inl e, w')"
    by (auto simp: ReconcileResource_present[OF get] split: if_splits prod.splits sum.splits)
  from store_failure(7)[OF assms(1) this] show ?thesis .
qed

lemma ReconcileResource_run:
  assumes "store_api A view same"
    and "keeps_key f"
    and "ReconcileResource A desired f w = (Inr u, w')"
  shows "let key = ObjectKeyFromObject desired in
    (\<forall>k. k \<noteq> key \<longrightarrow> view w' k = view w k) \<and>
    (if IsObjectTaggedToDelete desired then view w' key = None
     else \<exists>obj'. view w' key = Some obj' \<and>
       (case view w key of
          None \<Rightarrow> same obj' desired
        | Some obj \<Rightarrow> \<exists>update new. f obj desired = Inr (update, new) \<and>
            (if update then same obj' new else obj' = obj)))"
proof (cases "view w (ObjectKeyFromObject desired)")
  case None
  then obtain e where "IsNotFound e" "api_Get A (ObjectKeyFromObject desired) w = (Inl e, w)"
    using store_Get_None[OF assms(1)] by blast
  with assms(3) None show ?thesis
    using store_Create[OF assms(1), of desired w u w']
    by (auto simp: ReconcileResource_absent Let_def split: if_splits)
next
  case (Some obj)
  then have key: "ObjectKeyFromObject obj = ObjectKeyFromObject desired"
    and get: "api_Get A (ObjectKeyFromObject desired) w = (Inr obj, w)"
    using store_Get_Some[OF assms(1)] by blast+
  show ?thesis
  proof (cases "IsObjectTaggedToDelete desired")
    case True
    with assms(3) show ?thesis
      using store_Delete[OF assms(1), of desired w u w']
      by (simp add: ReconcileResource_present[OF get] Let_def)
  next
    case False
    with assms(3) obtain update new where f: "f obj desired = Inr (update, new)"
      by (auto simp: ReconcileResource_present[OF get] split: sum.splits)
    show ?thesis
    proof (cases update)
      case True
      with assms(3) False f obtain obj' where "api_Update A new w = (Inr obj', w')"
        by (auto simp: ReconcileResource_present[OF get] split: sum.splits prod.splits)
      with store_Update[OF assms(1)] keeps_keyD[OF assms(2) f] key False f True show ?thesis
        by (fastforce simp: Let_def Some)
    next
      case upd: False
      with assms(3) False f Some show ?thesis
        by (auto simp: ReconcileResource_present[OF get] Let_def)
    qed
  qed
qed

text \<open>
  C27: When ReconcileResource succeeds against a store of objects, the store is as desired: an
  object tagged for deletion is gone; otherwise the object is there, with the content of the
  desired object when it was created, with the content the mutator made when it asked for an
  update, and untouched when it did not. No other object has changed.
\<close>

theorem ReconcileResource_correct:
  assumes "store_api A view same"
    and "keeps_key f"
    and "ReconcileResource A desired f w = (Inr u, w')"
  shows "let key = ObjectKeyFromObject desired in
    (\<forall>k. k \<noteq> key \<longrightarrow> view w' k = view w k) \<and>
    (if IsObjectTaggedToDelete desired then view w' key = None
     else \<exists>obj'. view w' key = Some obj' \<and>
       (case view w key of
          None \<Rightarrow> same obj' desired
        | Some obj \<Rightarrow> \<exists>update new. f obj desired = Inr (update, new) \<and>
            (if update then same obj' new else obj' = obj)))"
  by (rule ReconcileResource_run[OF assms])

text \<open>What ReconcileResource may write: the one kind of object it is given.\<close>

lemma preserves_ReconcileResource [pres]:
  assumes "\<And>k. preserves P (api_Get A k)" "\<And>x. preserves P (api_Create A x)"
    "\<And>x. preserves P (api_Update A x)" "\<And>x. preserves P (api_Delete A x)"
  shows "preserves P (ReconcileResource A desired f)"
  unfolding ReconcileResource_def Let_def CreateResource_def UpdateResource_def DeleteResource_def
  by (intro pres assms)

theorem ReconcileResource_correct_witness:
  "list_view id [TagObjectToDelete example_gateway] (ObjectKey ''istio'' ''gw'') \<noteq> None \<and>
   list_view id (snd (ReconcileResource (list_api id (\<lambda>xs _. xs)) (TagObjectToDelete example_gateway)
     CreateOnlyMutator [example_gateway])) (ObjectKey ''istio'' ''gw'') = None"
proof -
  let ?A = "list_api id (\<lambda>xs _. xs) :: (gateway list, gateway) resource_api"
  have key: "ObjectKeyFromObject example_gateway = ObjectKey ''istio'' ''gw''"
    by (simp add: ObjectKeyFromObject_def example_gateway_def new_object_def k8s_object.defs)
  have store: "store_api ?A (list_view id) (=)" by (rule list_api_store) simp_all
  have run: "ReconcileResource ?A (TagObjectToDelete example_gateway) CreateOnlyMutator [example_gateway]
      = (Inr (), [])"
    by (simp add: ReconcileResource_present[where obj = example_gateway] list_api_def list_view_def key)
  from ReconcileResource_correct[OF store keeps_key_CreateOnly run] show ?thesis
    by (simp add: run key list_view_def)
qed

end
