(* ===== verification/Cluster.thy ===== *)
theory Cluster
  imports Client
begin

text \<open>
  What the theorems about whole reconcilers rely on: \<open>cluster_api c V\<close> states, for every kind of
  object, the contract \<open>store_api\<close> of the API server and that its operations write no other kind.
  \<open>V\<close> reads the state of the cluster, a \<open>snapshot\<close>, in a world. \<open>cluster_env\<close> is a concrete
  cluster (lists of objects) that satisfies it, on which the witnesses evaluate.
\<close>

section \<open>The contract of the cluster\<close>

text \<open>Equal up to the generation, which the server sets.\<close>

definition content_eq :: "'a k8s_object_scheme \<Rightarrow> 'a k8s_object_scheme \<Rightarrow> bool" where
  "content_eq a b \<longleftrightarrow> a\<lparr>obj_Generation := obj_Generation b\<rparr> = b"

record snapshot =
  sn_RLPs :: "object_key \<rightharpoonup> RateLimitPolicy"
  sn_APs :: "object_key \<rightharpoonup> AuthPolicy"
  sn_Gateways :: "object_key \<rightharpoonup> gateway"
  sn_HTTPRoutes :: "object_key \<rightharpoonup> http_route"
  sn_Limitadors :: "object_key \<rightharpoonup> limitador"
  sn_WasmPlugins :: "object_key \<rightharpoonup> wasm_plugin_object"
  sn_EnvoyFilters :: "object_key \<rightharpoonup> envoy_filter"
  sn_AuthorizationPolicies :: "object_key \<rightharpoonup> authorization_policy"
  sn_AuthConfigs :: "object_key \<rightharpoonup> auth_config"

text \<open>
  The operations of one kind: \<open>get\<close> is its part of the snapshot, \<open>forget\<close> drops that part, so
  that equal after \<open>forget\<close> means nothing else was written.
\<close>

definition frame :: "('w \<Rightarrow> 's) \<Rightarrow> ('w, 'o) resource_api \<Rightarrow> bool" where
  "frame F A \<longleftrightarrow>
     (\<forall>w k. F (snd (api_Get A k w)) = F w) \<and>
     (\<forall>w x. F (snd (api_Create A x w)) = F w \<and> F (snd (api_Update A x w)) = F w \<and>
            F (snd (api_Delete A x w)) = F w \<and> F (snd (api_StatusUpdate A x w)) = F w)"

definition kind_api ::
    "('w \<Rightarrow> snapshot) \<Rightarrow> (snapshot \<Rightarrow> object_key \<rightharpoonup> 'a k8s_object_scheme) \<Rightarrow> (snapshot \<Rightarrow> snapshot) \<Rightarrow>
     ('w, 'a k8s_object_scheme) resource_api \<Rightarrow> bool" where
  "kind_api V get forget A \<longleftrightarrow> store_api A (get \<circ> V) content_eq \<and> frame (forget \<circ> V) A"

definition lists_gateways :: "'w env \<Rightarrow> ('w \<Rightarrow> snapshot) \<Rightarrow> bool" where
  "lists_gateways c V \<longleftrightarrow>
     (\<forall>w. case cl_ListGateways c w of
        (Inr gws, w') \<Rightarrow> w' = w \<and> distinct (map ObjectKeyFromObject gws) \<and>
          (\<forall>k. sn_Gateways (V w) k = find (\<lambda>g. ObjectKeyFromObject g = k) gws)
      | (Inl e, w') \<Rightarrow> w' = w)"

definition cluster_api :: "'w env \<Rightarrow> ('w \<Rightarrow> snapshot) \<Rightarrow> bool" where
  "cluster_api c V \<longleftrightarrow>
     kind_api V sn_RLPs (sn_RLPs_update (\<lambda>_. Map.empty)) (cl_RLPs c) \<and>
     kind_api V sn_APs (sn_APs_update (\<lambda>_. Map.empty)) (cl_APs c) \<and>
     kind_api V sn_Gateways (sn_Gateways_update (\<lambda>_. Map.empty)) (cl_Gateways c) \<and>
     kind_api V sn_HTTPRoutes (sn_HTTPRoutes_update (\<lambda>_. Map.empty)) (cl_HTTPRoutes c) \<and>
     kind_api V sn_Limitadors (sn_Limitadors_update (\<lambda>_. Map.empty)) (cl_Limitadors c) \<and>
     kind_api V sn_WasmPlugins (sn_WasmPlugins_update (\<lambda>_. Map.empty)) (cl_WasmPlugins c) \<and>
     kind_api V sn_EnvoyFilters (sn_EnvoyFilters_update (\<lambda>_. Map.empty)) (cl_EnvoyFilters c) \<and>
     kind_api V sn_AuthorizationPolicies (sn_AuthorizationPolicies_update (\<lambda>_. Map.empty))
       (cl_AuthorizationPolicies c) \<and>
     kind_api V sn_AuthConfigs (sn_AuthConfigs_update (\<lambda>_. Map.empty)) (cl_AuthConfigs c) \<and>
     lists_gateways c V"

lemma content_eq_refl [simp]: "content_eq a a"
  by (simp add: content_eq_def)

lemma content_eq_sel:
  assumes "content_eq a b"
  shows "obj_Annotations a = obj_Annotations b" "ObjectKeyFromObject a = ObjectKeyFromObject b"
    "k8s_object.more a = k8s_object.more b"
  using assms by (cases a; cases b; simp add: content_eq_def ObjectKeyFromObject_def)+

lemma cluster_store:
  assumes "cluster_api c V"
  shows "store_api (cl_RLPs c) (sn_RLPs \<circ> V) content_eq"
    and "store_api (cl_APs c) (sn_APs \<circ> V) content_eq"
    and "store_api (cl_Gateways c) (sn_Gateways \<circ> V) content_eq"
    and "store_api (cl_HTTPRoutes c) (sn_HTTPRoutes \<circ> V) content_eq"
    and "store_api (cl_Limitadors c) (sn_Limitadors \<circ> V) content_eq"
    and "store_api (cl_WasmPlugins c) (sn_WasmPlugins \<circ> V) content_eq"
    and "store_api (cl_EnvoyFilters c) (sn_EnvoyFilters \<circ> V) content_eq"
    and "store_api (cl_AuthorizationPolicies c) (sn_AuthorizationPolicies \<circ> V) content_eq"
    and "store_api (cl_AuthConfigs c) (sn_AuthConfigs \<circ> V) content_eq"
  using assms by (simp_all add: cluster_api_def kind_api_def)

text \<open>Reading an object does not change the world; what is read is what the snapshot has.\<close>

lemma store_Get_cases:
  assumes "store_api A view same"
  obtains (found) obj where "view w k = Some obj" "ObjectKeyFromObject obj = k"
      "api_Get A k w = (Inr obj, w)"
    | (missing) e where "view w k = None" "IsNotFound e" "api_Get A k w = (Inl e, w)"
  using store_Get_Some[OF assms, of w k] store_Get_None[OF assms, of w k]
  by (cases "view w k") auto

lemma store_Get_pure: "store_api A view same \<Longrightarrow> snd (api_Get A k w) = w"
  by (erule store_Get_cases[where w = w and k = k]) simp_all

lemma store_Get_Inr:
  "store_api A view same \<Longrightarrow> api_Get A k w = (Inr obj, w') \<longleftrightarrow> view w k = Some obj \<and> w' = w"
  by (erule store_Get_cases[where w = w and k = k]) auto

lemma store_Get_Inl:
  "store_api A view same \<Longrightarrow> api_Get A k w = (Inl e, w') \<Longrightarrow> view w k = None \<and> w' = w \<and> IsNotFound e"
  by (erule store_Get_cases[where w = w and k = k]) auto

text \<open>A failed write changes nothing.\<close>

lemma snapshot_eqI:
  "s\<lparr>sn_RLPs := Map.empty\<rparr> = t\<lparr>sn_RLPs := Map.empty\<rparr> \<Longrightarrow> sn_RLPs s = sn_RLPs t \<Longrightarrow> s = t"
  "s\<lparr>sn_APs := Map.empty\<rparr> = t\<lparr>sn_APs := Map.empty\<rparr> \<Longrightarrow> sn_APs s = sn_APs t \<Longrightarrow> s = t"
  "s\<lparr>sn_Gateways := Map.empty\<rparr> = t\<lparr>sn_Gateways := Map.empty\<rparr> \<Longrightarrow> sn_Gateways s = sn_Gateways t \<Longrightarrow> s = t"
  "s\<lparr>sn_HTTPRoutes := Map.empty\<rparr> = t\<lparr>sn_HTTPRoutes := Map.empty\<rparr> \<Longrightarrow>
     sn_HTTPRoutes s = sn_HTTPRoutes t \<Longrightarrow> s = t"
  "s\<lparr>sn_Limitadors := Map.empty\<rparr> = t\<lparr>sn_Limitadors := Map.empty\<rparr> \<Longrightarrow>
     sn_Limitadors s = sn_Limitadors t \<Longrightarrow> s = t"
  by (cases s; cases t; simp)+

lemma kind_failure:
  assumes "kind_api V get forget A" "api_Update A obj w = (Inl e, w')"
  shows "forget (V w') = forget (V w)" "get (V w') = get (V w)"
proof -
  from assms(1) have "frame (forget \<circ> V) A" "store_api A (get \<circ> V) content_eq"
    by (simp_all add: kind_api_def)
  then show "forget (V w') = forget (V w)" "get (V w') = get (V w)"
    using assms(2) store_failure(2)[of A "get \<circ> V" content_eq obj w e w']
    unfolding frame_def by (metis comp_apply snd_conv, simp)
qed

lemma kind_update:
  assumes "kind_api V get forget A" "api_Update A obj w = (Inr obj', w')"
  shows "content_eq obj' obj" "get (V w') = (get (V w))(ObjectKeyFromObject obj \<mapsto> obj')"
    "forget (V w') = forget (V w)"
proof -
  from assms(1) have f: "frame (forget \<circ> V) A" and s: "store_api A (get \<circ> V) content_eq"
    by (simp_all add: kind_api_def)
  from store_Update[OF s assms(2)] show "content_eq obj' obj"
      "get (V w') = (get (V w))(ObjectKeyFromObject obj \<mapsto> obj')"
    by simp_all
  from f assms(2) show "forget (V w') = forget (V w)"
    unfolding frame_def by (metis comp_apply snd_conv)
qed

text \<open>What an operation leaves alone, as a preserved predicate.\<close>

lemma frame_preserves:
  assumes "frame F A" "\<And>w w'. F w' = F w \<Longrightarrow> P w \<Longrightarrow> P w'"
  shows "preserves P (api_Get A k)" "preserves P (api_Create A x)" "preserves P (api_Update A x)"
    "preserves P (api_Delete A x)" "preserves P (api_StatusUpdate A x)"
  using assms by (auto simp: preserves_def frame_def)

lemma frame_ReconcileResource:
  assumes "frame F A"
  shows "F (snd (ReconcileResource A desired f w)) = F w"
proof -
  have "preserves (\<lambda>w'. F w' = F w) (ReconcileResource A desired f)"
    by (intro preserves_ReconcileResource frame_preserves[OF assms]) simp_all
  then show ?thesis by (simp add: preserves_def)
qed

lemma kind_reconcile:
  assumes "kind_api V get forget A"
    and "keeps_key f"
    and "ReconcileResource A desired f w = (Inr u, w')"
  shows "forget (V w') = forget (V w)"
    and "k \<noteq> ObjectKeyFromObject desired \<Longrightarrow> get (V w') k = get (V w) k"
    and "if IsObjectTaggedToDelete desired then get (V w') (ObjectKeyFromObject desired) = None
      else \<exists>obj'. get (V w') (ObjectKeyFromObject desired) = Some obj' \<and>
       (case get (V w) (ObjectKeyFromObject desired) of
          None \<Rightarrow> content_eq obj' desired
        | Some obj \<Rightarrow> \<exists>update new. f obj desired = Inr (update, new) \<and>
            (if update then content_eq obj' new else obj' = obj))"
proof -
  from assms(1) have s: "store_api A (get \<circ> V) content_eq" and f: "frame (forget \<circ> V) A"
    by (simp_all add: kind_api_def)
  show "forget (V w') = forget (V w)"
    using frame_ReconcileResource[OF f, of desired f w] assms(3) by simp
  from ReconcileResource_run[OF s assms(2,3), unfolded Let_def comp_apply] show "k \<noteq> ObjectKeyFromObject desired \<Longrightarrow> get (V w') k = get (V w) k"
    "if IsObjectTaggedToDelete desired then get (V w') (ObjectKeyFromObject desired) = None
      else \<exists>obj'. get (V w') (ObjectKeyFromObject desired) = Some obj' \<and>
       (case get (V w) (ObjectKeyFromObject desired) of
          None \<Rightarrow> content_eq obj' desired
        | Some obj \<Rightarrow> \<exists>update new. f obj desired = Inr (update, new) \<and>
            (if update then content_eq obj' new else obj' = obj))"
    by blast+
qed

section \<open>A concrete cluster\<close>

record cluster =
  cs_RLPs :: "RateLimitPolicy list"
  cs_APs :: "AuthPolicy list"
  cs_Gateways :: "gateway list"
  cs_HTTPRoutes :: "http_route list"
  cs_Limitadors :: "limitador list"
  cs_WasmPlugins :: "wasm_plugin_object list"
  cs_EnvoyFilters :: "envoy_filter list"
  cs_AuthorizationPolicies :: "authorization_policy list"
  cs_AuthConfigs :: "auth_config list"

definition empty_cluster :: cluster where
  "empty_cluster = \<lparr>cs_RLPs = [], cs_APs = [], cs_Gateways = [], cs_HTTPRoutes = [], cs_Limitadors = [],
     cs_WasmPlugins = [], cs_EnvoyFilters = [], cs_AuthorizationPolicies = [], cs_AuthConfigs = []\<rparr>"

text \<open>The objects of a list a Get finds, each once.\<close>

fun list_objects :: "'a k8s_object_scheme list \<Rightarrow> 'a k8s_object_scheme list" where
  "list_objects [] = []"
| "list_objects (x # xs) = x # filter (\<lambda>y. ObjectKeyFromObject y \<noteq> ObjectKeyFromObject x) (list_objects xs)"

lemma list_objects_distinct: "distinct (map ObjectKeyFromObject (list_objects xs))"
  by (induction xs) (auto simp: distinct_map_filter)

lemma find_list_objects:
  "find (\<lambda>obj. ObjectKeyFromObject obj = k) (list_objects xs) = find (\<lambda>obj. ObjectKeyFromObject obj = k) xs"
  by (induction xs) (auto simp: find_filter_key)

text \<open>meta.SetStatusCondition, on conditions whose transition time is the given one.\<close>

fun set_condition :: "string \<Rightarrow> condition list \<Rightarrow> condition \<Rightarrow> condition list" where
  "set_condition now [] new = [new\<lparr>cond_LastTransitionTime := now\<rparr>]"
| "set_condition now (old # conds) new =
     (if cond_Type old = cond_Type new then
        new\<lparr>cond_LastTransitionTime :=
          if cond_Status old = cond_Status new then cond_LastTransitionTime old else now\<rparr> # conds
      else old # set_condition now conds new)"

definition cluster_env :: "cluster env" where
  "cluster_env =
     \<lparr>cl_RLPs = list_api cs_RLPs (\<lambda>xs. cs_RLPs_update (\<lambda>_. xs)),
      cl_APs = list_api cs_APs (\<lambda>xs. cs_APs_update (\<lambda>_. xs)),
      cl_Gateways = list_api cs_Gateways (\<lambda>xs. cs_Gateways_update (\<lambda>_. xs)),
      cl_HTTPRoutes = list_api cs_HTTPRoutes (\<lambda>xs. cs_HTTPRoutes_update (\<lambda>_. xs)),
      cl_Limitadors = list_api cs_Limitadors (\<lambda>xs. cs_Limitadors_update (\<lambda>_. xs)),
      cl_WasmPlugins = list_api cs_WasmPlugins (\<lambda>xs. cs_WasmPlugins_update (\<lambda>_. xs)),
      cl_EnvoyFilters = list_api cs_EnvoyFilters (\<lambda>xs. cs_EnvoyFilters_update (\<lambda>_. xs)),
      cl_AuthorizationPolicies =
        list_api cs_AuthorizationPolicies (\<lambda>xs. cs_AuthorizationPolicies_update (\<lambda>_. xs)),
      cl_AuthConfigs = list_api cs_AuthConfigs (\<lambda>xs. cs_AuthConfigs_update (\<lambda>_. xs)),
      cl_ListGateways = (\<lambda>w. (Inr (list_objects (cs_Gateways w)), w)),
      lib_IsStatusConditionFalse =
        (\<lambda>conds t. list_ex (\<lambda>x. cond_Type x = t \<and> cond_Status x = ''False'') (elems conds)),
      lib_SetStatusCondition = (\<lambda>w conds x. Some (set_condition ''now'' (elems conds) x)),
      lib_ContainsFinalizer = (\<lambda>fs f. f \<in> set fs),
      lib_AddFinalizer = (\<lambda>fs f. if f \<in> set fs then fs else fs @ [f]),
      lib_RemoveFinalizer = (\<lambda>fs f. removeAll f fs),
      lib_LimitadorReady = (\<lambda>st. list_ex (\<lambda>x. cond_Type x = ''Ready'' \<and> cond_Status x = ''True'')
        (elems (ls_Conditions st))),
      lib_AuthConfigReady = (\<lambda>st. st = JBool True),
      lib_Json = reference_json,
      lib_Wasm = example_wasm_codec,
      lib_PatchUnmarshal = (\<lambda>v. Inr \<lparr>ep_Operation = ''ADD'', ep_Value = v\<rparr>),
      lib_KindText = (\<lambda>g k. g @ '', Kind='' @ k),
      lib_TargetRefText = tr_Name,
      rt_Range = (\<lambda>_. \<lparr>ro_keys = id, ro_domains = (\<lambda>_. id)\<rparr>),
      os_Env = Map.empty\<rparr>"

definition cluster_view :: "cluster \<Rightarrow> snapshot" where
  "cluster_view w =
     \<lparr>sn_RLPs = list_view cs_RLPs w, sn_APs = list_view cs_APs w,
      sn_Gateways = list_view cs_Gateways w, sn_HTTPRoutes = list_view cs_HTTPRoutes w,
      sn_Limitadors = list_view cs_Limitadors w, sn_WasmPlugins = list_view cs_WasmPlugins w,
      sn_EnvoyFilters = list_view cs_EnvoyFilters w,
      sn_AuthorizationPolicies = list_view cs_AuthorizationPolicies w,
      sn_AuthConfigs = list_view cs_AuthConfigs w\<rparr>"

lemma list_api_frame: "(\<And>xs w. F (put xs w) = F w) \<Longrightarrow> frame F (list_api get put)"
  by (simp add: frame_def list_api_def split: option.splits)

lemma cluster_view_comp [simp]:
  "sn_RLPs \<circ> cluster_view = list_view cs_RLPs" "sn_APs \<circ> cluster_view = list_view cs_APs"
  "sn_Gateways \<circ> cluster_view = list_view cs_Gateways"
  "sn_HTTPRoutes \<circ> cluster_view = list_view cs_HTTPRoutes"
  "sn_Limitadors \<circ> cluster_view = list_view cs_Limitadors"
  "sn_WasmPlugins \<circ> cluster_view = list_view cs_WasmPlugins"
  "sn_EnvoyFilters \<circ> cluster_view = list_view cs_EnvoyFilters"
  "sn_AuthorizationPolicies \<circ> cluster_view = list_view cs_AuthorizationPolicies"
  "sn_AuthConfigs \<circ> cluster_view = list_view cs_AuthConfigs"
  by (simp_all add: fun_eq_iff cluster_view_def)

lemma list_view_eq: "list_view get w = (\<lambda>k. find (\<lambda>obj. ObjectKeyFromObject obj = k) (get w))"
  by (rule ext) (simp add: list_view_def)

lemma cluster_env_api: "cluster_api cluster_env cluster_view"
  unfolding cluster_api_def kind_api_def
  by (intro conjI)
    (simp_all add: cluster_env_def list_api_store lists_gateways_def cluster_view_def
       list_view_eq list_api_frame list_objects_distinct find_list_objects)

text \<open>
  An example: the route default/toystore attached to the gateway istio/gw, a policy with one limit
  for the route, which holds the route, one for the gateway, and a Limitador.
\<close>

definition example_route :: http_route where
  "example_route = k8s_object.extend ((new_object ''gateway.networking.k8s.io'' ''HTTPRoute'' ''default'' ''toystore'')
     \<lparr>obj_Annotations := Some [RateLimitPolicyBackRefAnnotation \<mapsto> ''default/rlp'']\<rparr>)
     \<lparr>rt_ParentRefs = [\<lparr>pr_Group = None, pr_Kind = None, pr_Namespace = Some ''istio'', pr_Name = ''gw'',
        pr_SectionName = None\<rparr>],
      rt_Hostnames = [''api.toystore.com''], rt_Rules = [], rt_Parents = []\<rparr>"

definition example_policy :: "string \<Rightarrow> string \<Rightarrow> policy_target_reference \<Rightarrow> Limit list \<Rightarrow> RateLimitPolicy" where
  "example_policy ns name tr lims = k8s_object.extend ((new_object ''apim.kuadrant.io'' ''RateLimitPolicy'' ns name)
     \<lparr>obj_Finalizers := [''ratelimitpolicy.kuadrant.io/finalizer'']\<rparr>)
     \<lparr>rlp_Spec = \<lparr>rlps_TargetRef = tr,
        rlps_RateLimits = Some [\<lparr>Configurations = None, Rules = None, Limits = Some lims\<rparr>]\<rparr>,
      rlp_Status = \<lparr>rlpst_ObservedGeneration = 0, rlpst_Conditions = None,
        rlpst_GatewaysRateLimits = None\<rparr>\<rparr>"

definition gateway_target :: policy_target_reference where
  "gateway_target = \<lparr>tr_Group = ''gateway.networking.k8s.io'', tr_Kind = ''Gateway'', tr_Name = ''gw'',
     tr_Namespace = None\<rparr>"

definition route_policy :: RateLimitPolicy where
  "route_policy = example_policy ''default'' ''rlp'' example_target [example_limit 5 None]"

definition gateway_policy :: RateLimitPolicy where
  "gateway_policy = example_policy ''istio'' ''gwrlp'' gateway_target [example_limit 100 None]"

definition example_cluster :: cluster where
  "example_cluster = empty_cluster\<lparr>cs_RLPs := [route_policy, gateway_policy],
     cs_Gateways := [example_gateway], cs_HTTPRoutes := [example_route],
     cs_Limitadors := [example_limitador]\<rparr>"

text \<open>What a concrete run unfolds: the keys of the example objects and the concrete client.\<close>

lemma example_keys [go_eval]:
  "ObjectKeyFromObject example_route = ObjectKey ''default'' ''toystore''"
  "ObjectKeyFromObject example_gateway = ObjectKey ''istio'' ''gw''"
  "ObjectKeyFromObject route_policy = ObjectKey ''default'' ''rlp''"
  "ObjectKeyFromObject gateway_policy = ObjectKey ''istio'' ''gwrlp''"
  "ObjectKeyFromObject example_limitador = ObjectKey ''kuadrant-system'' ''limitador''"
  by (simp_all add: ObjectKeyFromObject_def example_route_def example_gateway_def route_policy_def
      gateway_policy_def example_policy_def example_limitador_def new_object_def k8s_object.defs)

lemma example_annotations [go_eval]:
  "annotations_of example_route = [RateLimitPolicyBackRefAnnotation \<mapsto> ''default/rlp'']"
  "annotations_of route_policy = Map.empty"
  by (simp_all add: annotations_of_def example_route_def route_policy_def example_policy_def
      new_object_def k8s_object.defs)

lemma list_api_Get [go_eval]:
  "api_Get (list_api get put) k w = (case find (\<lambda>obj. ObjectKeyFromObject obj = k) (get w) of
     None \<Rightarrow> (Inl (APIError NotFound ''not found''), w) | Some obj \<Rightarrow> (Inr obj, w))"
  by (simp add: list_api_def list_view_def)

lemma list_api_Update [go_eval]:
  "api_Update (list_api get put) obj w = (case find (\<lambda>x. ObjectKeyFromObject x = ObjectKeyFromObject obj) (get w) of
     None \<Rightarrow> (Inl (APIError NotFound ''not found''), w) | Some _ \<Rightarrow> (Inr obj, put (list_store obj (get w)) w))"
  by (simp add: list_api_def list_view_def)

lemma list_api_Create [go_eval]:
  "api_Create (list_api get put) obj w = (case find (\<lambda>x. ObjectKeyFromObject x = ObjectKeyFromObject obj) (get w) of
     None \<Rightarrow> (Inr (), put (list_store obj (get w)) w) | Some _ \<Rightarrow> (Inl (APIError AlreadyExists ''already exists''), w))"
  by (simp add: list_api_def list_view_def)

lemma limitador_names [go_eval]:
  "LimitadorNamespace cluster_env = ''kuadrant-system''" "LimitadorName cluster_env = ''limitador''"
  by (simp_all add: LimitadorNamespace_def LimitadorName_def cluster_env_def FetchEnv_def KuadrantNamespace_def)

lemma cluster_env_sel [go_eval]:
  "cl_RLPs cluster_env = list_api cs_RLPs (\<lambda>xs. cs_RLPs_update (\<lambda>_. xs))"
  "cl_Gateways cluster_env = list_api cs_Gateways (\<lambda>xs. cs_Gateways_update (\<lambda>_. xs))"
  "cl_HTTPRoutes cluster_env = list_api cs_HTTPRoutes (\<lambda>xs. cs_HTTPRoutes_update (\<lambda>_. xs))"
  "cl_Limitadors cluster_env = list_api cs_Limitadors (\<lambda>xs. cs_Limitadors_update (\<lambda>_. xs))"
  "cl_WasmPlugins cluster_env = list_api cs_WasmPlugins (\<lambda>xs. cs_WasmPlugins_update (\<lambda>_. xs))"
  "cl_EnvoyFilters cluster_env = list_api cs_EnvoyFilters (\<lambda>xs. cs_EnvoyFilters_update (\<lambda>_. xs))"
  "lib_Wasm cluster_env = example_wasm_codec" "lib_Json cluster_env = reference_json"
  by (simp_all add: cluster_env_def)

lemma example_cluster_sel [go_eval]:
  "cs_RLPs example_cluster = [route_policy, gateway_policy]"
  "cs_Gateways example_cluster = [example_gateway]"
  "cs_HTTPRoutes example_cluster = [example_route]"
  "cs_Limitadors example_cluster = [example_limitador]"
  "cs_WasmPlugins example_cluster = []" "cs_EnvoyFilters example_cluster = []"
  by (simp_all add: example_cluster_def empty_cluster_def)

lemma example_snapshot [go_eval]:
  "sn_RLPs (cluster_view w) = list_view cs_RLPs w"
  "sn_Gateways (cluster_view w) = list_view cs_Gateways w"
  "sn_HTTPRoutes (cluster_view w) = list_view cs_HTTPRoutes w"
  "sn_Limitadors (cluster_view w) = list_view cs_Limitadors w"
  "sn_WasmPlugins (cluster_view w) = list_view cs_WasmPlugins w"
  "sn_EnvoyFilters (cluster_view w) = list_view cs_EnvoyFilters w"
  by (simp_all add: cluster_view_def)

end
