(* ===== verification/TargetRef.thy ===== *)
theory TargetRef
  imports Cluster
begin

text \<open>
  pkg/reconcilers/targetref_reconciler.go: what the policies of both kinds share. A policy names a
  route or a gateway; the reconciler fetches it when it is valid, tells the gateways and the host
  names behind it, and keeps in an annotation of the target (the back reference) the one policy
  that targets it.
\<close>

section \<open>Fetching a valid target\<close>

text \<open>\<open>client.Object\<close>, of the two types the code stores in it.\<close>

datatype target_object = TargetHTTPRoute http_route | TargetGateway gateway

definition FetchValidGateway :: "'w env \<Rightarrow> object_key \<Rightarrow> ('w, gateway) io" where
  "FetchValidGateway c key =
     bindE (api_Get (cl_Gateways c) key) (\<lambda>gw.
       if lib_IsStatusConditionFalse c (gw_Conditions gw) ''Ready''
       then throwE (Errorf ''FetchValidGateway: gateway (%v) not ready'' [key_String key])
       else retE gw)"

text \<open>The closure of the source: the status of the first parent equal to the reference.\<close>

definition routeParentStatus :: "http_route \<Rightarrow> parent_ref \<Rightarrow> route_parent_status option" where
  "routeParentStatus route pRef = find (\<lambda>p. pRef = rps_ParentRef p) (rt_Parents route)"

fun parents_accepted :: "'w env \<Rightarrow> http_route \<Rightarrow> parent_ref list \<Rightarrow> bool" where
  "parents_accepted c route [] = True"
| "parents_accepted c route (pRef # pRefs) =
     (case routeParentStatus route pRef of
        None \<Rightarrow> parents_accepted c route pRefs
      | Some st \<Rightarrow>
          if lib_IsStatusConditionFalse c (rps_Conditions st) ''Accepted'' then False
          else parents_accepted c route pRefs)"

definition FetchValidHTTPRoute :: "'w env \<Rightarrow> object_key \<Rightarrow> ('w, http_route) io" where
  "FetchValidHTTPRoute c key =
     bindE (api_Get (cl_HTTPRoutes c) key) (\<lambda>httpRoute.
       if \<not> parents_accepted c httpRoute (rt_ParentRefs httpRoute)
       then throwE (Errorf ''FetchValidHTTPRoute: httproute (%v) not accepted'' [key_String key])
       else retE httpRoute)"

definition target_key :: "policy_target_reference \<Rightarrow> string \<Rightarrow> object_key" where
  "target_key targetRef defaultNs =
     ObjectKey (case tr_Namespace targetRef of None \<Rightarrow> defaultNs | Some ns \<Rightarrow> ns) (tr_Name targetRef)"

definition FetchValidTargetRef ::
    "'w env \<Rightarrow> policy_target_reference \<Rightarrow> string \<Rightarrow> ('w, target_object) io" where
  "FetchValidTargetRef c targetRef defaultNs =
     (let objKey = target_key targetRef defaultNs in
      if IsTargetRefHTTPRoute targetRef then
        bindE (FetchValidHTTPRoute c objKey) (\<lambda>r. retE (TargetHTTPRoute r))
      else if IsTargetRefGateway targetRef then
        bindE (FetchValidGateway c objKey) (\<lambda>g. retE (TargetGateway g))
      else throwE (Errorf ''FetchValidTargetRef: targetRef (%v) to unknown network resource''
        [lib_TargetRefText c targetRef]))"

section \<open>The gateways and the host names of a target\<close>

definition parent_key :: "http_route \<Rightarrow> parent_ref \<Rightarrow> object_key" where
  "parent_key route pRef =
     ObjectKey (case pr_Namespace pRef of None \<Rightarrow> obj_Namespace route | Some ns \<Rightarrow> ns) (pr_Name pRef)"

definition TargetedGatewayKeys ::
    "'w env \<Rightarrow> policy_target_reference \<Rightarrow> string \<Rightarrow> ('w, object_key list) io" where
  "TargetedGatewayKeys c targetRef defaultNs =
     (if IsTargetRefHTTPRoute targetRef then
        bindE (FetchValidHTTPRoute c (target_key targetRef defaultNs)) (\<lambda>httpRoute.
          retE (map (parent_key httpRoute) (rt_ParentRefs httpRoute)))
      else if IsTargetRefGateway targetRef then
        retE [target_key targetRef defaultNs]
      else retE [])"

definition target_hosts :: "target_object \<Rightarrow> string list" where
  "target_hosts obj =
     (let hosts = (case obj of
        TargetHTTPRoute r \<Rightarrow> rt_Hostnames r
      | TargetGateway g \<Rightarrow> List.map_filter ln_Hostname (gw_Listeners g))
      in if length hosts = 0 then hosts @ [''*''] else hosts)"

definition TargetHostnames ::
    "'w env \<Rightarrow> policy_target_reference \<Rightarrow> string \<Rightarrow> ('w, string list) io" where
  "TargetHostnames c targetRef defaultNs =
     bindE (FetchValidTargetRef c targetRef defaultNs) (\<lambda>targetObj. retE (target_hosts targetObj))"

section \<open>The back reference\<close>

definition target_object_key :: "target_object \<Rightarrow> object_key" where
  "target_object_key obj =
     (case obj of TargetHTTPRoute r \<Rightarrow> ObjectKeyFromObject r | TargetGateway g \<Rightarrow> ObjectKeyFromObject g)"

definition target_kind_text :: "'w env \<Rightarrow> target_object \<Rightarrow> string" where
  "target_kind_text c obj =
     (case obj of
        TargetHTTPRoute r \<Rightarrow> lib_KindText c (obj_Group r) (obj_Kind r)
      | TargetGateway g \<Rightarrow> lib_KindText c (obj_Group g) (obj_Kind g))"

definition target_annotations :: "target_object \<Rightarrow> string \<rightharpoonup> string" where
  "target_annotations obj =
     (case obj of TargetHTTPRoute r \<Rightarrow> annotations_of r | TargetGateway g \<Rightarrow> annotations_of g)"

definition target_SetAnnotations :: "target_object \<Rightarrow> (string \<rightharpoonup> string) \<Rightarrow> target_object" where
  "target_SetAnnotations obj m =
     (case obj of
        TargetHTTPRoute r \<Rightarrow> TargetHTTPRoute (r\<lparr>obj_Annotations := Some m\<rparr>)
      | TargetGateway g \<Rightarrow> TargetGateway (g\<lparr>obj_Annotations := Some m\<rparr>))"

definition update_target :: "'w env \<Rightarrow> target_object \<Rightarrow> ('w, unit) io" where
  "update_target c obj =
     (case obj of
        TargetHTTPRoute r \<Rightarrow> bindE (UpdateResource (cl_HTTPRoutes c) r) (\<lambda>_. retE ())
      | TargetGateway g \<Rightarrow> bindE (UpdateResource (cl_Gateways c) g) (\<lambda>_. retE ()))"

definition ReconcileTargetBackReference ::
    "'w env \<Rightarrow> object_key \<Rightarrow> policy_target_reference \<Rightarrow> string \<Rightarrow> string \<Rightarrow> ('w, unit) io" where
  "ReconcileTargetBackReference c policyKey targetRef defaultNs annotationName =
     bindE (FetchValidTargetRef c targetRef defaultNs) (\<lambda>targetObj.
       let objAnnotations = target_annotations targetObj in
       case objAnnotations annotationName of
         Some val \<Rightarrow>
           if val \<noteq> key_String policyKey then
             throwE (Errorf ''the %s target %s is already referenced by policy %s''
               [target_kind_text c targetObj, key_String (target_object_key targetObj),
                key_String policyKey])
           else retE ()
       | None \<Rightarrow>
           update_target c (target_SetAnnotations targetObj
             (objAnnotations(annotationName \<mapsto> key_String policyKey))))"

definition DeleteTargetBackReference ::
    "'w env \<Rightarrow> object_key \<Rightarrow> policy_target_reference \<Rightarrow> string \<Rightarrow> string \<Rightarrow> ('w, unit) io" where
  "DeleteTargetBackReference c policyKey targetRef defaultNs annotationName =
     bindE (attempt (FetchValidTargetRef c targetRef defaultNs)) (\<lambda>got.
       case got of
         Inl err \<Rightarrow> if IsNotFound err then retE () else throwE err
       | Inr targetObj \<Rightarrow>
           let objAnnotations = target_annotations targetObj in
           if objAnnotations annotationName \<noteq> None then
             update_target c (target_SetAnnotations targetObj (objAnnotations(annotationName := None)))
           else retE ())"

section \<open>What fetching a target gives\<close>

text \<open>The object a reference names, and the condition under which it may be used.\<close>

definition target_at :: "snapshot \<Rightarrow> policy_target_reference \<Rightarrow> string \<Rightarrow> target_object option" where
  "target_at s targetRef ns =
     (let k = target_key targetRef ns in
      if tr_Kind targetRef = ''HTTPRoute'' then map_option TargetHTTPRoute (sn_HTTPRoutes s k)
      else if tr_Kind targetRef = ''Gateway'' then map_option TargetGateway (sn_Gateways s k)
      else None)"

definition usable_target :: "'w env \<Rightarrow> target_object \<Rightarrow> bool" where
  "usable_target c obj =
     (case obj of
        TargetHTTPRoute r \<Rightarrow> \<not> (\<exists>pRef \<in> set (rt_ParentRefs r). \<exists>st.
          routeParentStatus r pRef = Some st \<and> lib_IsStatusConditionFalse c (rps_Conditions st) ''Accepted'')
      | TargetGateway g \<Rightarrow> \<not> lib_IsStatusConditionFalse c (gw_Conditions g) ''Ready'')"

lemma parents_accepted_usable:
  "parents_accepted c r (rt_ParentRefs r) = usable_target c (TargetHTTPRoute r)"
proof -
  have "parents_accepted c r ps \<longleftrightarrow> (\<forall>p \<in> set ps. \<forall>st. routeParentStatus r p = Some st \<longrightarrow>
      \<not> lib_IsStatusConditionFalse c (rps_Conditions st) ''Accepted'')" for ps
    by (induction ps) (auto split: option.splits)
  then show ?thesis by (auto simp: usable_target_def)
qed

lemma FetchValidHTTPRoute_run:
  assumes "store_api (cl_HTTPRoutes c) view same"
  obtains (found) r where "view w k = Some r" "ObjectKeyFromObject r = k"
      "usable_target c (TargetHTTPRoute r)" "FetchValidHTTPRoute c k w = (Inr r, w)"
    | (rejected) r msg args where "view w k = Some r" "\<not> usable_target c (TargetHTTPRoute r)"
      "FetchValidHTTPRoute c k w = (Inl (Errorf msg args), w)"
    | (missing) e where "view w k = None" "IsNotFound e" "FetchValidHTTPRoute c k w = (Inl e, w)"
  by (rule store_Get_cases[OF assms, where w = w and k = k])
    (auto simp: FetchValidHTTPRoute_def parents_accepted_usable split: if_splits)

lemma FetchValidGateway_run:
  assumes "store_api (cl_Gateways c) view same"
  obtains (found) g where "view w k = Some g" "ObjectKeyFromObject g = k"
      "usable_target c (TargetGateway g)" "FetchValidGateway c k w = (Inr g, w)"
    | (rejected) g msg args where "view w k = Some g" "\<not> usable_target c (TargetGateway g)"
      "FetchValidGateway c k w = (Inl (Errorf msg args), w)"
    | (missing) e where "view w k = None" "IsNotFound e" "FetchValidGateway c k w = (Inl e, w)"
  by (rule store_Get_cases[OF assms, where w = w and k = k])
    (auto simp: FetchValidGateway_def usable_target_def split: if_splits)

lemma FetchValidTargetRef_run [consumes 1, case_names found rejected missing]:
  assumes "cluster_api c V"
  obtains (found) obj where "target_at (V w) tr ns = Some obj" "usable_target c obj"
      "target_object_key obj = target_key tr ns" "FetchValidTargetRef c tr ns w = (Inr obj, w)"
    | (rejected) msg args where "FetchValidTargetRef c tr ns w = (Inl (Errorf msg args), w)"
      "\<And>obj. target_at (V w) tr ns = Some obj \<Longrightarrow> \<not> usable_target c obj"
      "IsTargetRefHTTPRoute tr \<or> IsTargetRefGateway tr \<Longrightarrow> target_at (V w) tr ns \<noteq> None"
    | (missing) e where "target_at (V w) tr ns = None" "IsNotFound e"
      "IsTargetRefHTTPRoute tr \<or> IsTargetRefGateway tr" "FetchValidTargetRef c tr ns w = (Inl e, w)"
proof (cases "IsTargetRefHTTPRoute tr")
  case True
  then show ?thesis
    by (cases rule: FetchValidHTTPRoute_run[OF cluster_store(4)[OF assms], of w "target_key tr ns"])
      (rule found rejected missing;
       force simp: FetchValidTargetRef_def target_at_def IsTargetRefHTTPRoute_def Let_def
         target_object_key_def)+
next
  case route: False
  show ?thesis
  proof (cases "IsTargetRefGateway tr")
    case True
    then show ?thesis
      by (cases rule: FetchValidGateway_run[OF cluster_store(3)[OF assms], of w "target_key tr ns"])
        (rule found rejected missing;
         force simp: FetchValidTargetRef_def target_at_def IsTargetRefGateway_def
           IsTargetRefHTTPRoute_def Let_def target_object_key_def)+
  next
    case False
    with route show ?thesis
      by (intro rejected) (simp_all add: FetchValidTargetRef_def target_at_def
          IsTargetRefGateway_def IsTargetRefHTTPRoute_def Let_def)
  qed
qed

text \<open>
  Fetching a target never writes. It succeeds with an object exactly when the reference names
  a route or gateway that exists and is usable: no status of a current parent of the route says
  it is not accepted, the gateway is not reported as not ready. The error is a not-found error
  exactly when the reference is to a route or gateway and there is none.
\<close>

theorem FetchValidTargetRef_correct:
  assumes "cluster_api c V"
  shows "case FetchValidTargetRef c tr ns w of (r, w') \<Rightarrow>
    w' = w \<and>
    (\<forall>obj. r = Inr obj \<longleftrightarrow> target_at (V w) tr ns = Some obj \<and> usable_target c obj) \<and>
    (\<forall>e. r = Inl e \<longrightarrow> (IsNotFound e \<longleftrightarrow>
       (tr_Kind tr = ''HTTPRoute'' \<or> tr_Kind tr = ''Gateway'') \<and> target_at (V w) tr ns = None))"
  by (rule FetchValidTargetRef_run[OF assms, of w tr ns])
    (auto simp: IsTargetRefHTTPRoute_def IsTargetRefGateway_def)

text \<open>
  The host names of a target are read without writing anything and are never empty: those of
  the route, or those of the gateway's listeners, and the wildcard for all hosts when there is
  none. The gateways behind a target are, for a route, its parents in order, taken in the route's
  namespace when they name none; for a gateway, itself, without looking whether it exists.
\<close>

theorem targeted_hosts_and_gateways:
  assumes "cluster_api c V"
  shows "snd (TargetHostnames c tr ns w) = w \<and> snd (TargetedGatewayKeys c tr ns w) = w \<and>
    (\<forall>hosts. fst (TargetHostnames c tr ns w) = Inr hosts \<longleftrightarrow>
       (\<exists>obj. target_at (V w) tr ns = Some obj \<and> usable_target c obj \<and> hosts \<noteq> [] \<and>
         hosts = (case obj of
           TargetHTTPRoute r \<Rightarrow> if rt_Hostnames r = [] then [''*''] else rt_Hostnames r
         | TargetGateway g \<Rightarrow> if Hostnames (Some g) = [] then [''*''] else Hostnames (Some g)))) \<and>
    (tr_Kind tr = ''Gateway'' \<longrightarrow> fst (TargetedGatewayKeys c tr ns w) = Inr [target_key tr ns]) \<and>
    (tr_Kind tr = ''HTTPRoute'' \<longrightarrow>
       (\<forall>keys. fst (TargetedGatewayKeys c tr ns w) = Inr keys \<longleftrightarrow>
          (\<exists>r. target_at (V w) tr ns = Some (TargetHTTPRoute r) \<and> usable_target c (TargetHTTPRoute r) \<and>
            keys = map (parent_key r) (rt_ParentRefs r))))"
proof (intro conjI allI impI)
  show "snd (TargetHostnames c tr ns w) = w"
    by (rule FetchValidTargetRef_run[OF assms, of w tr ns]) (auto simp: TargetHostnames_def)
  show "snd (TargetedGatewayKeys c tr ns w) = w"
    by (cases rule: FetchValidHTTPRoute_run[OF cluster_store(4)[OF assms], of w "target_key tr ns"])
      (auto simp: TargetedGatewayKeys_def)
  show "fst (TargetedGatewayKeys c tr ns w) = Inr [target_key tr ns]" if "tr_Kind tr = ''Gateway''"
    using that by (simp add: TargetedGatewayKeys_def IsTargetRefHTTPRoute_def IsTargetRefGateway_def)
next
  fix keys assume kind: "tr_Kind tr = ''HTTPRoute''"
  show "fst (TargetedGatewayKeys c tr ns w) = Inr keys \<longleftrightarrow>
      (\<exists>r. target_at (V w) tr ns = Some (TargetHTTPRoute r) \<and> usable_target c (TargetHTTPRoute r) \<and>
        keys = map (parent_key r) (rt_ParentRefs r))"
    by (cases rule: FetchValidHTTPRoute_run[OF cluster_store(4)[OF assms], of w "target_key tr ns"])
      (auto simp: TargetedGatewayKeys_def IsTargetRefHTTPRoute_def target_at_def kind Let_def)
next
  fix hosts
  have hosts: "(case obj of
      TargetHTTPRoute r \<Rightarrow> if rt_Hostnames r = [] then [''*''] else rt_Hostnames r
    | TargetGateway g \<Rightarrow> if Hostnames (Some g) = [] then [''*''] else Hostnames (Some g)) = target_hosts obj"
    and "target_hosts obj \<noteq> []" for obj
    by (simp_all add: target_hosts_def Let_def split: target_object.splits)
  then show "fst (TargetHostnames c tr ns w) = Inr hosts \<longleftrightarrow>
       (\<exists>obj. target_at (V w) tr ns = Some obj \<and> usable_target c obj \<and> hosts \<noteq> [] \<and>
         hosts = (case obj of
           TargetHTTPRoute r \<Rightarrow> if rt_Hostnames r = [] then [''*''] else rt_Hostnames r
         | TargetGateway g \<Rightarrow> if Hostnames (Some g) = [] then [''*''] else Hostnames (Some g)))"
    unfolding hosts
    by (cases rule: FetchValidTargetRef_run[OF assms, of w tr ns]) (auto simp: TargetHostnames_def)
qed

lemma example_target_at [go_eval]:
  "target_at (cluster_view example_cluster) example_target ''default'' = Some (TargetHTTPRoute example_route)"
  "usable_target cluster_env (TargetHTTPRoute example_route)"
proof -
  show "target_at (cluster_view example_cluster) example_target ''default'' = Some (TargetHTTPRoute example_route)"
    by (simp add: target_at_def go_eval list_view_def target_key_def example_target_def)
  show "usable_target cluster_env (TargetHTTPRoute example_route)"
    by (simp add: usable_target_def routeParentStatus_def example_route_def new_object_def k8s_object.defs)
qed

theorem FetchValidTargetRef_correct_witness:
  "FetchValidTargetRef cluster_env example_target ''default'' example_cluster =
     (Inr (TargetHTTPRoute example_route), example_cluster)"
  using FetchValidTargetRef_correct[OF cluster_env_api,
      where tr = example_target and ns = "''default''" and w = example_cluster]
  by (auto simp: go_eval prod_eq_iff split: prod.splits)

theorem targeted_hosts_and_gateways_witness:
  "fst (TargetHostnames cluster_env example_target ''default'' example_cluster) = Inr [''api.toystore.com''] \<and>
   fst (TargetedGatewayKeys cluster_env example_target ''default'' example_cluster) = Inr [ObjectKey ''istio'' ''gw'']"
  using targeted_hosts_and_gateways[OF cluster_env_api,
      where tr = example_target and ns = "''default''" and w = example_cluster]
  by (simp add: go_eval) (simp add: example_route_def example_target_def parent_key_def new_object_def k8s_object.defs)

section \<open>What the back reference guarantees\<close>

text \<open>Writing the annotations of a target touches that target only.\<close>

lemma update_target_run:
  assumes "cluster_api c V" "target_at (V w) tr ns = Some obj" "target_object_key obj = target_key tr ns"
    "update_target c (target_SetAnnotations obj m) w = (r, w')"
  shows "(\<forall>e. r = Inl e \<longrightarrow> V w' = V w) \<and>
    (r = Inr () \<longrightarrow> (\<exists>obj'. target_at (V w') tr ns = Some obj' \<and> target_annotations obj' = m) \<and>
       (\<forall>tr' ns'. tr_Kind tr' \<noteq> tr_Kind tr \<or> target_key tr' ns' \<noteq> target_key tr ns \<longrightarrow>
         target_at (V w') tr' ns' = target_at (V w) tr' ns'))"
proof (cases obj)
  case (TargetHTTPRoute x)
  with assms(2) have kind: "tr_Kind tr = ''HTTPRoute''"
    by (auto simp: target_at_def Let_def split: if_splits)
  have api: "kind_api V sn_HTTPRoutes (sn_HTTPRoutes_update (\<lambda>_. Map.empty)) (cl_HTTPRoutes c)"
    using assms(1) by (simp add: cluster_api_def)
  let ?x = "x\<lparr>obj_Annotations := Some m\<rparr>"
  show ?thesis
  proof (cases "api_Update (cl_HTTPRoutes c) ?x w")
    case (Pair r1 w1)
    show ?thesis
    proof (cases r1)
      case (Inl e)
      with Pair have "V w1 = V w"
        using kind_failure[OF api, of ?x w e w1] by (blast intro: snapshot_eqI)
      with assms(4) TargetHTTPRoute Pair Inl show ?thesis
        by (auto simp: update_target_def target_SetAnnotations_def UpdateResource_def)
    next
      case (Inr y)
      with Pair have upd: "content_eq y ?x"
        "sn_HTTPRoutes (V w1) = (sn_HTTPRoutes (V w))(ObjectKeyFromObject ?x \<mapsto> y)"
        "sn_HTTPRoutes_update (\<lambda>_. Map.empty) (V w1) = sn_HTTPRoutes_update (\<lambda>_. Map.empty) (V w)"
        using kind_update[OF api, of ?x w y w1] by simp_all
      moreover have "sn_Gateways (V w1) = sn_Gateways (V w)"
        using arg_cong[OF upd(3), of sn_Gateways] by simp
      moreover have "obj_Annotations y = Some m"
        using content_eq_sel(1)[OF upd(1)] by simp
      ultimately show ?thesis
        using Pair Inr assms(3,4) TargetHTTPRoute kind
        by (auto simp: update_target_def target_SetAnnotations_def UpdateResource_def target_at_def Let_def
            target_object_key_def target_annotations_def annotations_of_def ObjectKeyFromObject_def)
    qed
  qed
next
  case (TargetGateway x)
  with assms(2) have kind: "tr_Kind tr = ''Gateway''"
    by (auto simp: target_at_def Let_def split: if_splits)
  have api: "kind_api V sn_Gateways (sn_Gateways_update (\<lambda>_. Map.empty)) (cl_Gateways c)"
    using assms(1) by (simp add: cluster_api_def)
  let ?x = "x\<lparr>obj_Annotations := Some m\<rparr>"
  show ?thesis
  proof (cases "api_Update (cl_Gateways c) ?x w")
    case (Pair r1 w1)
    show ?thesis
    proof (cases r1)
      case (Inl e)
      with Pair have "V w1 = V w"
        using kind_failure[OF api, of ?x w e w1] by (blast intro: snapshot_eqI)
      with assms(4) TargetGateway Pair Inl show ?thesis
        by (auto simp: update_target_def target_SetAnnotations_def UpdateResource_def)
    next
      case (Inr y)
      with Pair have upd: "content_eq y ?x"
        "sn_Gateways (V w1) = (sn_Gateways (V w))(ObjectKeyFromObject ?x \<mapsto> y)"
        "sn_Gateways_update (\<lambda>_. Map.empty) (V w1) = sn_Gateways_update (\<lambda>_. Map.empty) (V w)"
        using kind_update[OF api, of ?x w y w1] by simp_all
      moreover have "sn_HTTPRoutes (V w1) = sn_HTTPRoutes (V w)"
        using arg_cong[OF upd(3), of sn_HTTPRoutes] by simp
      moreover have "obj_Annotations y = Some m"
        using content_eq_sel(1)[OF upd(1)] by simp
      ultimately show ?thesis
        using Pair Inr assms(3,4) TargetGateway kind
        by (auto simp: update_target_def target_SetAnnotations_def UpdateResource_def target_at_def Let_def
            target_object_key_def target_annotations_def annotations_of_def ObjectKeyFromObject_def)
    qed
  qed
qed

text \<open>
  What claiming and releasing do to the cluster: one annotation of one route or gateway, and the
  generation the server counts.
\<close>

definition reannotated :: "string \<Rightarrow> 'a k8s_object_scheme \<Rightarrow> 'a k8s_object_scheme \<Rightarrow> bool" where
  "reannotated ann a b \<longleftrightarrow> b\<lparr>obj_Annotations := obj_Annotations a, obj_Generation := obj_Generation a\<rparr> = a \<and>
     (\<forall>k. k \<noteq> ann \<longrightarrow> annotations_of b k = annotations_of a k)"

definition retargeted :: "string \<Rightarrow> snapshot \<Rightarrow> snapshot \<Rightarrow> bool" where
  "retargeted ann s s' \<longleftrightarrow>
     s'\<lparr>sn_HTTPRoutes := Map.empty, sn_Gateways := Map.empty\<rparr> =
       s\<lparr>sn_HTTPRoutes := Map.empty, sn_Gateways := Map.empty\<rparr> \<and>
     (\<forall>k. rel_option (reannotated ann) (sn_HTTPRoutes s k) (sn_HTTPRoutes s' k)) \<and>
     (\<forall>k. rel_option (reannotated ann) (sn_Gateways s k) (sn_Gateways s' k))"

lemma reannotated_refl [simp]: "reannotated ann a a"
  by (simp add: reannotated_def)

lemma retargeted_refl [simp]: "retargeted ann s s"
  by (simp add: retargeted_def option.rel_refl)

lemma retargeted_sel:
  assumes "retargeted ann s s'"
  shows "sn_RLPs s' = sn_RLPs s" "sn_APs s' = sn_APs s" "sn_Limitadors s' = sn_Limitadors s"
    "sn_WasmPlugins s' = sn_WasmPlugins s" "sn_EnvoyFilters s' = sn_EnvoyFilters s"
    "sn_AuthorizationPolicies s' = sn_AuthorizationPolicies s" "sn_AuthConfigs s' = sn_AuthConfigs s"
  using assms by (cases s; cases s'; simp add: retargeted_def)+

lemma content_eq_reannotated:
  assumes "content_eq y (x\<lparr>obj_Annotations := Some m\<rparr>)" "\<And>k. k \<noteq> ann \<Longrightarrow> m k = annotations_of x k"
  shows "reannotated ann x y"
  using assms by (cases x; cases y) (auto simp: content_eq_def reannotated_def annotations_of_def)

lemma update_target_retargeted:
  assumes "cluster_api c V" "target_at (V w) tr ns = Some obj" "target_object_key obj = target_key tr ns"
    "update_target c (target_SetAnnotations obj m) w = (r, w')"
    "\<And>k. k \<noteq> ann \<Longrightarrow> m k = target_annotations obj k"
  shows "retargeted ann (V w) (V w')"
proof (cases obj)
  case (TargetHTTPRoute x)
  have api: "kind_api V sn_HTTPRoutes (sn_HTTPRoutes_update (\<lambda>_. Map.empty)) (cl_HTTPRoutes c)"
    using assms(1) by (simp add: cluster_api_def)
  let ?x = "x\<lparr>obj_Annotations := Some m\<rparr>"
  obtain r1 where upd: "api_Update (cl_HTTPRoutes c) ?x w = (r1, w')"
    using assms(4) TargetHTTPRoute
    by (cases "api_Update (cl_HTTPRoutes c) ?x w")
      (auto simp: update_target_def target_SetAnnotations_def UpdateResource_def bindE_def split: sum.splits)
  have x: "sn_HTTPRoutes (V w) (ObjectKeyFromObject ?x) = Some x"
    using assms(2,3) TargetHTTPRoute
    by (auto simp: target_at_def target_object_key_def ObjectKeyFromObject_def Let_def split: if_splits)
  show ?thesis
  proof (cases r1)
    case (Inl e)
    then show ?thesis using kind_failure[OF api] upd snapshot_eqI(4) by fastforce
  next
    case (Inr y)
    note u = kind_update[OF api upd[unfolded Inr]]
    have "reannotated ann x y"
      by (rule content_eq_reannotated[OF u(1)])
        (use assms(5) TargetHTTPRoute in \<open>simp add: target_annotations_def\<close>)
    moreover have "V w'\<lparr>sn_HTTPRoutes := Map.empty, sn_Gateways := Map.empty\<rparr> =
        V w\<lparr>sn_HTTPRoutes := Map.empty, sn_Gateways := Map.empty\<rparr>"
      using u(3) by (cases "V w"; cases "V w'") simp
    ultimately show ?thesis
      using u(2) x arg_cong[OF u(3), of sn_Gateways] by (auto simp: retargeted_def option.rel_refl)
  qed
next
  case (TargetGateway x)
  have api: "kind_api V sn_Gateways (sn_Gateways_update (\<lambda>_. Map.empty)) (cl_Gateways c)"
    using assms(1) by (simp add: cluster_api_def)
  let ?x = "x\<lparr>obj_Annotations := Some m\<rparr>"
  obtain r1 where upd: "api_Update (cl_Gateways c) ?x w = (r1, w')"
    using assms(4) TargetGateway
    by (cases "api_Update (cl_Gateways c) ?x w")
      (auto simp: update_target_def target_SetAnnotations_def UpdateResource_def bindE_def split: sum.splits)
  have x: "sn_Gateways (V w) (ObjectKeyFromObject ?x) = Some x"
    using assms(2,3) TargetGateway
    by (auto simp: target_at_def target_object_key_def ObjectKeyFromObject_def Let_def split: if_splits)
  show ?thesis
  proof (cases r1)
    case (Inl e)
    then show ?thesis using kind_failure[OF api] upd snapshot_eqI(3) by fastforce
  next
    case (Inr y)
    note u = kind_update[OF api upd[unfolded Inr]]
    have "reannotated ann x y"
      by (rule content_eq_reannotated[OF u(1)])
        (use assms(5) TargetGateway in \<open>simp add: target_annotations_def\<close>)
    moreover have "V w'\<lparr>sn_HTTPRoutes := Map.empty, sn_Gateways := Map.empty\<rparr> =
        V w\<lparr>sn_HTTPRoutes := Map.empty, sn_Gateways := Map.empty\<rparr>"
      using u(3) by (cases "V w"; cases "V w'") simp
    ultimately show ?thesis
      using u(2) x arg_cong[OF u(3), of sn_HTTPRoutes] by (auto simp: retargeted_def option.rel_refl)
  qed
qed

lemma back_reference_retargeted:
  assumes "cluster_api c V"
  shows "ReconcileTargetBackReference c pk tr ns ann w = (r, w') \<Longrightarrow> retargeted ann (V w) (V w')"
    and "DeleteTargetBackReference c pk tr ns ann w = (r, w') \<Longrightarrow> retargeted ann (V w) (V w')"
proof -
  show "retargeted ann (V w) (V w')" if run: "ReconcileTargetBackReference c pk tr ns ann w = (r, w')"
    using assms
  proof (cases rule: FetchValidTargetRef_run[where w = w and tr = tr and ns = ns])
    case (found obj)
    show ?thesis
    proof (cases "target_annotations obj ann")
      case None
      with found run have "update_target c (target_SetAnnotations obj
          ((target_annotations obj)(ann \<mapsto> key_String pk))) w = (r, w')"
        by (simp add: ReconcileTargetBackReference_def Let_def)
      from update_target_retargeted[OF assms found(1,3) this] show ?thesis by simp
    qed (use found run in \<open>auto simp: ReconcileTargetBackReference_def Let_def split: if_splits\<close>)
  qed (use run in \<open>auto simp: ReconcileTargetBackReference_def\<close>)
  show "retargeted ann (V w) (V w')" if run: "DeleteTargetBackReference c pk tr ns ann w = (r, w')"
    using assms
  proof (cases rule: FetchValidTargetRef_run[where w = w and tr = tr and ns = ns])
    case (found obj)
    show ?thesis
    proof (cases "target_annotations obj ann")
      case (Some val)
      with found run have "update_target c (target_SetAnnotations obj
          ((target_annotations obj)(ann := None))) w = (r, w')"
        by (simp add: DeleteTargetBackReference_def Let_def)
      from update_target_retargeted[OF assms found(1,3) this] show ?thesis by simp
    qed (use found run in \<open>auto simp: DeleteTargetBackReference_def Let_def\<close>)
  qed (use run in \<open>auto simp: DeleteTargetBackReference_def split: if_splits\<close>)
qed

lemma ReconcileTargetBackReference_run:
  assumes "cluster_api c V" "ReconcileTargetBackReference c pk tr ns ann w = (r, w')"
  shows "(\<forall>e. r = Inl e \<longrightarrow> V w' = V w) \<and>
    (r = Inr () \<longrightarrow> (\<exists>obj obj'. target_at (V w) tr ns = Some obj \<and> usable_target c obj \<and>
       target_annotations obj ann \<in> {None, Some (key_String pk)} \<and>
       target_at (V w') tr ns = Some obj' \<and>
       target_annotations obj' = (target_annotations obj)(ann \<mapsto> key_String pk))) \<and>
    (\<forall>obj val. target_at (V w) tr ns = Some obj \<longrightarrow> target_annotations obj ann = Some val \<longrightarrow>
       w' = w \<and> (r = Inr () \<longleftrightarrow> usable_target c obj \<and> val = key_String pk)) \<and>
    (\<forall>tr' ns'. tr_Kind tr' \<noteq> tr_Kind tr \<or> target_key tr' ns' \<noteq> target_key tr ns \<longrightarrow>
       target_at (V w') tr' ns' = target_at (V w) tr' ns')"
  using assms(1)
proof (cases rule: FetchValidTargetRef_run[where w = w and tr = tr and ns = ns])
  case (found obj)
  show ?thesis
  proof (cases "target_annotations obj ann")
    case None
    with found assms(2) have upd: "update_target c (target_SetAnnotations obj
        ((target_annotations obj)(ann \<mapsto> key_String pk))) w = (r, w')"
      by (simp add: ReconcileTargetBackReference_def Let_def)
    show ?thesis
      using update_target_run[OF assms(1) found(1,3) upd] None found by (cases r) auto
  next
    case (Some val)
    with found assms(2) show ?thesis
      by (auto simp: ReconcileTargetBackReference_def Let_def split: if_splits)
  qed
qed (use assms(2) in \<open>auto simp: ReconcileTargetBackReference_def\<close>)

text \<open>
  C22: Claiming a target. ReconcileTargetBackReference succeeds on a usable target whose annotation
  is absent or already the policy's own, and then the annotation holds the policy's key and the
  target's other annotations are as before. When the annotation is there, its own or another
  policy's, nothing is written; when it is another's, the result is an error: a reference is never
  taken away from the policy that holds it. An error leaves the cluster as it was, and no other
  target is ever touched.
\<close>

theorem ReconcileTargetBackReference_correct:
  assumes "cluster_api c V" "ReconcileTargetBackReference c pk tr ns ann w = (r, w')"
  shows "(\<forall>e. r = Inl e \<longrightarrow> V w' = V w) \<and>
    (r = Inr () \<longrightarrow> (\<exists>obj obj'. target_at (V w) tr ns = Some obj \<and> usable_target c obj \<and>
       target_annotations obj ann \<in> {None, Some (key_String pk)} \<and>
       target_at (V w') tr ns = Some obj' \<and>
       target_annotations obj' = (target_annotations obj)(ann \<mapsto> key_String pk))) \<and>
    (\<forall>obj val. target_at (V w) tr ns = Some obj \<longrightarrow> target_annotations obj ann = Some val \<longrightarrow>
       w' = w \<and> (r = Inr () \<longleftrightarrow> usable_target c obj \<and> val = key_String pk)) \<and>
    (\<forall>tr' ns'. tr_Kind tr' \<noteq> tr_Kind tr \<or> target_key tr' ns' \<noteq> target_key tr ns \<longrightarrow>
       target_at (V w') tr' ns' = target_at (V w) tr' ns')"
  by (rule ReconcileTargetBackReference_run[OF assms])

theorem ReconcileTargetBackReference_correct_witness:
  "fst (ReconcileTargetBackReference cluster_env (ObjectKey ''default'' ''other'') example_target ''default'' ''ref''
     (example_cluster\<lparr>cs_HTTPRoutes := [example_route\<lparr>obj_Annotations := Some [''ref'' \<mapsto> ''default/rlp'']\<rparr>]\<rparr>))
   \<noteq> Inr ()"
proof -
  let ?w = "example_cluster\<lparr>cs_HTTPRoutes := [example_route\<lparr>obj_Annotations := Some [''ref'' \<mapsto> ''default/rlp'']\<rparr>]\<rparr>"
  let ?o = "TargetHTTPRoute (example_route\<lparr>obj_Annotations := Some [''ref'' \<mapsto> ''default/rlp'']\<rparr>)"
  have "target_at (cluster_view ?w) example_target ''default'' = Some ?o"
    by (simp add: target_at_def go_eval list_view_def target_key_def example_target_def
        ObjectKeyFromObject_def example_route_def new_object_def k8s_object.defs)
  moreover have "target_annotations ?o ''ref'' = Some ''default/rlp''"
    by (simp add: target_annotations_def annotations_of_def)
  ultimately show ?thesis
    using ReconcileTargetBackReference_correct[OF cluster_env_api prod.collapse[symmetric],
        where pk = "ObjectKey ''default'' ''other''" and tr = example_target and ns = "''default''" and
          ann = "''ref''" and w = ?w]
    by (simp add: key_String_def)
qed

lemma DeleteTargetBackReference_run:
  assumes "cluster_api c V" "DeleteTargetBackReference c pk tr ns ann w = (r, w')"
  shows "(\<forall>e. r = Inl e \<longrightarrow> V w' = V w) \<and>
    (case target_at (V w) tr ns of
       None \<Rightarrow> w' = w \<and> (tr_Kind tr \<in> {''HTTPRoute'', ''Gateway''} \<longrightarrow> r = Inr ())
     | Some obj \<Rightarrow> r = Inr () \<longrightarrow>
         (\<exists>obj'. target_at (V w') tr ns = Some obj' \<and>
            target_annotations obj' = (target_annotations obj)(ann := None))) \<and>
    (\<forall>tr' ns'. tr_Kind tr' \<noteq> tr_Kind tr \<or> target_key tr' ns' \<noteq> target_key tr ns \<longrightarrow>
       target_at (V w') tr' ns' = target_at (V w) tr' ns') \<and>
    (\<forall>pk'. DeleteTargetBackReference c pk' tr ns ann w = DeleteTargetBackReference c pk tr ns ann w)"
proof -
  have owner: "DeleteTargetBackReference c pk' tr ns ann w = DeleteTargetBackReference c pk tr ns ann w" for pk'
    by (simp add: DeleteTargetBackReference_def)
  from assms(1) show ?thesis
  proof (cases rule: FetchValidTargetRef_run[where w = w and tr = tr and ns = ns])
    case (found obj)
    show ?thesis
    proof (cases "target_annotations obj ann")
      case None
      with found assms(2) show ?thesis
        by (auto simp: DeleteTargetBackReference_def Let_def fun_upd_idem)
    next
      case (Some val)
      with found assms(2) have upd: "update_target c (target_SetAnnotations obj
          ((target_annotations obj)(ann := None))) w = (r, w')"
        by (simp add: DeleteTargetBackReference_def Let_def)
      show ?thesis
        using update_target_run[OF assms(1) found(1,3) upd] found owner by (cases r) auto
    qed
  next
    case (rejected msg args)
    then have "r = Inl (Errorf msg args)" "w' = w"
      using assms(2) by (simp_all add: DeleteTargetBackReference_def)
    with rejected(3) owner show ?thesis
      by (auto simp: IsTargetRefHTTPRoute_def IsTargetRefGateway_def split: option.splits)
  next
    case (missing e)
    then have "r = Inr ()" "w' = w"
      using assms(2) by (simp_all add: DeleteTargetBackReference_def)
    with missing(1) owner show ?thesis by simp
  qed
qed

text \<open>
  Releasing a target. DeleteTargetBackReference succeeds when there is no such target, writing
  nothing; when it succeeds on a target the annotation is gone and the other annotations are as
  before; an error leaves the cluster as it was, and no other target is touched. The key of the
  policy plays no part in it: a policy that never got the reference, because another one holds it,
  takes it away from that one when it is deleted.
\<close>

theorem DeleteTargetBackReference_correct:
  assumes "cluster_api c V" "DeleteTargetBackReference c pk tr ns ann w = (r, w')"
  shows "(\<forall>e. r = Inl e \<longrightarrow> V w' = V w) \<and>
    (case target_at (V w) tr ns of
       None \<Rightarrow> w' = w \<and> (tr_Kind tr \<in> {''HTTPRoute'', ''Gateway''} \<longrightarrow> r = Inr ())
     | Some obj \<Rightarrow> r = Inr () \<longrightarrow>
         (\<exists>obj'. target_at (V w') tr ns = Some obj' \<and>
            target_annotations obj' = (target_annotations obj)(ann := None))) \<and>
    (\<forall>tr' ns'. tr_Kind tr' \<noteq> tr_Kind tr \<or> target_key tr' ns' \<noteq> target_key tr ns \<longrightarrow>
       target_at (V w') tr' ns' = target_at (V w) tr' ns') \<and>
    (\<forall>pk'. DeleteTargetBackReference c pk' tr ns ann w = DeleteTargetBackReference c pk tr ns ann w)"
  by (rule DeleteTargetBackReference_run[OF assms])

theorem DeleteTargetBackReference_correct_witness:
  "DeleteTargetBackReference cluster_env (ObjectKey ''default'' ''other'') example_target ''elsewhere'' ''ref''
     example_cluster = (Inr (), example_cluster)"
proof -
  have "target_at (cluster_view example_cluster) example_target ''elsewhere'' = None"
    by (simp add: target_at_def go_eval list_view_def target_key_def example_target_def)
  then show ?thesis
    using DeleteTargetBackReference_correct[OF cluster_env_api prod.collapse[symmetric],
        where pk = "ObjectKey ''default'' ''other''" and tr = example_target and ns = "''elsewhere''" and
          ann = "''ref''" and w = example_cluster]
    by (simp add: prod_eq_iff example_target_def)
qed

end
