(* ===== verification/RLP_Limits.thy ===== *)
theory RLP_Limits
  imports TargetRef
begin

text \<open>
  controllers/apim/ratelimitpolicy_limits.go: the limits a gateway must have, computed from the
  policies that refer to it, and the update of the Limitador resource. The loading of those
  policies, which gatewayLimits and wasmPluginConfig share word for word, is one definition.
\<close>

record gatewayDiff =
  gd_NewGateways :: "gateway list"
  gd_SameGateways :: "gateway list"
  gd_LeftGateways :: "gateway list"

text \<open>\<open>%v\<close> of a slice of keys.\<close>

definition keys_text :: "object_key list \<Rightarrow> string" where
  "keys_text keys = ''['' @ join (CHR '' '') (map key_String keys) @ '']''"

section \<open>The policies of a gateway\<close>

text \<open>The loop over the references: the route policies in order, and the one gateway policy.\<close>

definition load_step ::
    "'w env \<Rightarrow> string \<Rightarrow> object_key list \<Rightarrow> object_key \<Rightarrow> RateLimitPolicy list \<times> RateLimitPolicy option \<Rightarrow>
     ('w, RateLimitPolicy list \<times> RateLimitPolicy option) io" where
  "load_step c msg rlpRefs rlpKey acc =
     (case acc of (routeRLPList, gwRLP) \<Rightarrow>
        bindE (api_Get (cl_RLPs c) rlpKey) (\<lambda>rlp.
          if IsTargetRefHTTPRoute (rlp_TargetRef rlp) then retE (routeRLPList @ [rlp], gwRLP)
          else if IsTargetRefGateway (rlp_TargetRef rlp) then
            (case gwRLP of
               None \<Rightarrow> retE (routeRLPList, Some rlp)
             | Some _ \<Rightarrow> throwE (Errorf msg [keys_text rlpRefs]))
          else retE (routeRLPList, gwRLP)))"

definition load_policies ::
    "'w env \<Rightarrow> string \<Rightarrow> object_key list \<Rightarrow> ('w, RateLimitPolicy list \<times> RateLimitPolicy option) io" where
  "load_policies c msg rlpRefs = foldE (load_step c msg rlpRefs) rlpRefs ([], None)"

section \<open>gatewayLimits\<close>

definition mergeLimits :: "RateLimitPolicy \<Rightarrow> RateLimitPolicy option \<Rightarrow> Limit list" where
  "mergeLimits routeRLP gwRLP =
     (let limits = FlattenLimits routeRLP in
      case gwRLP of None \<Rightarrow> limits | Some g \<Rightarrow> limits @ FlattenLimits g)"

definition add_gateway_policy :: "string list \<Rightarrow> 'v list \<Rightarrow> (string \<times> 'v list) list \<Rightarrow> (string \<times> 'v list) list" where
  "add_gateway_policy hostnames vs m =
     (if length hostnames = 0 then append_at ''*'' vs m
      else fold (\<lambda>gwHostname. append_at gwHostname vs) hostnames m)"

definition gatewayLimits :: "'w env \<Rightarrow> GatewayWrapper \<Rightarrow> object_key list \<Rightarrow> ('w, LimitsByDomain) io" where
  "gatewayLimits c gw rlpRefs =
     bindE (load_policies c
       ''gatewayLimits: multiple gateway RLP found and only one expected. rlp keys: %v'' rlpRefs)
       (\<lambda>(routeRLPList, gwRLP).
          let limits = [];
              limits = (case gwRLP of
                None \<Rightarrow> limits
              | Some g \<Rightarrow> add_gateway_policy (Hostnames gw) (FlattenLimits g) limits)
          in foldE (\<lambda>httpRouteRLP limits.
               bindE (FetchValidHTTPRoute c (TargetKey httpRouteRLP)) (\<lambda>httpRoute.
                 let mergedLimits = mergeLimits httpRouteRLP gwRLP in
                 retE (fold (\<lambda>hostname. append_at hostname mergedLimits) (rt_Hostnames httpRoute) limits)))
             routeRLPList limits)"

section \<open>reconcileLimits\<close>

definition limitadorKey :: "'w env \<Rightarrow> object_key" where
  "limitadorKey c = ObjectKey (LimitadorNamespace c) (LimitadorName c)"

text \<open>Delete the gateway's limits from the index and add the ones its policies give now.\<close>

definition replace_gateway ::
    "'w env \<Rightarrow> gateway \<Rightarrow> object_key list \<Rightarrow> LimitIndex \<Rightarrow> ('w, LimitIndex) io" where
  "replace_gateway c gw rlpRefs limitIdx =
     bindE (gatewayLimits c (Some gw) rlpRefs) (\<lambda>gwLimits.
       let limitIdx = DeleteGateway limitIdx (Key (Some gw)) in
       bindE (askE (rt_Range c)) (\<lambda>ro.
         retE (AddGatewayLimits ro limitIdx (Key (Some gw)) gwLimits)))"

definition reconcileLimits :: "'w env \<Rightarrow> RateLimitPolicy \<Rightarrow> gatewayDiff \<Rightarrow> ('w, unit) io" where
  "reconcileLimits c rlp gwDiffObj =
     bindE (api_Get (cl_Limitadors c) (limitadorKey c)) (\<lambda>limitador.
       let limitIdx = NewLimitadorIndex (Some limitador);
           limitIdx = foldl (\<lambda>idx leftGateway. DeleteGateway idx (Key (Some leftGateway))) limitIdx
             (gd_LeftGateways gwDiffObj)
       in bindE (foldE (\<lambda>sameGateway limitIdx.
              replace_gateway c sameGateway (elems (RLPRefs (lib_Json c) (Some sameGateway))) limitIdx)
            (gd_SameGateways gwDiffObj) limitIdx) (\<lambda>limitIdx.
          bindE (foldE (\<lambda>newGateway limitIdx.
              replace_gateway c newGateway
                (elems (RLPRefs (lib_Json c) (Some newGateway)) @ [ObjectKeyFromObject rlp]) limitIdx)
            (gd_NewGateways gwDiffObj) limitIdx) (\<lambda>limitIdx.
          let originalLimitIndex = NewLimitadorIndex (Some limitador);
              equalIndexes = LimitIndex_Equals originalLimitIndex (Some limitIdx)
          in if \<not> equalIndexes then
               bindE (askE (rt_Range c)) (\<lambda>ro.
                 bindE (UpdateResource (cl_Limitadors c) (limitador\<lparr>lim_Limits := ToLimits ro limitIdx\<rparr>))
                   (\<lambda>_. retE ()))
             else retE ())))"

section \<open>What the policies of a gateway are\<close>

definition usable_route :: "'w env \<Rightarrow> snapshot \<Rightarrow> object_key \<Rightarrow> http_route option" where
  "usable_route c s k =
     (case sn_HTTPRoutes s k of
        None \<Rightarrow> None
      | Some r \<Rightarrow> if usable_target c (TargetHTTPRoute r) then Some r else None)"

text \<open>
  The policies of a list of references in the cluster \<open>s\<close>: the gateway policy, at most one, and
  the route policies, each with its route. \<open>None\<close> when a policy is missing, a route is missing or
  not accepted, or two policies target the gateway.
\<close>

definition resolve ::
    "'w env \<Rightarrow> snapshot \<Rightarrow> object_key list \<Rightarrow> (RateLimitPolicy option \<times> (RateLimitPolicy \<times> http_route) list) option" where
  "resolve c s refs =
     (case those (map (sn_RLPs s) refs) of
        None \<Rightarrow> None
      | Some rlps \<Rightarrow>
          let routeRLPs = filter (\<lambda>p. tr_Kind (rlp_TargetRef p) = ''HTTPRoute'') rlps;
              gwRLPs = filter (\<lambda>p. tr_Kind (rlp_TargetRef p) = ''Gateway'') rlps
          in case those (map (\<lambda>p. usable_route c s (TargetKey p)) routeRLPs) of
               None \<Rightarrow> None
             | Some routes \<Rightarrow>
                 (case gwRLPs of
                    [] \<Rightarrow> Some (None, zip routeRLPs routes)
                  | [g] \<Rightarrow> Some (Some g, zip routeRLPs routes)
                  | _ \<Rightarrow> None))"

lemma load_policies_Inr:
  assumes "store_api (cl_RLPs c) view same"
  shows "foldE (load_step c msg all) refs (rs, g) w = (Inr (rs', g'), w') \<longleftrightarrow>
    w' = w \<and> (\<exists>rlps. map (view w) refs = map Some rlps \<and>
      rs' = rs @ filter (\<lambda>p. tr_Kind (rlp_TargetRef p) = ''HTTPRoute'') rlps \<and>
      opt_list g' = opt_list g @ filter (\<lambda>p. tr_Kind (rlp_TargetRef p) = ''Gateway'') rlps)"
proof (induction refs arbitrary: rs g)
  case Nil
  then show ?case by (auto simp: opt_list_def split: option.splits)
next
  case (Cons k refs)
  show ?case
  proof (rule store_Get_cases[OF assms, where w = w and k = k])
    fix e assume "view w k = None" "IsNotFound e" "api_Get (cl_RLPs c) k w = (Inl e, w)"
    then show ?thesis by (auto simp: load_step_def Cons_eq_map_conv)
  next
    fix p assume p: "view w k = Some p" "ObjectKeyFromObject p = k" "api_Get (cl_RLPs c) k w = (Inr p, w)"
    have rlps: "(\<exists>rlps. map (view w) (k # refs) = map Some rlps \<and> Q rlps) \<longleftrightarrow>
        (\<exists>rlps. map (view w) refs = map Some rlps \<and> Q (p # rlps))" for Q
      using p(1) by (auto simp: map_eq_Cons_conv) (metis list.simps(9))
    have step: "load_step c msg all k (rs, g) w =
        (if tr_Kind (rlp_TargetRef p) = ''HTTPRoute'' then (Inr (rs @ [p], g), w)
         else if tr_Kind (rlp_TargetRef p) = ''Gateway'' then
           (case g of None \<Rightarrow> (Inr (rs, Some p), w) | Some _ \<Rightarrow> (Inl (Errorf msg [keys_text all]), w))
         else (Inr (rs, g), w))"
      using p(3) by (simp add: load_step_def IsTargetRefHTTPRoute_def IsTargetRefGateway_def split: option.splits)
    show ?thesis
      unfolding rlps using step by (cases g) (auto simp: bindE_def Cons.IH)
  qed
qed

lemma load_policies_pure:
  assumes "store_api (cl_RLPs c) view same"
  shows "snd (load_policies c msg refs w) = w"
proof -
  have get: "preserves (\<lambda>w'. w' = w) (api_Get (cl_RLPs c) k)" for k
    by (auto simp: preserves_def store_Get_pure[OF assms])
  have "preserves (\<lambda>w'. w' = w) (load_policies c msg refs)"
    unfolding load_policies_def load_step_def by (intro pres get)
  then show ?thesis by (simp add: preserves_def)
qed

lemma load_policies_cases [consumes 1, case_names resolved not_loaded not_fetched]:
  assumes "cluster_api c V"
  obtains (resolved) g prs where "resolve c (V w) refs = Some (g, prs)"
      "load_policies c msg refs w = (Inr (map fst prs, g), w)"
      "those (map (\<lambda>p. usable_route c (V w) (TargetKey p)) (map fst prs)) = Some (map snd prs)"
    | (not_loaded) e where "resolve c (V w) refs = None" "load_policies c msg refs w = (Inl e, w)"
    | (not_fetched) rs g where "resolve c (V w) refs = None" "load_policies c msg refs w = (Inr (rs, g), w)"
      "those (map (\<lambda>p. usable_route c (V w) (TargetKey p)) rs) = None"
proof -
  note store = cluster_store(1)[OF assms]
  have run: "load_policies c msg refs w = (Inr (rs, g), w') \<longleftrightarrow>
      w' = w \<and> (\<exists>rlps. those (map (sn_RLPs (V w)) refs) = Some rlps \<and>
        rs = filter (\<lambda>p. tr_Kind (rlp_TargetRef p) = ''HTTPRoute'') rlps \<and>
        opt_list g = filter (\<lambda>p. tr_Kind (rlp_TargetRef p) = ''Gateway'') rlps)" for rs g w'
    by (simp add: load_policies_def load_policies_Inr[OF store] those_eq_Some)
  show thesis
  proof (cases "load_policies c msg refs w")
    case (Pair r w')
    then have w': "w' = w" using load_policies_pure[OF store, of msg refs w] by simp
    show thesis
    proof (cases r)
      case (Inl e)
      have "resolve c (V w) refs = None"
      proof (rule ccontr)
        assume "resolve c (V w) refs \<noteq> None"
        then obtain rlps g where "those (map (sn_RLPs (V w)) refs) = Some rlps"
          "opt_list g = filter (\<lambda>p. tr_Kind (rlp_TargetRef p) = ''Gateway'') rlps"
          by (force simp: resolve_def Let_def split: option.splits list.splits
              intro: opt_list_simps(1)[symmetric] opt_list_simps(2)[symmetric])
        with run Pair Inl show False by fastforce
      qed
      with Pair Inl w' not_loaded show thesis by blast
    next
      case (Inr rg)
      then obtain rs g where rg: "r = Inr (rs, g)" by (cases rg) auto
      with Pair run obtain rlps where rlps: "those (map (sn_RLPs (V w)) refs) = Some rlps"
        "rs = filter (\<lambda>p. tr_Kind (rlp_TargetRef p) = ''HTTPRoute'') rlps"
        "filter (\<lambda>p. tr_Kind (rlp_TargetRef p) = ''Gateway'') rlps = opt_list g"
        by metis
      show thesis
      proof (cases "those (map (\<lambda>p. usable_route c (V w) (TargetKey p)) rs)")
        case None
        with rlps have "resolve c (V w) refs = None" by (simp add: resolve_def)
        with None Pair rg w' not_fetched show thesis by blast
      next
        case (Some routes)
        then have len: "length routes = length rs"
          by (metis length_map those_eq_Some)
        from Some rlps have "resolve c (V w) refs = Some (g, zip rs routes)"
          by (cases g) (simp_all add: resolve_def)
        moreover have "map fst (zip rs routes) = rs" "map snd (zip rs routes) = routes"
          using len by simp_all
        ultimately show thesis
          using resolved[of g "zip rs routes"] Some Pair rg w' by simp
      qed
    qed
  qed
qed

section \<open>The limits of a gateway\<close>

text \<open>
  The limits of the domain \<open>d\<close> at a gateway: the gateway policy's once per listener with that
  host name (or once, for the wildcard, when no listener has one), then for each route policy, in
  the order of the references, its limits followed by the gateway policy's, once per occurrence
  of \<open>d\<close> among the route's host names.
\<close>

definition gateway_limits_at ::
    "GatewayWrapper \<Rightarrow> RateLimitPolicy option \<Rightarrow> (RateLimitPolicy \<times> http_route) list \<Rightarrow> string \<Rightarrow> Limit list" where
  "gateway_limits_at gw g routes d =
     (case g of
        None \<Rightarrow> []
      | Some p \<Rightarrow> concat (replicate (count_list (if Hostnames gw = [] then [''*''] else Hostnames gw) d)
          (FlattenLimits p))) @
     concat (map (\<lambda>(p, r). concat (replicate (count_list (rt_Hostnames r) d) (mergeLimits p g))) routes)"

lemma lookup_add_gateway_policy:
  "lookup_list (add_gateway_policy hs vs m) d =
     lookup_list m d @ concat (replicate (count_list (if hs = [] then [''*''] else hs) d) vs)"
  by (simp add: add_gateway_policy_def lookup_fold_append_at lookup_append_at)

lemma distinct_add_gateway_policy [simp]:
  "distinct (map fst m) \<Longrightarrow> distinct (map fst (add_gateway_policy hs vs m))"
  by (simp add: add_gateway_policy_def)

lemma lookup_fold_routes:
  "lookup_list (fold (\<lambda>(p, r). fold (\<lambda>h. append_at h (f p)) (rt_Hostnames r)) prs m) d =
     lookup_list m d @ concat (map (\<lambda>(p, r). concat (replicate (count_list (rt_Hostnames r) d) (f p))) prs)"
  by (induction prs arbitrary: m) (auto simp: lookup_fold_append_at)

lemma distinct_fold_routes:
  "distinct (map fst m) \<Longrightarrow>
   distinct (map fst (fold (\<lambda>(p, r). fold (\<lambda>h. append_at h (f p)) (rt_Hostnames r)) prs m))"
  by (induction prs arbitrary: m) auto

lemma FetchValidHTTPRoute_look:
  assumes "cluster_api c V"
  shows "case usable_route c (V w) k of
    Some r \<Rightarrow> FetchValidHTTPRoute c k w = (Inr r, w) | None \<Rightarrow> \<exists>e. FetchValidHTTPRoute c k w = (Inl e, w)"
  by (rule FetchValidHTTPRoute_run[OF cluster_store(4)[OF assms], of w k])
    (auto simp: usable_route_def)

lemma fetch_routes_run:
  assumes "cluster_api c V"
  shows "case those (map (\<lambda>p. usable_route c (V w) (TargetKey p)) ps) of
      Some rs \<Rightarrow> foldE (\<lambda>p s. bindE (FetchValidHTTPRoute c (TargetKey p)) (\<lambda>r. retE (f p r s))) ps s w =
        (Inr (fold (\<lambda>(p, r). f p r) (zip ps rs) s), w)
    | None \<Rightarrow> \<exists>e. foldE (\<lambda>p s. bindE (FetchValidHTTPRoute c (TargetKey p)) (\<lambda>r. retE (f p r s))) ps s w = (Inl e, w)"
  by (rule foldE_reads) (rule FetchValidHTTPRoute_look[OF assms])

lemma gatewayLimits_run:
  assumes "cluster_api c V"
  shows "case resolve c (V w) refs of
      Some (g, prs) \<Rightarrow> \<exists>m. gatewayLimits c gw refs w = (Inr m, w) \<and> distinct (map fst m) \<and>
        lookup_list m = gateway_limits_at gw g prs
    | None \<Rightarrow> \<exists>e. gatewayLimits c gw refs w = (Inl e, w)"
  using assms
proof (cases rule: load_policies_cases[where w = w and refs = refs and
    msg = "''gatewayLimits: multiple gateway RLP found and only one expected. rlp keys: %v''"])
  case (resolved g prs)
  let ?base = "case g of None \<Rightarrow> [] | Some p \<Rightarrow> add_gateway_policy (Hostnames gw) (FlattenLimits p) []"
  let ?m = "fold (\<lambda>(p, r). fold (\<lambda>h. append_at h (mergeLimits p g)) (rt_Hostnames r)) prs ?base"
  have "gatewayLimits c gw refs w = (Inr ?m, w)"
    using fetch_routes_run[OF assms, where w = w and ps = "map fst prs" and
        f = "\<lambda>p r. fold (\<lambda>h. append_at h (mergeLimits p g)) (rt_Hostnames r)" and s = ?base] resolved(2,3)
    by (simp add: gatewayLimits_def Let_def zip_map_fst_snd)
  moreover have "distinct (map fst ?m)"
    by (rule distinct_fold_routes) (simp split: option.splits)
  moreover have "lookup_list ?m = gateway_limits_at gw g prs"
    by (rule ext) (simp add: lookup_fold_routes gateway_limits_at_def lookup_add_gateway_policy
        split: option.splits)
  ultimately show ?thesis using resolved(1) by auto
next
  case (not_loaded e)
  then show ?thesis by (simp add: gatewayLimits_def)
next
  case (not_fetched rs g)
  then show ?thesis
    using fetch_routes_run[OF assms, where w = w and ps = rs and
        f = "\<lambda>p r. fold (\<lambda>h. append_at h (mergeLimits p g)) (rt_Hostnames r)" and
        s = "case g of None \<Rightarrow> [] | Some p \<Rightarrow> add_gateway_policy (Hostnames gw) (FlattenLimits p) []"]
    by (simp add: gatewayLimits_def Let_def)
qed

text \<open>
  C20: gatewayLimits reads the cluster and writes nothing. It succeeds exactly when the references
  resolve: every policy is there, at most one targets the gateway, every route is there and
  accepted. Then each domain has the limits \<open>gateway_limits_at\<close> gives it: the gateway policy's for
  the listeners, and each route's own followed by the gateway's for the route's host names.
\<close>

theorem gatewayLimits_correct:
  assumes "cluster_api c V"
  shows "snd (gatewayLimits c gw refs w) = w \<and>
    (case resolve c (V w) refs of
       None \<Rightarrow> \<exists>e. fst (gatewayLimits c gw refs w) = Inl e
     | Some (g, prs) \<Rightarrow> \<exists>m. fst (gatewayLimits c gw refs w) = Inr m \<and> distinct (map fst m) \<and>
         lookup_list m = gateway_limits_at gw g prs)"
  using gatewayLimits_run[OF assms, where w = w and refs = refs and gw = gw] by (auto split: option.splits)

lemma resolve_example [go_eval]:
  "resolve cluster_env (cluster_view example_cluster) [ObjectKey ''istio'' ''gwrlp'', ObjectKey ''default'' ''rlp''] =
     Some (Some gateway_policy, [(route_policy, example_route)])"
  "resolve cluster_env (cluster_view example_cluster) [ObjectKey ''default'' ''rlp''] =
     Some (None, [(route_policy, example_route)])"
proof -
  have tr: "rlp_TargetRef route_policy = example_target" "rlp_TargetRef gateway_policy = gateway_target"
    by (simp_all add: route_policy_def gateway_policy_def example_policy_def new_object_def k8s_object.defs)
  have key: "TargetKey route_policy = ObjectKey ''default'' ''toystore''"
    by (simp add: TargetKey_def route_policy_def example_policy_def example_target_def new_object_def k8s_object.defs)
  have "usable_target cluster_env (TargetHTTPRoute example_route)" by (rule example_target_at)
  then show "resolve cluster_env (cluster_view example_cluster) [ObjectKey ''istio'' ''gwrlp'', ObjectKey ''default'' ''rlp''] =
       Some (Some gateway_policy, [(route_policy, example_route)])"
    "resolve cluster_env (cluster_view example_cluster) [ObjectKey ''default'' ''rlp''] =
       Some (None, [(route_policy, example_route)])"
    by (simp_all add: resolve_def Let_def tr key gateway_target_def example_target_def usable_route_def
        list_view_def go_eval)
qed

theorem gatewayLimits_correct_witness:
  "\<exists>m. fst (gatewayLimits cluster_env (Some example_gateway)
      [ObjectKey ''istio'' ''gwrlp'', ObjectKey ''default'' ''rlp''] example_cluster) = Inr m \<and>
    lookup_list m ''api.toystore.com'' = [example_limit 5 None, example_limit 100 None] \<and>
    lookup_list m ''*.toystore.com'' = [example_limit 100 None]"
proof -
  have "FlattenLimits route_policy = [example_limit 5 None]" "FlattenLimits gateway_policy = [example_limit 100 None]"
    "Hostnames (Some example_gateway) = [''*.toystore.com'']" "rt_Hostnames example_route = [''api.toystore.com'']"
    by (simp_all add: FlattenLimits_concat route_policy_def gateway_policy_def example_policy_def
        example_gateway_def example_route_def new_object_def k8s_object.defs List.map_filter_simps)
  then show ?thesis
    using gatewayLimits_correct[OF cluster_env_api, where gw = "Some example_gateway" and
        refs = "[ObjectKey ''istio'' ''gwrlp'', ObjectKey ''default'' ''rlp'']" and w = example_cluster]
    by (auto simp: go_eval gateway_limits_at_def mergeLimits_def)
qed

section \<open>What reconcileLimits makes of the Limitador resource\<close>

text \<open>The gateways whose limits are computed anew, each with the references that count for it.\<close>

definition recomputed :: "json_codec \<Rightarrow> RateLimitPolicy \<Rightarrow> gatewayDiff \<Rightarrow> (gateway \<times> object_key list) list" where
  "recomputed J rlp diff =
     map (\<lambda>gw. (gw, refs_of J (Some gw))) (gd_SameGateways diff) @
     map (\<lambda>gw. (gw, refs_of J (Some gw) @ [ObjectKeyFromObject rlp])) (gd_NewGateways diff)"

definition limits_for :: "'w env \<Rightarrow> snapshot \<Rightarrow> gateway \<times> object_key list \<Rightarrow> string \<Rightarrow> Limit list" where
  "limits_for c s gr d =
     (case resolve c s (snd gr) of
        None \<Rightarrow> [] | Some (g, prs) \<Rightarrow> gateway_limits_at (Some (fst gr)) g prs d)"

text \<open>
  The limits of a gateway after a reconciliation that started with the limits \<open>old\<close>: computed anew
  for a recomputed gateway, none for a gateway that was left, else the ones there were.
\<close>

definition limits_after ::
    "'w env \<Rightarrow> snapshot \<Rightarrow> RateLimitPolicy \<Rightarrow> gatewayDiff \<Rightarrow> (object_key \<Rightarrow> string \<Rightarrow> Limit list) \<Rightarrow>
     object_key \<Rightarrow> string \<Rightarrow> Limit list" where
  "limits_after c s rlp diff old k d =
     (case find (\<lambda>gr. ObjectKeyFromObject (fst gr) = k) (recomputed (lib_Json c) rlp diff) of
        Some gr \<Rightarrow> limits_for c s gr d
      | None \<Rightarrow> if k \<in> ObjectKeyFromObject ` set (gd_LeftGateways diff) then [] else old k d)"

lemma Key_Some [simp]: "Key (Some gw) = ObjectKeyFromObject gw"
  by (simp add: Key_def)

lemma replace_gateway_run:
  assumes "cluster_api c V"
  shows "case resolve c (V w) refs of
      None \<Rightarrow> \<exists>e. replace_gateway c gw refs idx w = (Inl e, w)
    | Some _ \<Rightarrow> \<exists>idx'. replace_gateway c gw refs idx w = (Inr idx', w) \<and> (wf_index idx \<longrightarrow> wf_index idx') \<and>
        index_view idx' = (index_view idx)(ObjectKeyFromObject gw := limits_for c (V w) (gw, refs))"
proof (cases "resolve c (V w) refs")
  case None
  then show ?thesis
    using gatewayLimits_run[OF assms, where w = w and refs = refs and gw = "Some gw"] by (auto simp: replace_gateway_def)
next
  case (Some a)
  then obtain g prs where gprs: "resolve c (V w) refs = Some (g, prs)" by (cases a) simp
  then obtain m where m: "gatewayLimits c (Some gw) refs w = (Inr m, w)" "distinct (map fst m)"
      "lookup_list m = gateway_limits_at (Some gw) g prs"
    using gatewayLimits_run[OF assms, where w = w and refs = refs and gw = "Some gw"] by auto
  let ?k = "ObjectKeyFromObject gw"
  let ?idx = "AddGatewayLimits (rt_Range c w) (DeleteGateway idx ?k) ?k m"
  have "replace_gateway c gw refs idx w = (Inr ?idx, w)"
    by (simp add: replace_gateway_def m(1) Let_def)
  moreover have "index_view ?idx = (index_view idx)(?k := limits_for c (V w) (gw, refs))"
    by (auto simp: fun_eq_iff index_view_AddGatewayLimits[OF m(2)] index_view_DeleteGateway
        limits_for_def gprs m(3))
  ultimately show ?thesis
    using gprs by (auto intro: wf_AddGatewayLimits wf_DeleteGateway)
qed

lemma replace_gateways_run:
  assumes "cluster_api c V" "distinct (map (ObjectKeyFromObject \<circ> fst) grs)"
  shows "if list_all (\<lambda>gr. resolve c (V w) (snd gr) \<noteq> None) grs then
      \<exists>idx'. foldE (\<lambda>gr idx. replace_gateway c (fst gr) (snd gr) idx) grs idx w = (Inr idx', w) \<and>
        (wf_index idx \<longrightarrow> wf_index idx') \<and>
        index_view idx' = (\<lambda>k d. case find (\<lambda>gr. ObjectKeyFromObject (fst gr) = k) grs of
          Some gr \<Rightarrow> limits_for c (V w) gr d | None \<Rightarrow> index_view idx k d)
    else \<exists>e. foldE (\<lambda>gr idx. replace_gateway c (fst gr) (snd gr) idx) grs idx w = (Inl e, w)"
  using assms(2)
proof (induction grs arbitrary: idx)
  case Nil
  then show ?case by simp
next
  case (Cons gr grs)
  show ?case
  proof (cases "resolve c (V w) (snd gr)")
    case None
    then show ?thesis
      using replace_gateway_run[OF assms(1), where w = w and refs = "snd gr" and gw = "fst gr" and idx = idx] by auto
  next
    case (Some a)
    then obtain idx1 where idx1: "replace_gateway c (fst gr) (snd gr) idx w = (Inr idx1, w)"
        "wf_index idx \<longrightarrow> wf_index idx1"
        "index_view idx1 = (index_view idx)(ObjectKeyFromObject (fst gr) := limits_for c (V w) gr)"
      using replace_gateway_run[OF assms(1), where w = w and refs = "snd gr" and gw = "fst gr" and idx = idx] by auto
    have "ObjectKeyFromObject (fst gr) \<notin> (\<lambda>x. ObjectKeyFromObject (fst x)) ` set grs"
      using Cons.prems by (simp add: comp_def)
    then have "find (\<lambda>x. ObjectKeyFromObject (fst x) = ObjectKeyFromObject (fst gr)) grs = None"
      unfolding find_None_iff by (metis image_eqI)
    then have view: "(\<lambda>k d. case find (\<lambda>x. ObjectKeyFromObject (fst x) = k) grs of
          Some x \<Rightarrow> limits_for c (V w) x d | None \<Rightarrow> index_view idx1 k d) =
        (\<lambda>k d. case find (\<lambda>x. ObjectKeyFromObject (fst x) = k) (gr # grs) of
          Some x \<Rightarrow> limits_for c (V w) x d | None \<Rightarrow> index_view idx k d)"
      by (intro ext) (auto simp: idx1(3) split: option.split)
    have "distinct (map (ObjectKeyFromObject \<circ> fst) grs)"
      using Cons.prems by (simp add: comp_def)
    from Cons.IH[OF this, of idx1] show ?thesis
      unfolding view using Some idx1(1,2) by (auto split: if_splits)
  qed
qed

text \<open>The index reconcileLimits ends with, as one loop over the recomputed gateways.\<close>

definition recompute_index :: "'w env \<Rightarrow> RateLimitPolicy \<Rightarrow> gatewayDiff \<Rightarrow> limitador \<Rightarrow> ('w, LimitIndex) io" where
  "recompute_index c rlp diff lim =
     foldE (\<lambda>gr. replace_gateway c (fst gr) (snd gr)) (recomputed (lib_Json c) rlp diff)
       (foldl (\<lambda>idx gw. DeleteGateway idx (ObjectKeyFromObject gw)) (NewLimitadorIndex (Some lim))
         (gd_LeftGateways diff))"

lemma reconcileLimits_alt:
  "reconcileLimits c rlp diff =
     bindE (api_Get (cl_Limitadors c) (limitadorKey c)) (\<lambda>lim.
       bindE (recompute_index c rlp diff lim) (\<lambda>idx.
         if \<not> LimitIndex_Equals (NewLimitadorIndex (Some lim)) (Some idx) then
           bindE (askE (rt_Range c)) (\<lambda>ro.
             bindE (UpdateResource (cl_Limitadors c) (lim\<lparr>lim_Limits := ToLimits ro idx\<rparr>)) (\<lambda>_. retE ()))
         else retE ()))"
  by (simp add: reconcileLimits_def recompute_index_def recomputed_def refs_of_def foldE_append foldE_map
      bindE_assoc Let_def)

lemma index_view_DeleteGateways:
  "index_view (foldl (\<lambda>idx gw. DeleteGateway idx (ObjectKeyFromObject gw)) idx gws) k d =
     (if k \<in> ObjectKeyFromObject ` set gws then [] else index_view idx k d)"
  by (induction gws arbitrary: idx) (auto simp: index_view_DeleteGateway)

lemma wf_DeleteGateways:
  "wf_index idx \<Longrightarrow> wf_index (foldl (\<lambda>idx gw. DeleteGateway idx (ObjectKeyFromObject gw)) idx gws)"
  by (induction gws arbitrary: idx) (auto simp: wf_DeleteGateway)

lemma recompute_index_run:
  assumes "cluster_api c V"
    "distinct (map ObjectKeyFromObject (gd_SameGateways diff @ gd_NewGateways diff))"
  shows "if list_all (\<lambda>gr. resolve c (V w) (snd gr) \<noteq> None) (recomputed (lib_Json c) rlp diff) then
      \<exists>idx. recompute_index c rlp diff lim w = (Inr idx, w) \<and> wf_index idx \<and>
        index_view idx = limits_after c (V w) rlp diff (limits_named (lim_Limits lim))
    else \<exists>e. recompute_index c rlp diff lim w = (Inl e, w)"
proof -
  have dist: "distinct (map (ObjectKeyFromObject \<circ> fst) (recomputed (lib_Json c) rlp diff))"
    using assms(2) by (simp add: recomputed_def comp_def image_comp)
  let ?idx0 = "foldl (\<lambda>idx gw. DeleteGateway idx (ObjectKeyFromObject gw)) (NewLimitadorIndex (Some lim))
    (gd_LeftGateways diff)"
  have "(\<lambda>k d. case find (\<lambda>gr. ObjectKeyFromObject (fst gr) = k) (recomputed (lib_Json c) rlp diff) of
      Some gr \<Rightarrow> limits_for c (V w) gr d | None \<Rightarrow> index_view ?idx0 k d) =
    limits_after c (V w) rlp diff (limits_named (lim_Limits lim))"
    by (intro ext) (simp add: limits_after_def index_view_DeleteGateways index_view_New split: option.split)
  moreover have "wf_index ?idx0" by (intro wf_DeleteGateways wf_NewLimitadorIndex)
  ultimately show ?thesis
    using replace_gateways_run[OF assms(1) dist, where w = w and idx = ?idx0]
    unfolding recompute_index_def by presburger
qed

text \<open>
  No name in play has a separator in it: the keys of the recomputed gateways have no slash and no
  hash, the domains no hash. Kubernetes names and DNS host names never have one.
\<close>

definition names_ok :: "'w env \<Rightarrow> snapshot \<Rightarrow> RateLimitPolicy \<Rightarrow> gatewayDiff \<Rightarrow> bool" where
  "names_ok c s rlp diff \<longleftrightarrow>
     (\<forall>gr \<in> set (recomputed (lib_Json c) rlp diff). gw_key_ok (ObjectKeyFromObject (fst gr)) \<and>
        (\<forall>d. limits_for c s gr d \<noteq> [] \<longrightarrow> domain_ok d))"

lemma printable_view:
  assumes "wf_index s" "\<And>k d. index_view s k d \<noteq> [] \<Longrightarrow> gw_key_ok k \<and> domain_ok d"
  shows "printable s"
proof -
  have "gw_key_ok k \<and> list_all (domain_ok \<circ> fst) m" if km: "(k, m) \<in> set s" for k m
  proof -
    from assms(1) km have m: "map_of s k = Some m" by (simp add: wf_index_def)
    with wf_index_entry[OF assms(1)] have wf: "m \<noteq> []" "wf_domains m" by auto
    have view: "index_view s k d = lookup_list m d" for d
      by (simp add: index_view_def domains_of_def m)
    have "lookup_list m d \<noteq> []" if "(d, ls) \<in> set m" for d ls
      using wf(2) that by (auto simp: wf_domains_def list_all_iff lookup_list_def)
    with assms(2)[of k] view have "domain_ok d" if "(d, ls) \<in> set m" for d ls
      using that by auto
    moreover from wf_domains_nonempty[OF wf(2,1)] view assms(2)[of k] have "gw_key_ok k" by auto
    ultimately show ?thesis by (auto simp: list_all_iff)
  qed
  then show ?thesis by (auto simp: printable_def list_all_iff)
qed

lemma limits_named_ok: "limits_named ls k d \<noteq> [] \<Longrightarrow> gw_key_ok k \<and> domain_ok d"
  by (auto simp: limits_named_def filter_empty_conv dest: UnMarshallLimitNamespace_ok)

lemma limits_after_ok:
  assumes "names_ok c s rlp diff" "limits_after c s rlp diff (limits_named ls) k d \<noteq> []"
  shows "gw_key_ok k \<and> domain_ok d"
proof (cases "find (\<lambda>gr. ObjectKeyFromObject (fst gr) = k) (recomputed (lib_Json c) rlp diff)")
  case None
  with assms(2) show ?thesis
    by (auto simp: limits_after_def dest!: limits_named_ok split: if_splits)
next
  case (Some gr)
  then have "gr \<in> set (recomputed (lib_Json c) rlp diff)" "ObjectKeyFromObject (fst gr) = k"
    by (auto simp: find_Some_iff)
  with Some assms show ?thesis by (auto simp: names_ok_def limits_after_def)
qed

lemma reconcileLimits_run:
  assumes "cluster_api c V" "reconcileLimits c rlp diff w = (r, w')"
    and "distinct (map ObjectKeyFromObject (gd_SameGateways diff @ gd_NewGateways diff))"
    and "names_ok c (V w) rlp diff"
  shows "(\<forall>e. r = Inl e \<longrightarrow> V w' = V w) \<and>
    (r = Inr () \<longrightarrow>
       list_all (\<lambda>gr. resolve c (V w) (snd gr) \<noteq> None) (recomputed (lib_Json c) rlp diff) \<and>
       V w'\<lparr>sn_Limitadors := Map.empty\<rparr> = V w\<lparr>sn_Limitadors := Map.empty\<rparr> \<and>
       (\<exists>lim lim'. sn_Limitadors (V w) (limitadorKey c) = Some lim \<and>
          sn_Limitadors (V w') = (sn_Limitadors (V w))(limitadorKey c \<mapsto> lim') \<and>
          (\<forall>k d. mset (limits_named (lim_Limits lim') k d) =
             mset (limits_after c (V w) rlp diff (limits_named (lim_Limits lim)) k d))))"
proof (rule store_Get_cases[OF cluster_store(5)[OF assms(1)], where w = w and k = "limitadorKey c"])
  fix e assume "api_Get (cl_Limitadors c) (limitadorKey c) w = (Inl e, w)"
  with assms(2) show ?thesis by (auto simp: reconcileLimits_alt)
next
  fix lim assume "(sn_Limitadors \<circ> V) w (limitadorKey c) = Some lim"
    and key: "ObjectKeyFromObject lim = limitadorKey c"
    and get: "api_Get (cl_Limitadors c) (limitadorKey c) w = (Inr lim, w)"
  then have lim: "sn_Limitadors (V w) (limitadorKey c) = Some lim" by simp
  have api: "kind_api V sn_Limitadors (sn_Limitadors_update (\<lambda>_. Map.empty)) (cl_Limitadors c)"
    using assms(1) by (simp add: cluster_api_def)
  show ?thesis
  proof (cases "list_all (\<lambda>gr. resolve c (V w) (snd gr) \<noteq> None) (recomputed (lib_Json c) rlp diff)")
    case False
    then show ?thesis
      using recompute_index_run[OF assms(1,3), where w = w and rlp = rlp and lim = lim] assms(2)
      by (auto simp: reconcileLimits_alt get)
  next
    case True
    then obtain idx where idx: "recompute_index c rlp diff lim w = (Inr idx, w)" "wf_index idx"
        and view: "index_view idx = limits_after c (V w) rlp diff (limits_named (lim_Limits lim))"
      using recompute_index_run[OF assms(1,3), where w = w and rlp = rlp and lim = lim] by auto
    show ?thesis
    proof (cases "LimitIndex_Equals (NewLimitadorIndex (Some lim)) (Some idx)")
      case eq: True
      then have "SameLimitList (limits_named (lim_Limits lim) k d) (index_view idx k d)" for k d
        using LimitIndex_Equals_iff[OF wf_NewLimitadorIndex idx(2)] by (simp add: index_view_New)
      then have "mset (limits_named (lim_Limits lim) k d) = mset (index_view idx k d)" for k d
        by (rule SameLimitList_mset)
      moreover have "r = Inr ()" "w' = w"
        using assms(2) eq by (simp_all add: reconcileLimits_alt get idx(1))
      moreover have "sn_Limitadors (V w) = (sn_Limitadors (V w))(limitadorKey c \<mapsto> lim)"
        using lim by (simp add: fun_upd_idem)
      ultimately show ?thesis using True lim by (auto simp: view intro!: exI[of _ lim])
    next
      case neq: False
      let ?new = "lim\<lparr>lim_Limits := ToLimits (rt_Range c w) idx\<rparr>"
      have run: "(r, w') = (case api_Update (cl_Limitadors c) ?new w of
          (Inl e, w1) \<Rightarrow> (Inl e, w1) | (Inr _, w1) \<Rightarrow> (Inr (), w1))"
        using assms(2) neq
        by (simp add: reconcileLimits_alt get idx(1) UpdateResource_def bindE_def
            split: prod.splits sum.splits)
      show ?thesis
      proof (cases "api_Update (cl_Limitadors c) ?new w")
        case (Pair r1 w1)
        show ?thesis
        proof (cases r1)
          case (Inl e)
          with Pair have "V w1 = V w"
            using kind_failure[OF api, of ?new w e w1] by (blast intro: snapshot_eqI)
          with run Pair Inl show ?thesis by simp
        next
          case (Inr lim')
          with Pair run have w': "r = Inr ()" "w' = w1" by simp_all
          have upd: "content_eq lim' ?new"
            "sn_Limitadors (V w1) = (sn_Limitadors (V w))(limitadorKey c \<mapsto> lim')"
            "V w1\<lparr>sn_Limitadors := Map.empty\<rparr> = V w\<lparr>sn_Limitadors := Map.empty\<rparr>"
            using kind_update[OF api, of ?new w lim' w1] Pair Inr key
            by (simp_all add: ObjectKeyFromObject_def)
          have "printable idx"
            using printable_view[OF idx(2)] limits_after_ok[OF assms(4)] by (simp add: view)
          then have "limits_named (ToLimits (rt_Range c w) idx) k d = index_view idx k d" for k d
            by (rule limits_named_ToLimits[OF idx(2)])
          moreover have "lim_Limits lim' = ToLimits (rt_Range c w) idx"
            using arg_cong[OF upd(1)[unfolded content_eq_def], of lim_Limits] by simp
          ultimately show ?thesis using True lim upd w' by (auto simp: view)
        qed
      qed
    qed
  qed
qed


text \<open>An example: the gateway istio/gw gets the route policy default/rlp.\<close>

definition example_diff :: gatewayDiff where
  "example_diff = \<lparr>gd_NewGateways = [example_gateway], gd_SameGateways = [], gd_LeftGateways = []\<rparr>"

lemma recomputed_example [go_eval]:
  "recomputed J route_policy example_diff = [(example_gateway, [ObjectKey ''default'' ''rlp''])]"
  by (simp add: recomputed_def example_diff_def example_keys)

lemma limits_for_example [go_eval]:
  "limits_for cluster_env (cluster_view example_cluster) (example_gateway, [ObjectKey ''default'' ''rlp'']) d =
     (if d = ''api.toystore.com'' then [example_limit 5 None] else [])"
  by (simp add: limits_for_def resolve_example gateway_limits_at_def mergeLimits_def FlattenLimits_concat)
    (simp add: route_policy_def example_policy_def example_route_def new_object_def k8s_object.defs)

lemma names_ok_example: "names_ok cluster_env (cluster_view example_cluster) route_policy example_diff"
  by (auto simp: names_ok_def recomputed_example example_keys limits_for_example gw_key_ok_def key_ok_def
      domain_ok_def)

lemma distinct_example:
  "distinct (map ObjectKeyFromObject (gd_SameGateways example_diff @ gd_NewGateways example_diff))"
  by (simp add: example_diff_def)

lemma reconcileLimits_example:
  "\<exists>ls. reconcileLimits cluster_env route_policy example_diff example_cluster =
     (Inr (), example_cluster\<lparr>cs_Limitadors := [example_limitador\<lparr>lim_Limits := ls\<rparr>]\<rparr>)"
proof -
  have "list_all (\<lambda>gr. resolve cluster_env (cluster_view example_cluster) (snd gr) \<noteq> None)
      (recomputed (lib_Json cluster_env) route_policy example_diff)"
    by (simp add: recomputed_example resolve_example)
  then obtain idx where idx: "recompute_index cluster_env route_policy example_diff example_limitador example_cluster
      = (Inr idx, example_cluster)"
    using recompute_index_run[OF cluster_env_api, where w = example_cluster and diff = example_diff and
        rlp = route_policy and lim = example_limitador]
    by (auto simp: example_diff_def)
  have key: "ObjectKeyFromObject (example_limitador\<lparr>lim_Limits := ls\<rparr>) = ObjectKey ''kuadrant-system'' ''limitador''" for ls
    using example_keys(5) by (simp add: ObjectKeyFromObject_def)
  show ?thesis
  proof (cases "LimitIndex_Equals (NewLimitadorIndex (Some example_limitador)) (Some idx)")
    case True
    have "example_limitador\<lparr>lim_Limits := []\<rparr> = example_limitador"
      "example_cluster\<lparr>cs_Limitadors := [example_limitador]\<rparr> = example_cluster"
      by (simp_all add: example_limitador_def example_cluster_def new_object_def k8s_object.defs)
    with True show ?thesis
      by (intro exI[of _ "[]"]) (simp add: reconcileLimits_alt go_eval limitadorKey_def idx)
  next
    case False
    then show ?thesis
      by (auto simp: reconcileLimits_alt go_eval limitadorKey_def idx UpdateResource_def key list_store_def)
  qed
qed

lemma reconcileLimits_example0:
  "fst (reconcileLimits cluster_env route_policy example_diff example_cluster) = Inr ()"
  using reconcileLimits_example by force


lemma resolve_cong:
  "sn_RLPs s' = sn_RLPs s \<Longrightarrow> sn_HTTPRoutes s' = sn_HTTPRoutes s \<Longrightarrow> resolve c s' refs = resolve c s refs"
proof -
  assume s: "sn_RLPs s' = sn_RLPs s" "sn_HTTPRoutes s' = sn_HTTPRoutes s"
  have u: "usable_route c s' = usable_route c s" by (rule ext) (simp add: usable_route_def s)
  show ?thesis unfolding resolve_def s u by (rule refl)
qed

lemma limits_after_cong:
  "sn_RLPs s' = sn_RLPs s \<Longrightarrow> sn_HTTPRoutes s' = sn_HTTPRoutes s \<Longrightarrow>
   limits_after c s' rlp diff old = limits_after c s rlp diff old"
proof -
  assume s: "sn_RLPs s' = sn_RLPs s" "sn_HTTPRoutes s' = sn_HTTPRoutes s"
  have l: "limits_for c s' = limits_for c s" by (intro ext) (simp add: limits_for_def resolve_cong[OF s])
  show ?thesis by (intro ext) (simp only: limits_after_def l)
qed

text \<open>Limits that are as they should be are left alone.\<close>

lemma reconcileLimits_unchanged:
  assumes "cluster_api c V" "distinct (map ObjectKeyFromObject (gd_SameGateways diff @ gd_NewGateways diff))"
    and lim: "sn_Limitadors (V w) (limitadorKey c) = Some lim"
    and "list_all (\<lambda>gr. resolve c (V w) (snd gr) \<noteq> None) (recomputed (lib_Json c) rlp diff)"
    and bags: "\<And>k d. mset (limits_named (lim_Limits lim) k d) =
      mset (limits_after c (V w) rlp diff (limits_named (lim_Limits lim)) k d)"
    and ties: "\<And>k d. no_ties (limits_named (lim_Limits lim) k d)"
  shows "reconcileLimits c rlp diff w = (Inr (), w)"
proof -
  from store_Get_Some[OF cluster_store(5)[OF assms(1)], of w "limitadorKey c" lim] lim
  have get: "api_Get (cl_Limitadors c) (limitadorKey c) w = (Inr lim, w)" by simp
  obtain idx where idx: "recompute_index c rlp diff lim w = (Inr idx, w)" "wf_index idx"
      and view: "index_view idx = limits_after c (V w) rlp diff (limits_named (lim_Limits lim))"
    using recompute_index_run[OF assms(1,2), where w = w and rlp = rlp and lim = lim] assms(4) by auto
  have "SameLimitList (limits_named (lim_Limits lim) k d) (index_view idx k d)" for k d
  proof -
    have bag: "mset (limits_named (lim_Limits lim) k d) = mset (index_view idx k d)" using bags by (simp add: view)
    then have "set (limits_named (lim_Limits lim) k d @ index_view idx k d) = set (limits_named (lim_Limits lim) k d)"
      by (metis set_append set_mset_mset sup.idem)
    with ties[of k d] bag show ?thesis by (subst SameLimitList_iff) (simp_all add: no_ties_def)
  qed
  then have "LimitIndex_Equals (NewLimitadorIndex (Some lim)) (Some idx)"
    by (simp add: LimitIndex_Equals_iff[OF wf_NewLimitadorIndex idx(2)] index_view_New)
  then show ?thesis by (simp add: reconcileLimits_alt get idx(1))
qed

text \<open>
  Reconciling the limits is stable: run again on what a successful run left, it succeeds and
  writes nothing (provided no two limits differ only by nil against empty conditions, where the
  comparison of limits is not faithful).
\<close>

theorem reconcileLimits_idempotent:
  assumes "cluster_api c V" "reconcileLimits c rlp diff w = (Inr (), w')"
    and "distinct (map ObjectKeyFromObject (gd_SameGateways diff @ gd_NewGateways diff))"
    and "names_ok c (V w) rlp diff"
    and "\<And>lim k d. sn_Limitadors (V w) (limitadorKey c) = Some lim \<Longrightarrow>
      no_ties (limits_after c (V w) rlp diff (limits_named (lim_Limits lim)) k d)"
  shows "reconcileLimits c rlp diff w' = (Inr (), w')"
proof -
  from reconcileLimits_run[OF assms(1-4)] obtain lim lim' where
    ok: "list_all (\<lambda>gr. resolve c (V w) (snd gr) \<noteq> None) (recomputed (lib_Json c) rlp diff)"
    and rest: "V w'\<lparr>sn_Limitadors := Map.empty\<rparr> = V w\<lparr>sn_Limitadors := Map.empty\<rparr>"
    and lim: "sn_Limitadors (V w) (limitadorKey c) = Some lim"
      "sn_Limitadors (V w') (limitadorKey c) = Some lim'"
    and bags: "\<And>k d. mset (limits_named (lim_Limits lim') k d) =
      mset (limits_after c (V w) rlp diff (limits_named (lim_Limits lim)) k d)"
    by auto
  have same: "sn_RLPs (V w') = sn_RLPs (V w)" "sn_HTTPRoutes (V w') = sn_HTTPRoutes (V w)"
    using arg_cong[OF rest, of sn_RLPs] arg_cong[OF rest, of sn_HTTPRoutes] by simp_all
  show ?thesis
  proof (rule reconcileLimits_unchanged[OF assms(1,3) lim(2)])
    show "list_all (\<lambda>gr. resolve c (V w') (snd gr) \<noteq> None) (recomputed (lib_Json c) rlp diff)"
      using ok by (simp add: resolve_cong[OF same])
    fix k d
    show "mset (limits_named (lim_Limits lim') k d) = mset (limits_after c (V w') rlp diff (limits_named (lim_Limits lim')) k d)"
      using bags[of k d] by (auto simp: limits_after_cong[OF same] limits_after_def split: option.splits)
    have "set (limits_named (lim_Limits lim') k d) = set (limits_after c (V w) rlp diff (limits_named (lim_Limits lim)) k d)"
      using bags[of k d] by (metis set_mset_mset)
    with assms(5)[OF lim(1), of k d] show "no_ties (limits_named (lim_Limits lim') k d)" by (simp add: no_ties_def)
  qed
qed

theorem reconcileLimits_idempotent_witness:
  "let w = snd (reconcileLimits cluster_env route_policy example_diff example_cluster)
   in reconcileLimits cluster_env route_policy example_diff w = (Inr (), w)"
proof -
  let ?r = "reconcileLimits cluster_env route_policy example_diff example_cluster"
  have run: "?r = (Inr (), snd ?r)" by (simp add: prod_eq_iff reconcileLimits_example0)
  have key: "limitadorKey cluster_env = ObjectKey ''kuadrant-system'' ''limitador''"
    by (simp add: limitadorKey_def limitador_names)
  have "no_ties (limits_after cluster_env (cluster_view example_cluster) route_policy example_diff
      (limits_named (lim_Limits lim)) k d)"
    if "sn_Limitadors (cluster_view example_cluster) (limitadorKey cluster_env) = Some lim" for lim k d
  proof -
    from that have "lim = example_limitador" by (simp add: key go_eval list_view_def)
    then have "limits_named (lim_Limits lim) k d = []"
      by (simp add: limits_named_def example_limitador_def new_object_def k8s_object.defs)
    then show ?thesis
      by (auto simp: limits_after_def recomputed_example limits_for_example no_ties_def inj_on_def)
  qed
  from reconcileLimits_idempotent[OF cluster_env_api run distinct_example names_ok_example this] show ?thesis
    by (simp add: Let_def)
qed

end
