(* ===== verification/RLP_Wasm.thy ===== *)
theory RLP_Wasm
  imports RLP_Limits
begin

text \<open>
  controllers/apim/ratelimitpolicy_wasm_plugins.go: the WasmPlugin of a gateway, with one policy
  per domain, computed from the policies that refer to the gateway.
\<close>

section \<open>The configuration of a gateway's plugin\<close>

definition mergeGatewayActions ::
    "RateLimitPolicy \<Rightarrow> RateLimitPolicy option \<Rightarrow> http_route \<Rightarrow> GatewayAction list" where
  "mergeGatewayActions routeRLP gwRLP route =
     (let gatewayActions = GatewayActionsFromRateLimitPolicy (Some routeRLP) (Some route) in
      case gwRLP of
        None \<Rightarrow> gatewayActions
      | Some g \<Rightarrow> gatewayActions @ GatewayActionsFromRateLimitPolicy (Some g) None)"

definition wasm_rate_limit_policy :: "GatewayWrapper \<Rightarrow> string \<Rightarrow> GatewayAction list \<Rightarrow> WASMRateLimitPolicy" where
  "wasm_rate_limit_policy gw domain gatewayActionList =
     \<lparr>wrlp_Name = domain,
      wrlp_RateLimitDomain = MarshallNamespace (Key gw) domain,
      wrlp_UpstreamCluster = KuadrantRateLimitClusterName,
      wrlp_Hostnames = [domain],
      wrlp_GatewayActions = gatewayActionList\<rparr>"

definition wasmPluginConfig ::
    "'w env \<Rightarrow> GatewayWrapper \<Rightarrow> object_key list \<Rightarrow> ('w, WASMPlugin option) io" where
  "wasmPluginConfig c gw rlpRefs =
     bindE (load_policies c
       ''wasmPluginConfig: multiple gateway RLP found and only one expected. rlp keys: %v'' rlpRefs)
       (\<lambda>(routeRLPList, gwRLP).
          let gatewayActions = [];
              gatewayActions = (case gwRLP of
                None \<Rightarrow> gatewayActions
              | Some g \<Rightarrow> add_gateway_policy (Hostnames gw) (GatewayActionsFromRateLimitPolicy (Some g) None)
                  gatewayActions)
          in bindE (foldE (\<lambda>httpRouteRLP gatewayActions.
               bindE (FetchValidHTTPRoute c (TargetKey httpRouteRLP)) (\<lambda>httpRoute.
                 let mergedGatewayActions = mergeGatewayActions httpRouteRLP gwRLP httpRoute in
                 retE (fold (\<lambda>hostname. append_at hostname mergedGatewayActions) (rt_Hostnames httpRoute)
                   gatewayActions)))
             routeRLPList gatewayActions) (\<lambda>gatewayActions.
          bindE (askE (rt_Range c)) (\<lambda>ro.
            retE (Some \<lparr>FailureModeDeny = True,
              RateLimitPolicies = map (\<lambda>domain.
                  wasm_rate_limit_policy gw domain (lookup_list gatewayActions domain))
                (range_keys (ro_domains ro (Key gw)) gatewayActions)\<rparr>))))"

definition gatewayWASMPlugin :: "'w env \<Rightarrow> gateway \<Rightarrow> object_key list \<Rightarrow> ('w, wasm_plugin_object) io" where
  "gatewayWASMPlugin c gw rlpRefs =
     (let wasmPlugin = k8s_object.extend
            (new_object ''extensions.istio.io'' ''WasmPlugin'' (obj_Namespace gw)
              (sprintf ''kuadrant-%s'' [obj_Name gw]))
            \<lparr>wp_MatchLabels = obj_Labels gw, wp_Url = WASMFilterImageURL c, wp_PluginConfig = None,
             wp_Phase = ''STATS''\<rparr>
      in if length rlpRefs < 1 then retE (TagObjectToDelete wasmPlugin)
         else bindE (wasmPluginConfig c (Some gw) rlpRefs) (\<lambda>pluginConfig.
           case pluginConfig of
             None \<Rightarrow> retE (TagObjectToDelete wasmPlugin)
           | Some config \<Rightarrow>
               bindE (liftE (ToStruct (lib_Wasm c) config)) (\<lambda>pluginConfigStruct.
                 retE (wasmPlugin\<lparr>wp_PluginConfig := Some pluginConfigStruct\<rparr>))))"

section \<open>reconcileWASMPluginConf\<close>

text \<open>
  The reference lists that count for the three groups: without the policy for a gateway it left,
  with it for a gateway it is new to. \<open>append(rlpRefs[:refID], rlpRefs[refID+1:]...)\<close>, on a
  fresh slice.
\<close>

definition refs_without :: "object_key list \<Rightarrow> object_key \<Rightarrow> object_key list" where
  "refs_without rlpRefs rlpKey =
     (let refID = FindObjectKey rlpRefs rlpKey in
      if refID \<noteq> length rlpRefs then take refID rlpRefs @ drop (Suc refID) rlpRefs else rlpRefs)"

definition refs_with :: "object_key list \<Rightarrow> object_key \<Rightarrow> object_key list" where
  "refs_with rlpRefs rlpKey =
     (if \<not> ContainsObjectKey rlpRefs rlpKey then rlpRefs @ [rlpKey] else rlpRefs)"

definition reconcile_plugin :: "'w env \<Rightarrow> gateway \<Rightarrow> object_key list \<Rightarrow> ('w, unit) io" where
  "reconcile_plugin c gw rlpRefs =
     bindE (gatewayWASMPlugin c gw rlpRefs) (\<lambda>wp.
       ReconcileResource (cl_WasmPlugins c) wp (WASMPluginMutator (lib_Wasm c)))"

definition reconcileWASMPluginConf :: "'w env \<Rightarrow> RateLimitPolicy \<Rightarrow> gatewayDiff \<Rightarrow> ('w, unit) io" where
  "reconcileWASMPluginConf c rlp gwDiffObj =
     (let rlpKey = ObjectKeyFromObject rlp; J = lib_Json c in
      bindE (forE (\<lambda>leftGateway.
          reconcile_plugin c leftGateway (refs_without (elems (RLPRefs J (Some leftGateway))) rlpKey))
        (gd_LeftGateways gwDiffObj)) (\<lambda>_.
      bindE (forE (\<lambda>sameGateway.
          reconcile_plugin c sameGateway (elems (RLPRefs J (Some sameGateway))))
        (gd_SameGateways gwDiffObj)) (\<lambda>_.
      forE (\<lambda>newGateway.
          reconcile_plugin c newGateway (refs_with (elems (RLPRefs J (Some newGateway))) rlpKey))
        (gd_NewGateways gwDiffObj))))"

section \<open>What the configuration is\<close>

text \<open>The actions of a domain, in the same shape as its limits (\<open>gateway_limits_at\<close>).\<close>

definition gateway_actions_at ::
    "GatewayWrapper \<Rightarrow> RateLimitPolicy option \<Rightarrow> (RateLimitPolicy \<times> http_route) list \<Rightarrow> string \<Rightarrow> GatewayAction list" where
  "gateway_actions_at gw g routes d =
     (case g of
        None \<Rightarrow> []
      | Some p \<Rightarrow> concat (replicate (count_list (if Hostnames gw = [] then [''*''] else Hostnames gw) d)
          (GatewayActionsFromRateLimitPolicy (Some p) None))) @
     concat (map (\<lambda>(p, r). concat (replicate (count_list (rt_Hostnames r) d) (mergeGatewayActions p g r))) routes)"

definition gateway_domains ::
    "GatewayWrapper \<Rightarrow> RateLimitPolicy option \<Rightarrow> (RateLimitPolicy \<times> http_route) list \<Rightarrow> string set" where
  "gateway_domains gw g routes =
     (case g of None \<Rightarrow> {} | Some _ \<Rightarrow> if Hostnames gw = [] then {''*''} else set (Hostnames gw)) \<union>
     (\<Union>(p, r) \<in> set routes. set (rt_Hostnames r))"

text \<open>A configuration with one policy for each domain, in any order.\<close>

definition config_for ::
    "GatewayWrapper \<Rightarrow> RateLimitPolicy option \<Rightarrow> (RateLimitPolicy \<times> http_route) list \<Rightarrow> WASMPlugin \<Rightarrow> bool" where
  "config_for gw g routes config \<longleftrightarrow> FailureModeDeny config \<and>
     (\<exists>ds. distinct ds \<and> set ds = gateway_domains gw g routes \<and>
        RateLimitPolicies config = map (\<lambda>d. wasm_rate_limit_policy gw d (gateway_actions_at gw g routes d)) ds)"

lemma lookup_fold_route_actions:
  "lookup_list (fold (\<lambda>(p, r). fold (\<lambda>h. append_at h (f p r)) (rt_Hostnames r)) prs m) d =
     lookup_list m d @ concat (map (\<lambda>(p, r). concat (replicate (count_list (rt_Hostnames r) d) (f p r))) prs)"
  by (induction prs arbitrary: m) (auto simp: lookup_fold_append_at)

lemma keys_fold_append_at [simp]: "fst ` set (fold (\<lambda>h. append_at h xs) hs m) = set hs \<union> fst ` set m"
  by (induction hs arbitrary: m) auto

lemma fold_route_actions:
  "distinct (map fst m) \<Longrightarrow>
     distinct (map fst (fold (\<lambda>(p, r). fold (\<lambda>h. append_at h (f p r)) (rt_Hostnames r)) prs m))"
  "fst ` set (fold (\<lambda>(p, r). fold (\<lambda>h. append_at h (f p r)) (rt_Hostnames r)) prs m) =
     (\<Union>(p, r) \<in> set prs. set (rt_Hostnames r)) \<union> fst ` set m"
  by (induction prs arbitrary: m) (simp_all add: split_beta Un_ac)

lemma keys_add_gateway_policy:
  "fst ` set (add_gateway_policy hs vs []) = (if hs = [] then {''*''} else set hs)"
  by (simp add: add_gateway_policy_def append_at_def)

lemma wasmPluginConfig_run:
  assumes "cluster_api c V"
  shows "case resolve c (V w) refs of
      Some (g, prs) \<Rightarrow> \<exists>config. wasmPluginConfig c gw refs w = (Inr (Some config), w) \<and> config_for gw g prs config
    | None \<Rightarrow> \<exists>e. wasmPluginConfig c gw refs w = (Inl e, w)"
  using assms
proof (cases rule: load_policies_cases[where w = w and refs = refs and
    msg = "''wasmPluginConfig: multiple gateway RLP found and only one expected. rlp keys: %v''"])
  case (resolved g prs)
  let ?base = "case g of None \<Rightarrow> []
    | Some p \<Rightarrow> add_gateway_policy (Hostnames gw) (GatewayActionsFromRateLimitPolicy (Some p) None) []"
  let ?m = "fold (\<lambda>(p, r). fold (\<lambda>h. append_at h (mergeGatewayActions p g r)) (rt_Hostnames r)) prs ?base"
  let ?ds = "range_keys (ro_domains (rt_Range c w) (Key gw)) ?m"
  let ?config = "\<lparr>FailureModeDeny = True,
      RateLimitPolicies = map (\<lambda>d. wasm_rate_limit_policy gw d (lookup_list ?m d)) ?ds\<rparr>"
  have run: "wasmPluginConfig c gw refs w = (Inr (Some ?config), w)"
    using fetch_routes_run[OF assms, where w = w and ps = "map fst prs" and
        f = "\<lambda>p r. fold (\<lambda>h. append_at h (mergeGatewayActions p g r)) (rt_Hostnames r)" and s = ?base]
      resolved(2,3)
    by (simp add: wasmPluginConfig_def Let_def zip_map_fst_snd)
  have "distinct ?ds"
    unfolding distinct_range_keys by (rule fold_route_actions) (simp split: option.splits)
  moreover have "set ?ds = gateway_domains gw g prs"
    by (auto simp: gateway_domains_def fold_route_actions(2) keys_add_gateway_policy split: option.splits)
  moreover have "lookup_list ?m d = gateway_actions_at gw g prs d" for d
    by (simp add: lookup_fold_route_actions gateway_actions_at_def lookup_add_gateway_policy split: option.splits)
  ultimately have "config_for gw g prs ?config"
    unfolding config_for_def by (intro conjI exI[of _ ?ds]) simp_all
  with run resolved(1) show ?thesis by auto
next
  case (not_loaded e)
  then show ?thesis by (simp add: wasmPluginConfig_def)
next
  case (not_fetched rs g)
  then show ?thesis
    using fetch_routes_run[OF assms, where w = w and ps = rs and
        f = "\<lambda>p r. fold (\<lambda>h. append_at h (mergeGatewayActions p g r)) (rt_Hostnames r)" and
        s = "case g of None \<Rightarrow> []
          | Some p \<Rightarrow> add_gateway_policy (Hostnames gw) (GatewayActionsFromRateLimitPolicy (Some p) None) []"]
    by (auto simp: wasmPluginConfig_def Let_def)
qed

text \<open>
  The plugin configuration of a gateway is read from the cluster without writing. When the
  references resolve it denies on failure and has one policy for each domain, whatever order the
  runtime visits them in; when they do not, it is an error, never an empty configuration.
  It agrees with the limits written for the same references: the policy of a domain names the
  limits of the domain in the limitador (its rate limit domain is the namespace of every one of
  them), and every domain with limits has its policy.
\<close>

theorem wasmPluginConfig_correct:
  assumes "cluster_api c V"
  shows "snd (wasmPluginConfig c gw refs w) = w \<and>
    (case resolve c (V w) refs of
       None \<Rightarrow> \<exists>e. fst (wasmPluginConfig c gw refs w) = Inl e
     | Some (g, prs) \<Rightarrow> \<exists>config. fst (wasmPluginConfig c gw refs w) = Inr (Some config) \<and>
         config_for gw g prs config \<and>
         (\<forall>d l. l \<in> set (gateway_limits_at gw g prs d) \<longrightarrow>
            (\<exists>p \<in> set (RateLimitPolicies config). wrlp_Hostnames p = [d] \<and>
               wrlp_RateLimitDomain p = lrl_Namespace (to_rate_limit (Key gw) d l) \<and>
               wrlp_GatewayActions p = gateway_actions_at gw g prs d)))"
proof -
  have dom: "d \<in> gateway_domains gw g prs" if "l \<in> set (gateway_limits_at gw g prs d)" for d l g prs
  proof -
    have pos: "0 < count_list hs h \<longleftrightarrow> h \<in> set hs" for hs and h :: string
      by (metis bot_nat_0.not_eq_extremum count_list_0_iff)
    from that show ?thesis
      by (cases g) (fastforce simp: gateway_limits_at_def gateway_domains_def pos split: if_splits)+
  qed
  have "\<exists>p \<in> set (RateLimitPolicies config). wrlp_Hostnames p = [d] \<and>
      wrlp_RateLimitDomain p = lrl_Namespace (to_rate_limit (Key gw) d l) \<and>
      wrlp_GatewayActions p = gateway_actions_at gw g prs d"
    if "config_for gw g prs config" "l \<in> set (gateway_limits_at gw g prs d)" for g prs config d l
    using that(1) dom[OF that(2)]
    by (auto simp: config_for_def wasm_rate_limit_policy_def to_rate_limit_def)
  then show ?thesis
    using wasmPluginConfig_run[OF assms, where w = w and refs = refs and gw = gw]
    by (fastforce split: option.splits)
qed

theorem wasmPluginConfig_correct_witness:
  "\<exists>config. fst (wasmPluginConfig cluster_env (Some example_gateway) [ObjectKey ''default'' ''rlp''] example_cluster)
      = Inr (Some config) \<and>
    (\<exists>p \<in> set (RateLimitPolicies config). wrlp_Hostnames p = [''api.toystore.com''] \<and>
       wrlp_RateLimitDomain p = ''istio/gw#api.toystore.com'')"
proof -
  have "example_limit 5 None \<in> set (gateway_limits_at (Some example_gateway) None [(route_policy, example_route)]
      ''api.toystore.com'')"
    using limits_for_example[of "''api.toystore.com''"]
    by (simp add: limits_for_def resolve_example)
  moreover have "lrl_Namespace (to_rate_limit (Key (Some example_gateway)) ''api.toystore.com'' (example_limit 5 None))
      = ''istio/gw#api.toystore.com''"
    by (simp add: to_rate_limit_def example_keys MarshallNamespace_def)
  ultimately show ?thesis
    using wasmPluginConfig_correct[OF cluster_env_api, where gw = "Some example_gateway" and
        refs = "[ObjectKey ''default'' ''rlp'']" and w = example_cluster]
    by (simp add: resolve_example) metis
qed

section \<open>What reconcileWASMPluginConf leaves in the cluster\<close>

definition plugin_key :: "gateway \<Rightarrow> object_key" where
  "plugin_key gw = ObjectKey (obj_Namespace gw) (''kuadrant-'' @ obj_Name gw)"

text \<open>The gateways of a diff with the references that count for their plugins.\<close>

definition plugin_work :: "json_codec \<Rightarrow> RateLimitPolicy \<Rightarrow> gatewayDiff \<Rightarrow> (gateway \<times> object_key list) list" where
  "plugin_work J rlp diff =
     map (\<lambda>gw. (gw, refs_without (refs_of J (Some gw)) (ObjectKeyFromObject rlp))) (gd_LeftGateways diff) @
     map (\<lambda>gw. (gw, refs_of J (Some gw))) (gd_SameGateways diff) @
     map (\<lambda>gw. (gw, refs_with (refs_of J (Some gw)) (ObjectKeyFromObject rlp))) (gd_NewGateways diff)"

text \<open>
  The plugin a gateway should have for its references: none when there are none; else one whose
  configuration decodes to what the resolved policies give.
\<close>

definition plugin_as_wanted ::
    "'w env \<Rightarrow> snapshot \<Rightarrow> gateway \<times> object_key list \<Rightarrow> wasm_plugin_object option \<Rightarrow> bool" where
  "plugin_as_wanted c s gr plugin \<longleftrightarrow>
     (if snd gr = [] then plugin = None
      else \<exists>g prs config st obj. resolve c s (snd gr) = Some (g, prs) \<and>
        config_for (Some (fst gr)) g prs config \<and> ToStruct (lib_Wasm c) config = Inr st \<and>
        plugin = Some obj \<and>
        WASMPluginFromStruct (lib_Wasm c) (wp_PluginConfig obj) = WASMPluginFromStruct (lib_Wasm c) (Some st))"

lemma reconcileWASMPluginConf_alt:
  "reconcileWASMPluginConf c rlp diff =
     forE (\<lambda>gr. reconcile_plugin c (fst gr) (snd gr)) (plugin_work (lib_Json c) rlp diff)"
  by (simp add: reconcileWASMPluginConf_def plugin_work_def forE_append forE_map refs_of_def Let_def)

lemma keeps_key_WASMPluginMutator: "keeps_key (WASMPluginMutator W)"
  by (auto simp: keeps_key_def WASMPluginMutator_def ObjectKeyFromObject_def split: sum.splits if_splits)

lemma plugin_object_key:
  "ObjectKeyFromObject (k8s_object.extend (new_object grp knd ns n) x) = ObjectKey ns n"
  by (simp add: ObjectKeyFromObject_def new_object_def k8s_object.defs)

lemma WASMPluginMutator_result:
  "WASMPluginMutator W o1 d = Inr (upd, o2) \<Longrightarrow>
     WASMPluginFromStruct W (wp_PluginConfig o2) = WASMPluginFromStruct W (wp_PluginConfig d) \<and>
     (\<not> upd \<longrightarrow> o2 = o1)"
  by (auto simp: WASMPluginMutator_def split: sum.splits if_splits)

lemma content_eq_config: "content_eq a b \<Longrightarrow> wp_PluginConfig a = wp_PluginConfig b"
  unfolding content_eq_def by (drule arg_cong[where f = wp_PluginConfig]) simp

definition plugin_object :: "'w env \<Rightarrow> gateway \<Rightarrow> json option \<Rightarrow> wasm_plugin_object" where
  "plugin_object c gw config = k8s_object.extend
     (new_object ''extensions.istio.io'' ''WasmPlugin'' (obj_Namespace gw) (sprintf ''kuadrant-%s'' [obj_Name gw]))
     \<lparr>wp_MatchLabels = obj_Labels gw, wp_Url = WASMFilterImageURL c, wp_PluginConfig = config, wp_Phase = ''STATS''\<rparr>"

lemma plugin_object_sel [simp]:
  "ObjectKeyFromObject (plugin_object c gw config) = plugin_key gw"
  "\<not> IsObjectTaggedToDelete (plugin_object c gw config)"
  "wp_PluginConfig (plugin_object c gw config) = config"
  "(plugin_object c gw None)\<lparr>wp_PluginConfig := config\<rparr> = plugin_object c gw config"
  by (simp_all add: plugin_object_def plugin_object_key plugin_key_def ObjectKeyFromObject_def IsObjectTaggedToDelete_def
      annotations_of_def new_object_def k8s_object.defs)

lemma gatewayWASMPlugin_run:
  assumes "cluster_api c V"
  shows "if refs = [] then gatewayWASMPlugin c gw refs w = (Inr (TagObjectToDelete (plugin_object c gw None)), w)
    else case resolve c (V w) refs of
        None \<Rightarrow> \<exists>e. gatewayWASMPlugin c gw refs w = (Inl e, w)
      | Some (g, prs) \<Rightarrow> \<exists>config. config_for (Some gw) g prs config \<and>
          gatewayWASMPlugin c gw refs w = (case ToStruct (lib_Wasm c) config of
            Inl e \<Rightarrow> (Inl e, w) | Inr st \<Rightarrow> (Inr (plugin_object c gw (Some st)), w))"
proof -
  have alt: "gatewayWASMPlugin c gw refs =
      (if refs = [] then retE (TagObjectToDelete (plugin_object c gw None))
       else bindE (wasmPluginConfig c (Some gw) refs) (\<lambda>pluginConfig.
         case pluginConfig of
           None \<Rightarrow> retE (TagObjectToDelete (plugin_object c gw None))
         | Some config \<Rightarrow> bindE (liftE (ToStruct (lib_Wasm c) config)) (\<lambda>st.
             retE (plugin_object c gw (Some st)))))" for refs
    by (cases refs) (simp_all add: gatewayWASMPlugin_def Let_def plugin_object_def[symmetric] del: sprintf.simps)
  show ?thesis
    using wasmPluginConfig_run[OF assms, where w = w and refs = refs and gw = "Some gw"]
    by (auto simp: alt bindE_def split: option.splits sum.splits)
qed

lemma reconcile_plugin_run:
  assumes "cluster_api c V" "reconcile_plugin c gw refs w = (Inr (), w')"
  shows "V w'\<lparr>sn_WasmPlugins := Map.empty\<rparr> = V w\<lparr>sn_WasmPlugins := Map.empty\<rparr> \<and>
    (\<forall>k. k \<noteq> plugin_key gw \<longrightarrow> sn_WasmPlugins (V w') k = sn_WasmPlugins (V w) k) \<and>
    plugin_as_wanted c (V w) (gw, refs) (sn_WasmPlugins (V w') (plugin_key gw))"
proof -
  from assms(1) have api: "kind_api V sn_WasmPlugins (sn_WasmPlugins_update (\<lambda>_. Map.empty)) (cl_WasmPlugins c)"
    by (simp add: cluster_api_def)
  note rec = kind_reconcile[OF api keeps_key_WASMPluginMutator[of "lib_Wasm c"]]
  show ?thesis
  proof (cases "refs = []")
    case True
    then have "ReconcileResource (cl_WasmPlugins c) (TagObjectToDelete (plugin_object c gw None))
        (WASMPluginMutator (lib_Wasm c)) w = (Inr (), w')"
      using assms(2) gatewayWASMPlugin_run[OF assms(1), where w = w and refs = refs and gw = gw]
      by (simp add: reconcile_plugin_def)
    from rec[OF this] True show ?thesis by (simp add: plugin_as_wanted_def)
  next
    case False
    note run = gatewayWASMPlugin_run[OF assms(1), where w = w and refs = refs and gw = gw]
    obtain wp w1 where wp: "gatewayWASMPlugin c gw refs w = (Inr wp, w1)"
      using assms(2) unfolding reconcile_plugin_def by (rule bindE_InrE)
    with run False obtain g prs config where "resolve c (V w) refs = Some (g, prs)"
      "config_for (Some gw) g prs config"
      "(case ToStruct (lib_Wasm c) config of
          Inl e \<Rightarrow> (Inl e, w) | Inr st \<Rightarrow> (Inr (plugin_object c gw (Some st)), w)) = (Inr wp, w1)"
      by (auto split: option.splits)
    with wp obtain st where res: "resolve c (V w) refs = Some (g, prs)"
      "config_for (Some gw) g prs config" "ToStruct (lib_Wasm c) config = Inr st"
      "gatewayWASMPlugin c gw refs w = (Inr (plugin_object c gw (Some st)), w)"
      by (auto split: sum.splits)
    then have "ReconcileResource (cl_WasmPlugins c) (plugin_object c gw (Some st))
        (WASMPluginMutator (lib_Wasm c)) w = (Inr (), w')"
      using assms(2) by (simp add: reconcile_plugin_def)
    note rec = rec[OF this, unfolded plugin_object_sel(1)]
    from rec(3) obtain obj' where obj': "sn_WasmPlugins (V w') (plugin_key gw) = Some obj'"
      and how: "case sn_WasmPlugins (V w) (plugin_key gw) of
          None \<Rightarrow> content_eq obj' (plugin_object c gw (Some st))
        | Some obj \<Rightarrow> \<exists>update new. WASMPluginMutator (lib_Wasm c) obj (plugin_object c gw (Some st)) = Inr (update, new) \<and>
            (if update then content_eq obj' new else obj' = obj)"
      by auto
    have "WASMPluginFromStruct (lib_Wasm c) (wp_PluginConfig obj') = WASMPluginFromStruct (lib_Wasm c) (Some st)"
      using how by (auto dest!: WASMPluginMutator_result content_eq_config split: option.splits if_splits)
    with res(1-3) obj' False rec(1,2) show ?thesis by (auto simp: plugin_as_wanted_def)
  qed
qed

lemma plugin_as_wanted_cong:
  "sn_RLPs s' = sn_RLPs s \<Longrightarrow> sn_HTTPRoutes s' = sn_HTTPRoutes s \<Longrightarrow>
   plugin_as_wanted c s' gr = plugin_as_wanted c s gr"
  by (simp add: plugin_as_wanted_def resolve_cong[of s' s] fun_eq_iff)

lemma reconcileWASMPluginConf_run:
  assumes "cluster_api c V" "reconcileWASMPluginConf c rlp diff w = (Inr (), w')"
    and "distinct (map (plugin_key \<circ> fst) (plugin_work (lib_Json c) rlp diff))"
  shows "V w'\<lparr>sn_WasmPlugins := Map.empty\<rparr> = V w\<lparr>sn_WasmPlugins := Map.empty\<rparr> \<and>
    (\<forall>gr \<in> set (plugin_work (lib_Json c) rlp diff).
       plugin_as_wanted c (V w) gr (sn_WasmPlugins (V w') (plugin_key (fst gr))))"
proof (rule forE_each[OF assms(2)[unfolded reconcileWASMPluginConf_alt] _ assms(3)])
  fix gr w1 w2
  assume I: "V w1\<lparr>sn_WasmPlugins := Map.empty\<rparr> = V w\<lparr>sn_WasmPlugins := Map.empty\<rparr>"
    and run: "reconcile_plugin c (fst gr) (snd gr) w1 = (Inr (), w2)"
  have "plugin_as_wanted c (V w1) gr = plugin_as_wanted c (V w) gr"
    using arg_cong[OF I, of sn_RLPs] arg_cong[OF I, of sn_HTTPRoutes]
    by (intro plugin_as_wanted_cong) simp_all
  with reconcile_plugin_run[OF assms(1) run] I
  show "V w2\<lparr>sn_WasmPlugins := Map.empty\<rparr> = V w\<lparr>sn_WasmPlugins := Map.empty\<rparr> \<and>
      plugin_as_wanted c (V w) gr (sn_WasmPlugins (V w2) (plugin_key (fst gr))) \<and>
      (\<forall>y \<in> set (plugin_work (lib_Json c) rlp diff). (plugin_key \<circ> fst) y \<noteq> (plugin_key \<circ> fst) gr \<longrightarrow>
        plugin_as_wanted c (V w) y (sn_WasmPlugins (V w1) (plugin_key (fst y))) \<longrightarrow>
        plugin_as_wanted c (V w) y (sn_WasmPlugins (V w2) (plugin_key (fst y))))"
    by simp
qed simp


lemma plugin_work_example [go_eval]:
  "plugin_work J route_policy example_diff = [(example_gateway, [ObjectKey ''default'' ''rlp''])]"
  by (simp add: plugin_work_def example_diff_def refs_with_def example_keys)

lemma reconcileWASMPluginConf_example:
  assumes "cs_WasmPlugins w = []" "cs_RLPs w = cs_RLPs example_cluster" "cs_HTTPRoutes w = cs_HTTPRoutes example_cluster"
  shows "\<exists>ps. reconcileWASMPluginConf cluster_env route_policy example_diff w = (Inr (), w\<lparr>cs_WasmPlugins := ps\<rparr>)"
proof -
  have res: "resolve cluster_env (cluster_view w) refs = resolve cluster_env (cluster_view example_cluster) refs" for refs
    by (rule resolve_cong) (simp_all add: cluster_view_def list_view_eq assms)
  obtain config where config: "config_for (Some example_gateway) None [(route_policy, example_route)] config"
    "gatewayWASMPlugin cluster_env example_gateway [ObjectKey ''default'' ''rlp''] w =
      (case ToStruct example_wasm_codec config of Inl e \<Rightarrow> (Inl e, w)
       | Inr st \<Rightarrow> (Inr (plugin_object cluster_env example_gateway (Some st)), w))"
    using gatewayWASMPlugin_run[OF cluster_env_api, where w = w and
        refs = "[ObjectKey ''default'' ''rlp'']" and gw = example_gateway]
    by (auto simp: resolve_example res cluster_env_sel)
  then have "gatewayWASMPlugin cluster_env example_gateway [ObjectKey ''default'' ''rlp''] w =
      (Inr (plugin_object cluster_env example_gateway (Some (JString ''deny''))), w)"
    by (simp add: config_for_def ToStruct_def example_wasm_codec_def)
  moreover have "api_Get (cl_WasmPlugins cluster_env) k w = (Inl (APIError NotFound ''not found''), w)" for k
    by (simp add: go_eval assms)
  ultimately show ?thesis
    by (simp add: reconcileWASMPluginConf_alt plugin_work_example reconcile_plugin_def
        ReconcileResource_absent bindE_def)
      (auto simp: go_eval assms)
qed

lemma reconcileWASMPluginConf_example0:
  "fst (reconcileWASMPluginConf cluster_env route_policy example_diff example_cluster) = Inr ()"
  using reconcileWASMPluginConf_example[of example_cluster] by (force simp: example_cluster_sel)


end
