(* ===== verification/RLP_EnvoyFilter.thy ===== *)
theory RLP_EnvoyFilter
  imports RLP_Wasm
begin

text \<open>
  controllers/apim/ratelimitpolicy_cluster_envoy_filter.go: the EnvoyFilter that tells a gateway's
  proxies where the limitador is.
\<close>

definition gatewayRateLimitingClusterEnvoyFilter ::
    "'w env \<Rightarrow> gateway \<Rightarrow> object_key list \<Rightarrow> ('w, envoy_filter) io" where
  "gatewayRateLimitingClusterEnvoyFilter c gw rlpRefs =
     (let ef = k8s_object.extend
            (new_object ''networking.istio.io'' ''EnvoyFilter'' (obj_Namespace gw)
              (sprintf ''kuadrant-ratelimiting-cluster-%s'' [obj_Name gw]))
            \<lparr>ef_WorkloadLabels = Some (obj_Labels gw), ef_ConfigPatches = None, ef_Priority = 0\<rparr>
      in if length rlpRefs < 1 then retE (TagObjectToDelete ef)
         else bindE (api_Get (cl_Limitadors c) (limitadorKey c)) (\<lambda>limitador.
           if \<not> lib_LimitadorReady c (lim_Status limitador) then
             throwE (Errorf ''limitador Status not ready'' [])
           else bindE (liftE (LimitadorClusterPatch (lib_PatchUnmarshal c)
                 (ls_ServiceHost (lim_Status limitador)) (ls_ServiceGRPC (lim_Status limitador))))
               (\<lambda>configPatches. retE (ef\<lparr>ef_ConfigPatches := configPatches\<rparr>))))"

definition reconcile_filter :: "'w env \<Rightarrow> gateway \<Rightarrow> object_key list \<Rightarrow> ('w, unit) io" where
  "reconcile_filter c gw rlpRefs =
     bindE (gatewayRateLimitingClusterEnvoyFilter c gw rlpRefs) (\<lambda>ef.
       ReconcileResource (cl_EnvoyFilters c) ef AlwaysUpdateEnvoyFilter)"

text \<open>Nothing is done for the gateways that stay the same.\<close>

definition reconcileRateLimitingClusterEnvoyFilter ::
    "'w env \<Rightarrow> RateLimitPolicy \<Rightarrow> gatewayDiff \<Rightarrow> ('w, unit) io" where
  "reconcileRateLimitingClusterEnvoyFilter c rlp gwDiffObj =
     (let rlpKey = ObjectKeyFromObject rlp; J = lib_Json c in
      bindE (forE (\<lambda>leftGateway.
          reconcile_filter c leftGateway (refs_without (elems (RLPRefs J (Some leftGateway))) rlpKey))
        (gd_LeftGateways gwDiffObj)) (\<lambda>_.
      forE (\<lambda>newGateway.
          reconcile_filter c newGateway (refs_with (elems (RLPRefs J (Some newGateway))) rlpKey))
        (gd_NewGateways gwDiffObj)))"

section \<open>What it leaves in the cluster\<close>

definition filter_key :: "gateway \<Rightarrow> object_key" where
  "filter_key gw = ObjectKey (obj_Namespace gw) (''kuadrant-ratelimiting-cluster-'' @ obj_Name gw)"

definition filter_work :: "json_codec \<Rightarrow> RateLimitPolicy \<Rightarrow> gatewayDiff \<Rightarrow> (gateway \<times> object_key list) list" where
  "filter_work J rlp diff =
     map (\<lambda>gw. (gw, refs_without (refs_of J (Some gw)) (ObjectKeyFromObject rlp))) (gd_LeftGateways diff) @
     map (\<lambda>gw. (gw, refs_with (refs_of J (Some gw)) (ObjectKeyFromObject rlp))) (gd_NewGateways diff)"

text \<open>
  The filter a gateway should have: none without references; else one for the gateway's workload
  whose patch names the limitador's host and port, the limitador being ready.
\<close>

definition filter_as_wanted ::
    "'w env \<Rightarrow> snapshot \<Rightarrow> gateway \<times> object_key list \<Rightarrow> envoy_filter option \<Rightarrow> bool" where
  "filter_as_wanted c s gr ef \<longleftrightarrow>
     (if snd gr = [] then ef = None
      else \<exists>lim patches obj. sn_Limitadors s (limitadorKey c) = Some lim \<and>
        lib_LimitadorReady c (lim_Status lim) \<and>
        LimitadorClusterPatch (lib_PatchUnmarshal c) (ls_ServiceHost (lim_Status lim))
          (ls_ServiceGRPC (lim_Status lim)) = Inr patches \<and>
        ef = Some obj \<and> ef_ConfigPatches obj = patches \<and>
        ef_WorkloadLabels obj = Some (obj_Labels (fst gr)))"

lemma reconcileEnvoyFilter_alt:
  "reconcileRateLimitingClusterEnvoyFilter c rlp diff =
     forE (\<lambda>gr. reconcile_filter c (fst gr) (snd gr)) (filter_work (lib_Json c) rlp diff)"
  by (simp add: reconcileRateLimitingClusterEnvoyFilter_def filter_work_def forE_append forE_map refs_of_def
      Let_def)

definition filter_object :: "gateway \<Rightarrow> envoy_config_patch slice \<Rightarrow> envoy_filter" where
  "filter_object gw patches = k8s_object.extend
     (new_object ''networking.istio.io'' ''EnvoyFilter'' (obj_Namespace gw)
       (sprintf ''kuadrant-ratelimiting-cluster-%s'' [obj_Name gw]))
     \<lparr>ef_WorkloadLabels = Some (obj_Labels gw), ef_ConfigPatches = patches, ef_Priority = 0\<rparr>"

lemma filter_object_sel [simp]:
  "ObjectKeyFromObject (filter_object gw patches) = filter_key gw"
  "\<not> IsObjectTaggedToDelete (filter_object gw patches)"
  "ef_ConfigPatches (filter_object gw patches) = patches"
  "ef_WorkloadLabels (filter_object gw patches) = Some (obj_Labels gw)"
  "(filter_object gw None)\<lparr>ef_ConfigPatches := patches\<rparr> = filter_object gw patches"
  by (simp_all add: filter_object_def filter_key_def ObjectKeyFromObject_def IsObjectTaggedToDelete_def
      annotations_of_def new_object_def k8s_object.defs)

lemma gatewayEnvoyFilter_alt:
  "gatewayRateLimitingClusterEnvoyFilter c gw refs =
     (if refs = [] then retE (TagObjectToDelete (filter_object gw None))
      else bindE (api_Get (cl_Limitadors c) (limitadorKey c)) (\<lambda>lim.
        if \<not> lib_LimitadorReady c (lim_Status lim) then throwE (Errorf ''limitador Status not ready'' [])
        else bindE (liftE (LimitadorClusterPatch (lib_PatchUnmarshal c)
              (ls_ServiceHost (lim_Status lim)) (ls_ServiceGRPC (lim_Status lim))))
            (\<lambda>patches. retE (filter_object gw patches))))"
  by (cases refs) (simp_all add: gatewayRateLimitingClusterEnvoyFilter_def Let_def
      filter_object_def[symmetric] del: sprintf.simps cong: if_cong)

lemma keeps_key_AlwaysUpdateEnvoyFilter: "keeps_key AlwaysUpdateEnvoyFilter"
  by (auto simp: keeps_key_def AlwaysUpdateEnvoyFilter_def ObjectKeyFromObject_def)

lemma content_eq_filter:
  "content_eq a b \<Longrightarrow> ef_ConfigPatches a = ef_ConfigPatches b \<and> ef_WorkloadLabels a = ef_WorkloadLabels b"
  unfolding content_eq_def
  by (frule arg_cong[where f = ef_ConfigPatches], drule arg_cong[where f = ef_WorkloadLabels]) simp

lemma reconcile_filter_run:
  assumes "cluster_api c V" "reconcile_filter c gw refs w = (Inr (), w')"
  shows "V w'\<lparr>sn_EnvoyFilters := Map.empty\<rparr> = V w\<lparr>sn_EnvoyFilters := Map.empty\<rparr> \<and>
    (\<forall>k. k \<noteq> filter_key gw \<longrightarrow> sn_EnvoyFilters (V w') k = sn_EnvoyFilters (V w) k) \<and>
    filter_as_wanted c (V w) (gw, refs) (sn_EnvoyFilters (V w') (filter_key gw))"
proof -
  from assms(1) have api: "kind_api V sn_EnvoyFilters (sn_EnvoyFilters_update (\<lambda>_. Map.empty)) (cl_EnvoyFilters c)"
    by (simp add: cluster_api_def)
  note rec = kind_reconcile[OF api keeps_key_AlwaysUpdateEnvoyFilter]
  show ?thesis
  proof (cases "refs = []")
    case True
    then have "ReconcileResource (cl_EnvoyFilters c) (TagObjectToDelete (filter_object gw None))
        AlwaysUpdateEnvoyFilter w = (Inr (), w')"
      using assms(2) by (simp add: reconcile_filter_def gatewayEnvoyFilter_alt)
    from rec[OF this] True show ?thesis by (simp add: filter_as_wanted_def)
  next
    case False
    obtain lim where get: "api_Get (cl_Limitadors c) (limitadorKey c) w = (Inr lim, w)"
      and lim: "sn_Limitadors (V w) (limitadorKey c) = Some lim"
      using assms(2) False
      by (cases rule: store_Get_cases[OF cluster_store(5)[OF assms(1)], where w = w and k = "limitadorKey c"])
        (auto simp: reconcile_filter_def gatewayEnvoyFilter_alt)
    with assms(2) False obtain patches where ready: "lib_LimitadorReady c (lim_Status lim)"
      and patches: "LimitadorClusterPatch (lib_PatchUnmarshal c) (ls_ServiceHost (lim_Status lim))
          (ls_ServiceGRPC (lim_Status lim)) = Inr patches"
      and run: "ReconcileResource (cl_EnvoyFilters c) (filter_object gw patches) AlwaysUpdateEnvoyFilter w
        = (Inr (), w')"
      by (auto simp: reconcile_filter_def gatewayEnvoyFilter_alt bindE_def split: if_splits sum.splits)
    note rec = rec[OF run, unfolded filter_object_sel(1)]
    from rec(3) obtain obj' where obj': "sn_EnvoyFilters (V w') (filter_key gw) = Some obj'"
      and how: "case sn_EnvoyFilters (V w) (filter_key gw) of
          None \<Rightarrow> content_eq obj' (filter_object gw patches)
        | Some obj \<Rightarrow> \<exists>update new. AlwaysUpdateEnvoyFilter obj (filter_object gw patches) = Inr (update, new) \<and>
            (if update then content_eq obj' new else obj' = obj)"
      by auto
    have "ef_ConfigPatches obj' = patches \<and> ef_WorkloadLabels obj' = Some (obj_Labels gw)"
      using how by (auto simp: AlwaysUpdateEnvoyFilter_def dest!: content_eq_filter split: option.splits)
    with lim ready patches obj' False rec(1,2) show ?thesis by (auto simp: filter_as_wanted_def)
  qed
qed

lemma filter_as_wanted_cong:
  "sn_Limitadors s' = sn_Limitadors s \<Longrightarrow> filter_as_wanted c s' gr = filter_as_wanted c s gr"
  by (simp add: filter_as_wanted_def fun_eq_iff)

lemma reconcileEnvoyFilter_run:
  assumes "cluster_api c V" "reconcileRateLimitingClusterEnvoyFilter c rlp diff w = (Inr (), w')"
    and "distinct (map (filter_key \<circ> fst) (filter_work (lib_Json c) rlp diff))"
  shows "V w'\<lparr>sn_EnvoyFilters := Map.empty\<rparr> = V w\<lparr>sn_EnvoyFilters := Map.empty\<rparr> \<and>
    (\<forall>gr \<in> set (filter_work (lib_Json c) rlp diff).
       filter_as_wanted c (V w) gr (sn_EnvoyFilters (V w') (filter_key (fst gr))))"
proof (rule forE_each[OF assms(2)[unfolded reconcileEnvoyFilter_alt] _ assms(3)])
  fix gr w1 w2
  assume I: "V w1\<lparr>sn_EnvoyFilters := Map.empty\<rparr> = V w\<lparr>sn_EnvoyFilters := Map.empty\<rparr>"
    and run: "reconcile_filter c (fst gr) (snd gr) w1 = (Inr (), w2)"
  have "filter_as_wanted c (V w1) gr = filter_as_wanted c (V w) gr"
    using arg_cong[OF I, of sn_Limitadors] by (intro filter_as_wanted_cong) simp
  with reconcile_filter_run[OF assms(1) run] I
  show "V w2\<lparr>sn_EnvoyFilters := Map.empty\<rparr> = V w\<lparr>sn_EnvoyFilters := Map.empty\<rparr> \<and>
      filter_as_wanted c (V w) gr (sn_EnvoyFilters (V w2) (filter_key (fst gr))) \<and>
      (\<forall>y \<in> set (filter_work (lib_Json c) rlp diff). (filter_key \<circ> fst) y \<noteq> (filter_key \<circ> fst) gr \<longrightarrow>
        filter_as_wanted c (V w) y (sn_EnvoyFilters (V w1) (filter_key (fst y))) \<longrightarrow>
        filter_as_wanted c (V w) y (sn_EnvoyFilters (V w2) (filter_key (fst y))))"
    by simp
qed simp

text \<open>
  C21: When reconcileRateLimitingClusterEnvoyFilter succeeds, every gateway the policy left and
  every gateway it is new to has the EnvoyFilter its references call for: none when there is no
  reference any more, else one for the gateway's workload that names the host and the port of the
  limitador, which is ready. Only filters were written.
\<close>

theorem reconcileEnvoyFilter_correct:
  assumes "cluster_api c V" "reconcileRateLimitingClusterEnvoyFilter c rlp diff w = (Inr (), w')"
    and "distinct (map (filter_key \<circ> fst) (filter_work (lib_Json c) rlp diff))"
  shows "V w'\<lparr>sn_EnvoyFilters := Map.empty\<rparr> = V w\<lparr>sn_EnvoyFilters := Map.empty\<rparr> \<and>
    (\<forall>gr \<in> set (filter_work (lib_Json c) rlp diff).
       filter_as_wanted c (V w) gr (sn_EnvoyFilters (V w') (filter_key (fst gr))))"
  by (rule reconcileEnvoyFilter_run[OF assms])

lemma filter_work_example [go_eval]:
  "filter_work J route_policy example_diff = [(example_gateway, [ObjectKey ''default'' ''rlp''])]"
  by (simp add: filter_work_def example_diff_def refs_with_def example_keys)

lemma reconcileEnvoyFilter_example:
  assumes "cs_EnvoyFilters w = []" "cs_Limitadors w = [example_limitador\<lparr>lim_Limits := ls\<rparr>]"
  shows "\<exists>fs. reconcileRateLimitingClusterEnvoyFilter cluster_env route_policy example_diff w =
    (Inr (), w\<lparr>cs_EnvoyFilters := fs\<rparr>)"
proof -
  let ?lim = "example_limitador\<lparr>lim_Limits := ls\<rparr>"
  have key: "ObjectKeyFromObject ?lim = ObjectKey ''kuadrant-system'' ''limitador''"
    using example_keys(5) by (simp add: ObjectKeyFromObject_def)
  have "api_Get (cl_Limitadors cluster_env) (limitadorKey cluster_env) w = (Inr ?lim, w)"
    by (simp add: go_eval limitadorKey_def assms key)
  moreover have "lib_LimitadorReady cluster_env (lim_Status ?lim)"
    by (simp add: cluster_env_def example_limitador_def example_condition_def new_object_def k8s_object.defs)
  moreover obtain patches where "LimitadorClusterPatch (lib_PatchUnmarshal cluster_env)
      (ls_ServiceHost (lim_Status ?lim)) (ls_ServiceGRPC (lim_Status ?lim)) = Inr patches"
    by (simp add: LimitadorClusterPatch_def cluster_env_def Let_def)
  moreover have "api_Get (cl_EnvoyFilters cluster_env) k w = (Inl (APIError NotFound ''not found''), w)" for k
    by (simp add: go_eval assms)
  ultimately show ?thesis
    by (simp add: reconcileEnvoyFilter_alt filter_work_example reconcile_filter_def gatewayEnvoyFilter_alt
        ReconcileResource_absent bindE_def)
      (auto simp: go_eval assms)
qed

lemma reconcileEnvoyFilter_example0:
  "fst (reconcileRateLimitingClusterEnvoyFilter cluster_env route_policy example_diff example_cluster) = Inr ()"
  using reconcileEnvoyFilter_example[of example_cluster "[]"]
  by (force simp: example_cluster_sel example_limitador_def new_object_def k8s_object.defs)

theorem reconcileEnvoyFilter_correct_witness:
  "filter_as_wanted cluster_env (cluster_view example_cluster) (example_gateway, [ObjectKey ''default'' ''rlp''])
     (sn_EnvoyFilters (cluster_view (snd (reconcileRateLimitingClusterEnvoyFilter cluster_env route_policy
        example_diff example_cluster))) (filter_key example_gateway))"
proof -
  let ?r = "reconcileRateLimitingClusterEnvoyFilter cluster_env route_policy example_diff example_cluster"
  have run: "?r = (Inr (), snd ?r)" by (simp add: prod_eq_iff reconcileEnvoyFilter_example0)
  have "distinct (map (filter_key \<circ> fst) (filter_work (lib_Json cluster_env) route_policy example_diff))"
    by (simp add: filter_work_example)
  from reconcileEnvoyFilter_correct[OF cluster_env_api run this] show ?thesis
    by (simp add: filter_work_example)
qed

end
