(* ===== verification/RLP_Gateways.thy ===== *)
theory RLP_Gateways
  imports RLP_EnvoyFilter
begin

text \<open>
  controllers/apim/ratelimitpolicy_controller.go, the part that reconciles the gateways: which
  gateways a policy reaches (computeGatewayDiffs), the references to the policy in their
  annotations (reconcileGatewayRLPReferences), and the four steps in their order
  (reconcileGatewayDiffs), with reconcileSpec, which runs them after the checks.
\<close>

section \<open>Operations\<close>

text \<open>The result is never nil, so the callers' tests for nil never fire.\<close>

definition computeGatewayDiffs :: "'w env \<Rightarrow> RateLimitPolicy \<Rightarrow> ('w, gatewayDiff) io" where
  "computeGatewayDiffs c rlp =
     bindE (TargetedGatewayKeys c (rlp_TargetRef rlp) (obj_Namespace rlp)) (\<lambda>gwKeys.
     bindE (cl_ListGateways c) (\<lambda>allGwList.
       retE \<lparr>gd_NewGateways = NewGateways (lib_Json c) allGwList (ObjectKeyFromObject rlp) gwKeys,
             gd_SameGateways = SameGateways (lib_Json c) allGwList (ObjectKeyFromObject rlp) gwKeys,
             gd_LeftGateways = LeftGateways (lib_Json c) allGwList (ObjectKeyFromObject rlp) gwKeys\<rparr>))"

definition reconcileDirectBackReference :: "'w env \<Rightarrow> RateLimitPolicy \<Rightarrow> ('w, unit) io" where
  "reconcileDirectBackReference c rlp =
     ReconcileTargetBackReference c (ObjectKeyFromObject rlp) (rlp_TargetRef rlp) (obj_Namespace rlp)
       RateLimitPolicyBackRefAnnotation"

text \<open>
  The operations change the gateway they have a pointer to, and so does the update, which writes
  the server's answer into it: the result is the gateway the diff holds afterwards.
\<close>

definition update_if_changed :: "'w env \<Rightarrow> gateway \<Rightarrow> bool \<times> GatewayWrapper \<Rightarrow> ('w, gateway) io" where
  "update_if_changed c gw result =
     (case result of
        (True, Some gw') \<Rightarrow> UpdateResource (cl_Gateways c) gw'
      | _ \<Rightarrow> retE gw)"

definition reconcileGatewayRLPReferences :: "'w env \<Rightarrow> RateLimitPolicy \<Rightarrow> gatewayDiff \<Rightarrow> ('w, gatewayDiff) io" where
  "reconcileGatewayRLPReferences c rlp gwDiffObj =
     bindE (mapE (\<lambda>leftGateway. update_if_changed c leftGateway
         (DeleteRLP (lib_Json c) (ObjectKeyFromObject rlp) (Some leftGateway)))
       (gd_LeftGateways gwDiffObj)) (\<lambda>lefts.
     bindE (mapE (\<lambda>newGateway. update_if_changed c newGateway
         (AddRLP (lib_Json c) (ObjectKeyFromObject rlp) (Some newGateway)))
       (gd_NewGateways gwDiffObj)) (\<lambda>news.
     retE (gwDiffObj\<lparr>gd_LeftGateways := lefts, gd_NewGateways := news\<rparr>)))"

definition rule_hosts :: "RateLimitPolicy \<Rightarrow> string list" where
  "rule_hosts rlp =
     concat (map (\<lambda>rl. concat (map (\<lambda>rule. elems (Hosts rule)) (elems (Rules rl))))
       (elems (rlps_RateLimits (rlp_Spec rlp))))"

definition validateRuleHosts :: "'w env \<Rightarrow> RateLimitPolicy \<Rightarrow> ('w, unit) io" where
  "validateRuleHosts c rlp =
     bindE (TargetHostnames c (rlp_TargetRef rlp) (obj_Namespace rlp)) (\<lambda>targetHostnames.
       let ruleHosts = rule_hosts rlp;
           (valid, invalidHost) = ValidSubdomains targetHostnames ruleHosts
       in if \<not> valid then throwE (Errorf ''rule host (%s) not valid'' [invalidHost]) else retE ())"

definition reconcileGatewayDiffs :: "'w env \<Rightarrow> RateLimitPolicy \<Rightarrow> ('w, unit) io" where
  "reconcileGatewayDiffs c rlp =
     bindE (computeGatewayDiffs c rlp) (\<lambda>gatewayDiffObj.
     bindE (reconcileLimits c rlp gatewayDiffObj) (\<lambda>_.
     bindE (reconcileRateLimitingClusterEnvoyFilter c rlp gatewayDiffObj) (\<lambda>_.
     bindE (reconcileWASMPluginConf c rlp gatewayDiffObj) (\<lambda>_.
     bindE (reconcileGatewayRLPReferences c rlp gatewayDiffObj) (\<lambda>_. retE ())))))"

definition reconcileSpec :: "'w env \<Rightarrow> RateLimitPolicy \<Rightarrow> ('w, bool) io" where
  "reconcileSpec c rlp =
     (case Validate rlp of
        Some err \<Rightarrow> throwE err
      | None \<Rightarrow>
          bindE (validateRuleHosts c rlp) (\<lambda>_.
          bindE (reconcileDirectBackReference c rlp) (\<lambda>_.
          bindE (reconcileGatewayDiffs c rlp) (\<lambda>_. retE False))))"

section \<open>Rule hosts\<close>

lemma ValidSubdomains_fst: "fst (ValidSubdomains ds ss) \<longleftrightarrow> list_all (covered_by_any ds) ss"
  by (induction ss) auto

section \<open>The references of the gateways\<close>

text \<open>
  The gateways whose references a run changes, each with what AddRLP or DeleteRLP makes of it: a
  flag, and the gateway with the changed annotation.
\<close>

type_synonym reference_job = "gateway \<times> bool \<times> GatewayWrapper"

definition reference_work :: "json_codec \<Rightarrow> RateLimitPolicy \<Rightarrow> gatewayDiff \<Rightarrow> reference_job list" where
  "reference_work J rlp diff =
     map (\<lambda>gw. (gw, DeleteRLP J (ObjectKeyFromObject rlp) (Some gw))) (gd_LeftGateways diff) @
     map (\<lambda>gw. (gw, AddRLP J (ObjectKeyFromObject rlp) (Some gw))) (gd_NewGateways diff)"

definition job_ok :: "reference_job \<Rightarrow> bool" where
  "job_ok job \<longleftrightarrow> (case job of (gw, changed, result) \<Rightarrow>
     \<exists>y. result = Some y \<and> ObjectKeyFromObject y = ObjectKeyFromObject gw \<and> (\<not> changed \<longrightarrow> y = gw))"

lemma DeleteRLP_job: "job_ok (gw, DeleteRLP J k (Some gw))"
  by (auto simp: job_ok_def DeleteRLP_def Let_def split: option.splits)

lemma AddRLP_job: "job_ok (gw, AddRLP J k (Some gw))"
  by (auto simp: job_ok_def AddRLP_def split: option.splits)

lemma reference_work_ok: "job \<in> set (reference_work J rlp diff) \<Longrightarrow> job_ok job"
  by (auto simp: reference_work_def DeleteRLP_job AddRLP_job)

lemma update_if_changed_run:
  assumes "cluster_api c V" "update_if_changed c gw (changed, Some y) w = (Inr gw', w')"
    "ObjectKeyFromObject y = ObjectKeyFromObject gw"
  shows "if changed then V w'\<lparr>sn_Gateways := Map.empty\<rparr> = V w\<lparr>sn_Gateways := Map.empty\<rparr> \<and>
      sn_Gateways (V w') = (sn_Gateways (V w))(ObjectKeyFromObject gw \<mapsto> gw') \<and> content_eq gw' y
    else w' = w \<and> gw' = gw"
proof (cases changed)
  case True
  have api: "kind_api V sn_Gateways (sn_Gateways_update (\<lambda>_. Map.empty)) (cl_Gateways c)"
    using assms(1) by (simp add: cluster_api_def)
  from True assms(2) have "api_Update (cl_Gateways c) y w = (Inr gw', w')"
    by (simp add: update_if_changed_def UpdateResource_def)
  from kind_update[OF api this] assms(3) True show ?thesis by simp
next
  case False
  with assms(2) show ?thesis by (simp add: update_if_changed_def)
qed

text \<open>What the world looks like while the jobs run: a job's gateway is as it was or as it will be.\<close>

definition jobs_running :: "reference_job list \<Rightarrow> snapshot \<Rightarrow> snapshot \<Rightarrow> bool" where
  "jobs_running jobs s0 s \<longleftrightarrow> s\<lparr>sn_Gateways := Map.empty\<rparr> = s0\<lparr>sn_Gateways := Map.empty\<rparr> \<and>
     (\<forall>k. k \<notin> (ObjectKeyFromObject \<circ> fst) ` set jobs \<longrightarrow> sn_Gateways s k = sn_Gateways s0 k) \<and>
     (\<forall>(gw, changed, result) \<in> set jobs. \<exists>x. sn_Gateways s (ObjectKeyFromObject gw) = Some x \<and>
        (x = gw \<or> content_eq x (the result)))"

definition job_done :: "reference_job \<Rightarrow> snapshot \<Rightarrow> bool" where
  "job_done job s \<longleftrightarrow> (case job of (gw, changed, result) \<Rightarrow>
     \<exists>x. sn_Gateways s (ObjectKeyFromObject gw) = Some x \<and> content_eq x (the result))"

lemma run_job:
  assumes "cluster_api c V" "distinct (map (ObjectKeyFromObject \<circ> fst) jobs)" "(gw, r) \<in> set jobs"
    and "job_ok (gw, r)" "jobs_running jobs s0 (V w)" "update_if_changed c gw r w = (Inr gw', w')"
  shows "jobs_running jobs s0 (V w') \<and> job_done (gw, r) (V w') \<and>
    (\<forall>job \<in> set jobs. ObjectKeyFromObject (fst job) \<noteq> ObjectKeyFromObject gw \<longrightarrow>
       job_done job (V w) \<longrightarrow> job_done job (V w'))"
proof -
  obtain changed y where r: "r = (changed, Some y)" and y: "ObjectKeyFromObject y = ObjectKeyFromObject gw"
      "\<not> changed \<longrightarrow> y = gw"
    using assms(4) by (cases r) (auto simp: job_ok_def)
  note upd = update_if_changed_run[OF assms(1) assms(6)[unfolded r] y(1)]
  show ?thesis
  proof (cases changed)
    case False
    with upd have "w' = w" by simp
    moreover obtain x where "sn_Gateways (V w) (ObjectKeyFromObject gw) = Some x" "x = gw \<or> content_eq x y"
      using assms(3,5) r by (fastforce simp: jobs_running_def)
    ultimately show ?thesis
      using assms(5) y(2) False by (auto simp: job_done_def r)
  next
    case True
    with upd have s: "V w'\<lparr>sn_Gateways := Map.empty\<rparr> = V w\<lparr>sn_Gateways := Map.empty\<rparr>"
      "sn_Gateways (V w') = (sn_Gateways (V w))(ObjectKeyFromObject gw \<mapsto> gw')" "content_eq gw' y"
      by simp_all
    have other: "ObjectKeyFromObject (fst job) = ObjectKeyFromObject gw \<Longrightarrow> job = (gw, r)" if "job \<in> set jobs" for job
      using assms(2,3) that eq_key_imp_eq_value by (auto simp: distinct_map inj_on_def)
    have "\<exists>x. sn_Gateways (V w') (ObjectKeyFromObject g) = Some x \<and> (x = g \<or> content_eq x (the res))"
      if job: "(g, ch, res) \<in> set jobs" for g ch res
    proof (cases "ObjectKeyFromObject g = ObjectKeyFromObject gw")
      case True
      with other[OF job] r have "res = Some y" by simp
      with True s show ?thesis by simp
    next
      case False
      with assms(5) job s(2) show ?thesis by (fastforce simp: jobs_running_def)
    qed
    moreover have "sn_Gateways (V w') k = sn_Gateways s0 k"
      if "k \<notin> (ObjectKeyFromObject \<circ> fst) ` set jobs" for k
      using that assms(3,5) s(2) by (force simp: jobs_running_def)
    ultimately have "jobs_running jobs s0 (V w')"
      using assms(5) s(1) by (auto simp: jobs_running_def)
    then show ?thesis using s r by (auto simp: job_done_def)
  qed
qed

lemma reconcileReferences_run:
  assumes "cluster_api c V" "reconcileGatewayRLPReferences c rlp diff w = (Inr diff', w')"
    and "distinct (map ObjectKeyFromObject (gd_LeftGateways diff @ gd_NewGateways diff))"
    and "list_all (\<lambda>gw. sn_Gateways (V w) (ObjectKeyFromObject gw) = Some gw)
      (gd_LeftGateways diff @ gd_NewGateways diff)"
  shows "jobs_running (reference_work (lib_Json c) rlp diff) (V w) (V w') \<and>
    (\<forall>job \<in> set (reference_work (lib_Json c) rlp diff). job_done job (V w'))"
proof -
  let ?jobs = "reference_work (lib_Json c) rlp diff"
  let ?f = "\<lambda>job. update_if_changed c (fst job) (snd job)"
  let ?k = "ObjectKeyFromObject rlp" and ?J = "lib_Json c"
  from assms(2) obtain lefts w1 news where
    "mapE (\<lambda>gw. update_if_changed c gw (DeleteRLP ?J ?k (Some gw))) (gd_LeftGateways diff) w = (Inr lefts, w1)"
    "mapE (\<lambda>gw. update_if_changed c gw (AddRLP ?J ?k (Some gw))) (gd_NewGateways diff) w1 = (Inr news, w')"
    by (auto simp: reconcileGatewayRLPReferences_def elim!: bindE_InrE)
  then have "mapE ?f (map (\<lambda>gw. (gw, DeleteRLP ?J ?k (Some gw))) (gd_LeftGateways diff)) w = (Inr lefts, w1)"
    "mapE ?f (map (\<lambda>gw. (gw, AddRLP ?J ?k (Some gw))) (gd_NewGateways diff)) w1 = (Inr news, w')"
    by (simp_all add: mapE_map)
  from mapE_append[OF this] have run: "forE (\<lambda>job. bindE (?f job) (\<lambda>_. retE ())) ?jobs w = (Inr (), w')"
    unfolding reference_work_def by (rule mapE_forE)
  have dist: "distinct (map (ObjectKeyFromObject \<circ> fst) ?jobs)"
    using assms(3) by (simp add: reference_work_def comp_def)
  have start: "jobs_running ?jobs (V w) (V w)"
    using assms(4) by (auto simp: jobs_running_def reference_work_def list_all_iff)
  show ?thesis
  proof (rule forE_each[OF run _ dist, where I = "\<lambda>w1. jobs_running ?jobs (V w) (V w1)" and
      Q = "\<lambda>job w1. job_done job (V w1)"])
    show "jobs_running ?jobs (V w) (V w)" by (rule start)
  next
    fix job w1 w2
    assume job: "job \<in> set ?jobs" and I: "jobs_running ?jobs (V w) (V w1)"
      and "bindE (?f job) (\<lambda>_. retE ()) w1 = (Inr (), w2)"
    then obtain gw' where "update_if_changed c (fst job) (snd job) w1 = (Inr gw', w2)"
      by (auto elim!: bindE_InrE)
    from run_job[OF assms(1) dist _ _ I this] job reference_work_ok[OF job]
    show "jobs_running ?jobs (V w) (V w2) \<and> job_done job (V w2) \<and>
        (\<forall>y \<in> set ?jobs. (ObjectKeyFromObject \<circ> fst) y \<noteq> (ObjectKeyFromObject \<circ> fst) job \<longrightarrow>
          job_done y (V w1) \<longrightarrow> job_done y (V w2))"
      by simp
  qed
qed

text \<open>The gateways of the diff that is handed back, with the references they have now.\<close>

lemma update_if_changed_content:
  assumes "cluster_api c V" "job_ok (gw, r)" "update_if_changed c gw r w = (Inr gw', w')"
  shows "content_eq gw' (the (snd r))"
proof -
  obtain changed y where r: "r = (changed, Some y)" "ObjectKeyFromObject y = ObjectKeyFromObject gw"
      "\<not> changed \<longrightarrow> y = gw"
    using assms(2) by (cases r) (auto simp: job_ok_def)
  with update_if_changed_run[OF assms(1) assms(3)[unfolded r(1)] r(2)] show ?thesis
    by (cases changed) simp_all
qed

lemma reconcileReferences_result:
  assumes "cluster_api c V" "reconcileGatewayRLPReferences c rlp diff w = (Inr diff', w')"
  shows "gd_SameGateways diff' = gd_SameGateways diff \<and>
    list_all2 (\<lambda>gw gw'. content_eq gw' (the (snd (DeleteRLP (lib_Json c) (ObjectKeyFromObject rlp) (Some gw)))))
      (gd_LeftGateways diff) (gd_LeftGateways diff') \<and>
    list_all2 (\<lambda>gw gw'. content_eq gw' (the (snd (AddRLP (lib_Json c) (ObjectKeyFromObject rlp) (Some gw)))))
      (gd_NewGateways diff) (gd_NewGateways diff')"
proof -
  let ?k = "ObjectKeyFromObject rlp" and ?J = "lib_Json c"
  from assms(2) obtain lefts w1 news where runs:
    "mapE (\<lambda>gw. update_if_changed c gw (DeleteRLP ?J ?k (Some gw))) (gd_LeftGateways diff) w = (Inr lefts, w1)"
    "mapE (\<lambda>gw. update_if_changed c gw (AddRLP ?J ?k (Some gw))) (gd_NewGateways diff) w1 = (Inr news, w')"
    and diff': "diff' = diff\<lparr>gd_LeftGateways := lefts, gd_NewGateways := news\<rparr>"
    by (auto simp: reconcileGatewayRLPReferences_def elim!: bindE_InrE)
  have "list_all2 (\<lambda>gw gw'. content_eq gw' (the (snd (DeleteRLP ?J ?k (Some gw))))) (gd_LeftGateways diff) lefts"
    by (rule list_all2_mono[OF mapE_results[OF runs(1)]])
      (blast intro: update_if_changed_content[OF assms(1) DeleteRLP_job])
  moreover have "list_all2 (\<lambda>gw gw'. content_eq gw' (the (snd (AddRLP ?J ?k (Some gw))))) (gd_NewGateways diff) news"
    by (rule list_all2_mono[OF mapE_results[OF runs(2)]])
      (blast intro: update_if_changed_content[OF assms(1) AddRLP_job])
  ultimately show ?thesis by (simp add: diff')
qed

lemma content_eq_refs:
  "content_eq a b \<Longrightarrow> refs_of J (Some a) = refs_of J (Some b)"
  by (frule content_eq_sel(1)) (simp add: refs_of_def RLPRefs_def annotations_of_def)

section \<open>What computeGatewayDiffs finds\<close>

lemma TargetedGatewayKeys_pure:
  assumes "cluster_api c V"
  shows "snd (TargetedGatewayKeys c tr ns w) = w"
  by (cases rule: FetchValidHTTPRoute_run[OF cluster_store(4)[OF assms], of w "target_key tr ns"])
    (auto simp: TargetedGatewayKeys_def)

lemma computeGatewayDiffs_run:
  assumes "cluster_api c V" "computeGatewayDiffs c rlp w = (r, w')"
  shows "w' = w" and "r = Inr diff \<Longrightarrow> \<exists>keys gws.
    TargetedGatewayKeys c (rlp_TargetRef rlp) (obj_Namespace rlp) w = (Inr keys, w) \<and>
    cl_ListGateways c w = (Inr gws, w) \<and> distinct (map ObjectKeyFromObject gws) \<and>
    (\<forall>k. sn_Gateways (V w) k = find (\<lambda>g. ObjectKeyFromObject g = k) gws) \<and>
    diff = \<lparr>gd_NewGateways = NewGateways (lib_Json c) gws (ObjectKeyFromObject rlp) keys,
       gd_SameGateways = SameGateways (lib_Json c) gws (ObjectKeyFromObject rlp) keys,
       gd_LeftGateways = LeftGateways (lib_Json c) gws (ObjectKeyFromObject rlp) keys\<rparr>"
proof -
  have keys: "TargetedGatewayKeys c (rlp_TargetRef rlp) (obj_Namespace rlp) w =
      (fst (TargetedGatewayKeys c (rlp_TargetRef rlp) (obj_Namespace rlp) w), w)"
    using TargetedGatewayKeys_pure[OF assms(1)] by (simp add: prod_eq_iff)
  have list: "case cl_ListGateways c w of
      (Inr gws, w') \<Rightarrow> w' = w \<and> distinct (map ObjectKeyFromObject gws) \<and>
        (\<forall>k. sn_Gateways (V w) k = find (\<lambda>g. ObjectKeyFromObject g = k) gws)
    | (Inl e, w') \<Rightarrow> w' = w"
    using assms(1) by (simp add: cluster_api_def lists_gateways_def)
  show "w' = w"
    using assms(2) keys list
    by (auto simp: computeGatewayDiffs_def bindE_def split: prod.splits sum.splits)
  show "\<exists>keys gws. TargetedGatewayKeys c (rlp_TargetRef rlp) (obj_Namespace rlp) w = (Inr keys, w) \<and>
      cl_ListGateways c w = (Inr gws, w) \<and> distinct (map ObjectKeyFromObject gws) \<and>
      (\<forall>k. sn_Gateways (V w) k = find (\<lambda>g. ObjectKeyFromObject g = k) gws) \<and>
      diff = \<lparr>gd_NewGateways = NewGateways (lib_Json c) gws (ObjectKeyFromObject rlp) keys,
         gd_SameGateways = SameGateways (lib_Json c) gws (ObjectKeyFromObject rlp) keys,
         gd_LeftGateways = LeftGateways (lib_Json c) gws (ObjectKeyFromObject rlp) keys\<rparr>"
    if "r = Inr diff"
    using that assms(2) keys list
    by (auto simp: computeGatewayDiffs_def bindE_def split: prod.splits sum.splits)
qed

text \<open>The gateways of the three groups are the listed ones, each once, and are in the cluster.\<close>

lemma groups_distinct:
  assumes "distinct (map ObjectKeyFromObject gws)"
  shows "distinct (map ObjectKeyFromObject
    (SameGateways J gws k keys @ NewGateways J gws k keys @ LeftGateways J gws k keys))"
proof -
  have inj: "inj_on ObjectKeyFromObject (set gws)" "distinct gws"
    using assms by (simp_all add: distinct_map)
  have "distinct (SameGateways J gws k keys @ NewGateways J gws k keys @ LeftGateways J gws k keys)"
    using inj(2) by (auto simp: SameGateways_def NewGateways_def LeftGateways_def)
  moreover have "set (SameGateways J gws k keys @ NewGateways J gws k keys @ LeftGateways J gws k keys) \<subseteq> set gws"
    by (auto simp: SameGateways_def NewGateways_def LeftGateways_def)
  ultimately show ?thesis using inj(1) by (simp only: distinct_map) (blast intro: inj_on_subset)
qed

lemma find_distinct_key:
  "distinct (map f xs) \<Longrightarrow> x \<in> set xs \<Longrightarrow> find (\<lambda>y. f y = f x) xs = Some x"
  by (induction xs) auto

definition rename_key :: "string \<Rightarrow> object_key \<Rightarrow> object_key" where
  "rename_key p k = ObjectKey (key_Namespace k) (p @ key_Name k)"

lemma distinct_rename: "distinct (map (rename_key p \<circ> f) xs) = distinct (map f xs)"
proof -
  have "inj (rename_key p)" by (auto simp: inj_on_def rename_key_def intro: object_key.expand)
  then have "distinct (map (rename_key p) (map f xs)) = distinct (map f xs)"
    by (metis distinct_map inj_on_subset subset_UNIV)
  then show ?thesis by simp
qed

lemma plugin_key_rename: "plugin_key = rename_key ''kuadrant-'' \<circ> ObjectKeyFromObject"
  by (simp add: fun_eq_iff plugin_key_def rename_key_def ObjectKeyFromObject_def)

lemma filter_key_rename: "filter_key = rename_key ''kuadrant-ratelimiting-cluster-'' \<circ> ObjectKeyFromObject"
  by (simp add: fun_eq_iff filter_key_def rename_key_def ObjectKeyFromObject_def)

lemma work_distinct:
  assumes "distinct (map ObjectKeyFromObject (gd_SameGateways diff @ gd_NewGateways diff @ gd_LeftGateways diff))"
  shows "distinct (map (plugin_key \<circ> fst) (plugin_work J rlp diff))"
    "distinct (map (filter_key \<circ> fst) (filter_work J rlp diff))"
proof -
  have "map (ObjectKeyFromObject \<circ> fst) (plugin_work J rlp diff) =
      map ObjectKeyFromObject (gd_LeftGateways diff @ gd_SameGateways diff @ gd_NewGateways diff)"
    "map (ObjectKeyFromObject \<circ> fst) (filter_work J rlp diff) =
      map ObjectKeyFromObject (gd_LeftGateways diff @ gd_NewGateways diff)"
    by (simp_all add: plugin_work_def filter_work_def)
  with assms show "distinct (map (plugin_key \<circ> fst) (plugin_work J rlp diff))"
      "distinct (map (filter_key \<circ> fst) (filter_work J rlp diff))"
    unfolding plugin_key_rename filter_key_rename comp_assoc distinct_rename by auto
qed

section \<open>The order of the four steps\<close>

text \<open>
  What the first three steps establish: the limits, the filters and the plugins that the diff
  calls for, in the state \<open>s'\<close> that a run from \<open>s\<close> reached.
\<close>

definition configured :: "'w env \<Rightarrow> RateLimitPolicy \<Rightarrow> gatewayDiff \<Rightarrow> snapshot \<Rightarrow> snapshot \<Rightarrow> bool" where
  "configured c rlp diff s s' \<longleftrightarrow>
     (\<exists>lim lim'. sn_Limitadors s (limitadorKey c) = Some lim \<and> sn_Limitadors s' (limitadorKey c) = Some lim' \<and>
        (\<forall>k d. mset (limits_named (lim_Limits lim') k d) =
           mset (limits_after c s rlp diff (limits_named (lim_Limits lim)) k d))) \<and>
     (\<forall>gr \<in> set (filter_work (lib_Json c) rlp diff).
        filter_as_wanted c s' gr (sn_EnvoyFilters s' (filter_key (fst gr)))) \<and>
     (\<forall>gr \<in> set (plugin_work (lib_Json c) rlp diff).
        plugin_as_wanted c s' gr (sn_WasmPlugins s' (plugin_key (fst gr))))"

lemma configured_cong:
  assumes "s2\<lparr>sn_Gateways := Map.empty\<rparr> = s1\<lparr>sn_Gateways := Map.empty\<rparr>"
  shows "configured c rlp diff s s2 \<longleftrightarrow> configured c rlp diff s s1"
proof -
  have eq: "sn_Limitadors s2 = sn_Limitadors s1" "sn_EnvoyFilters s2 = sn_EnvoyFilters s1"
    "sn_WasmPlugins s2 = sn_WasmPlugins s1" "sn_RLPs s2 = sn_RLPs s1" "sn_HTTPRoutes s2 = sn_HTTPRoutes s1"
    using arg_cong[OF assms, of sn_Limitadors] arg_cong[OF assms, of sn_EnvoyFilters]
      arg_cong[OF assms, of sn_WasmPlugins] arg_cong[OF assms, of sn_RLPs] arg_cong[OF assms, of sn_HTTPRoutes]
    by simp_all
  show ?thesis
    by (simp add: configured_def eq filter_as_wanted_cong[OF eq(1)] plugin_as_wanted_cong[OF eq(4,5)])
qed

lemma configured_steps:
  assumes "cluster_api c V"
    and distinct: "distinct (map ObjectKeyFromObject
      (gd_SameGateways diff @ gd_NewGateways diff @ gd_LeftGateways diff))"
    and names: "names_ok c (V w) rlp diff"
    and limits: "reconcileLimits c rlp diff w = (Inr (), w1)"
    and filters: "reconcileRateLimitingClusterEnvoyFilter c rlp diff w1 = (Inr (), w2)"
    and plugins: "reconcileWASMPluginConf c rlp diff w2 = (Inr (), w3)"
  shows "configured c rlp diff (V w) (V w3)" and "sn_Gateways (V w3) = sn_Gateways (V w)"
    and "sn_RLPs (V w3) = sn_RLPs (V w)" and "sn_HTTPRoutes (V w3) = sn_HTTPRoutes (V w)"
proof -
  have "distinct (map ObjectKeyFromObject (gd_SameGateways diff @ gd_NewGateways diff))"
    using distinct by auto
  note lim = reconcileLimits_run[OF assms(1) limits this names]
  note flt = reconcileEnvoyFilter_run[OF assms(1) filters work_distinct(2)[OF distinct]]
  note plg = reconcileWASMPluginConf_run[OF assms(1) plugins work_distinct(1)[OF distinct]]
  have f1: "V w1\<lparr>sn_Limitadors := Map.empty\<rparr> = V w\<lparr>sn_Limitadors := Map.empty\<rparr>" using lim by simp
  have f2: "V w2\<lparr>sn_EnvoyFilters := Map.empty\<rparr> = V w1\<lparr>sn_EnvoyFilters := Map.empty\<rparr>" using flt by simp
  have f3: "V w3\<lparr>sn_WasmPlugins := Map.empty\<rparr> = V w2\<lparr>sn_WasmPlugins := Map.empty\<rparr>" using plg by simp
  have l3: "sn_Limitadors (V w3) = sn_Limitadors (V w1)"
    using arg_cong[OF f2, of sn_Limitadors] arg_cong[OF f3, of sn_Limitadors] by simp
  have e3: "sn_EnvoyFilters (V w3) = sn_EnvoyFilters (V w2)"
    using arg_cong[OF f3, of sn_EnvoyFilters] by simp
  show g3: "sn_Gateways (V w3) = sn_Gateways (V w)"
    using arg_cong[OF f1, of sn_Gateways] arg_cong[OF f2, of sn_Gateways] arg_cong[OF f3, of sn_Gateways] by simp
  show r3: "sn_RLPs (V w3) = sn_RLPs (V w)" "sn_HTTPRoutes (V w3) = sn_HTTPRoutes (V w)"
    using arg_cong[OF f1, of sn_RLPs] arg_cong[OF f2, of sn_RLPs] arg_cong[OF f3, of sn_RLPs]
      arg_cong[OF f1, of sn_HTTPRoutes] arg_cong[OF f2, of sn_HTTPRoutes] arg_cong[OF f3, of sn_HTTPRoutes]
    by simp_all
  have r2: "sn_RLPs (V w3) = sn_RLPs (V w2)" "sn_HTTPRoutes (V w3) = sn_HTTPRoutes (V w2)"
    using arg_cong[OF f3, of sn_RLPs] arg_cong[OF f3, of sn_HTTPRoutes] by simp_all
  show "configured c rlp diff (V w) (V w3)"
    unfolding configured_def
  proof (intro conjI)
    show "\<exists>lim lim'. sn_Limitadors (V w) (limitadorKey c) = Some lim \<and>
        sn_Limitadors (V w3) (limitadorKey c) = Some lim' \<and>
        (\<forall>k d. mset (limits_named (lim_Limits lim') k d) =
           mset (limits_after c (V w) rlp diff (limits_named (lim_Limits lim)) k d))"
      using lim by (auto simp: l3)
    show "\<forall>gr \<in> set (filter_work (lib_Json c) rlp diff).
        filter_as_wanted c (V w3) gr (sn_EnvoyFilters (V w3) (filter_key (fst gr)))"
      using flt by (simp add: e3 filter_as_wanted_cong[OF l3])
    show "\<forall>gr \<in> set (plugin_work (lib_Json c) rlp diff).
        plugin_as_wanted c (V w3) gr (sn_WasmPlugins (V w3) (plugin_key (fst gr)))"
      using plg by (simp add: plugin_as_wanted_cong[OF r2])
  qed
qed

text \<open>The annotations of all gateways decode, to lists without duplicates.\<close>

definition refs_sound :: "json_codec \<Rightarrow> snapshot \<Rightarrow> bool" where
  "refs_sound J s \<longleftrightarrow> (\<forall>k gw. sn_Gateways s k = Some gw \<longrightarrow>
     refs_readable J (Some gw) \<and> distinct (refs_of J (Some gw)))"

lemma content_eq_readable: "content_eq a b \<Longrightarrow> refs_readable J (Some a) = refs_readable J (Some b)"
  by (frule content_eq_sel(1)) (simp add: refs_readable_def annotations_of_def)

lemma result_readable:
  assumes "refs_json J ok" "ok k" "refs_readable J (Some gw)" "distinct (refs_of J (Some gw))"
  shows "\<exists>y. snd (DeleteRLP J k (Some gw)) = Some y \<and> refs_readable J (Some y) \<and>
      distinct (refs_of J (Some y)) \<and> k \<notin> set (refs_of J (Some y))"
    and "\<exists>y. snd (AddRLP J k (Some gw)) = Some y \<and> refs_readable J (Some y) \<and>
      distinct (refs_of J (Some y)) \<and> k \<in> set (refs_of J (Some y))"
  using DeleteRLP_job[of gw J k] AddRLP_job[of gw J k] refs_json.DeleteRLP_refs[OF assms(1), of k "Some gw"]
    refs_json.AddRLP_refs[OF assms(1,3,2)] refs_json.DeleteRLP_readable[OF assms(1,3), of k]
    refs_json.AddRLP_readable[OF assms(1,3,2)] assms(4)
  by (auto simp: job_ok_def split: prod.splits if_splits)

text \<open>After the references are written, the gateways that refer to the policy are the targeted ones.\<close>

lemma references_final:
  assumes "refs_json J ok" "ok rk" "rk = ObjectKeyFromObject rlp" "refs_sound J s"
    and gws: "distinct (map ObjectKeyFromObject gws)" "\<And>k. sn_Gateways s k = find (\<lambda>g. ObjectKeyFromObject g = k) gws"
    and diff: "diff = \<lparr>gd_NewGateways = NewGateways J gws rk keys, gd_SameGateways = SameGateways J gws rk keys,
       gd_LeftGateways = LeftGateways J gws rk keys\<rparr>"
    and run: "jobs_running (reference_work J rlp diff) s s'" "\<forall>job \<in> set (reference_work J rlp diff). job_done job s'"
    and k: "sn_Gateways s' k = Some gw'"
  shows "(rk \<in> set (refs_of J (Some gw')) \<longleftrightarrow> k \<in> set keys) \<and>
    refs_readable J (Some gw') \<and> distinct (refs_of J (Some gw'))"
proof (cases "k \<in> (ObjectKeyFromObject \<circ> fst) ` set (reference_work J rlp diff)")
  case False
  with run(1) k have s: "sn_Gateways s k = Some gw'" by (auto simp: jobs_running_def)
  with gws(2) have gw': "gw' \<in> set gws" "ObjectKeyFromObject gw' = k" by (auto simp: find_Some_iff)
  with False have "gw' \<notin> set (NewGateways J gws rk keys)" "gw' \<notin> set (LeftGateways J gws rk keys)"
    by (auto simp: reference_work_def diff image_Un image_image)
  with gw' s assms(4) show ?thesis
    by (auto simp: NewGateways_def LeftGateways_def ContainsRLP_refs refs_sound_def)
next
  case True
  then obtain gw r where job: "(gw, r) \<in> set (reference_work J rlp diff)" and key: "ObjectKeyFromObject gw = k"
    by auto
  with run(2) have "job_done (gw, r) s'" by blast
  with k key have eq: "content_eq gw' (the (snd r))" by (auto simp: job_done_def split: prod.splits)
  have "gw \<in> set gws"
    using job by (auto simp: reference_work_def diff NewGateways_def LeftGateways_def)
  then have "sn_Gateways s k = Some gw"
    using gws find_distinct_key key by metis
  with assms(4) have gw: "refs_readable J (Some gw)" "distinct (refs_of J (Some gw))"
    by (auto simp: refs_sound_def)
  note results = result_readable[OF assms(1,2) gw]
  from job consider (left) "gw \<in> set (LeftGateways J gws rk keys)" "r = DeleteRLP J rk (Some gw)"
    | (new) "gw \<in> set (NewGateways J gws rk keys)" "r = AddRLP J rk (Some gw)"
    by (auto simp: reference_work_def diff assms(3))
  then show ?thesis
  proof cases
    case left
    then have "k \<notin> set keys" using key by (auto simp: LeftGateways_def)
    with left results(1) eq show ?thesis
      by (auto simp: content_eq_refs[OF eq] content_eq_readable[OF eq])
  next
    case new
    then have "k \<in> set keys" using key by (auto simp: NewGateways_def)
    with new results(2) eq show ?thesis
      by (auto simp: content_eq_refs[OF eq] content_eq_readable[OF eq])
  qed
qed

text \<open>Writing the references changes one annotation of a gateway and nothing else of it.\<close>

lemma content_eq_reannotated0: "content_eq x y \<Longrightarrow> reannotated ann y x"
  by (cases x; cases y) (simp add: content_eq_def reannotated_def annotations_of_def)

lemma job_reannotated:
  "content_eq x (the (snd (AddRLP J k (Some gw)))) \<Longrightarrow> reannotated KuadrantRateLimitPolicyRefAnnotation gw x"
  "content_eq x (the (snd (DeleteRLP J k (Some gw)))) \<Longrightarrow> reannotated KuadrantRateLimitPolicyRefAnnotation gw x"
  by (auto simp: AddRLP_def DeleteRLP_def set_refs_annotation_def Let_def content_eq_reannotated0
      intro!: content_eq_reannotated split: option.splits if_splits)

lemma references_reannotated:
  assumes "jobs_running (reference_work J rlp diff) s s'"
    and "list_all (\<lambda>gw. sn_Gateways s (ObjectKeyFromObject gw) = Some gw) (gd_LeftGateways diff @ gd_NewGateways diff)"
  shows "rel_option (reannotated KuadrantRateLimitPolicyRefAnnotation) (sn_Gateways s k) (sn_Gateways s' k)"
proof (cases "k \<in> (ObjectKeyFromObject \<circ> fst) ` set (reference_work J rlp diff)")
  case True
  then obtain gw r where job: "(gw, r) \<in> set (reference_work J rlp diff)" and key: "ObjectKeyFromObject gw = k"
    by auto
  then have gw: "sn_Gateways s k = Some gw"
    using assms(2) by (auto simp: reference_work_def list_all_iff)
  obtain x where x: "sn_Gateways s' k = Some x" "x = gw \<or> content_eq x (the (snd r))"
    using assms(1) job key by (cases r) (force simp: jobs_running_def)
  have "reannotated KuadrantRateLimitPolicyRefAnnotation gw x"
    using x(2) job by (auto simp: reference_work_def dest: job_reannotated)
  with gw x(1) show ?thesis by simp
next
  case False
  with assms(1) show ?thesis by (simp add: jobs_running_def option.rel_refl)
qed

lemma reconcileGatewayDiffs_run:
  assumes "cluster_api c V" "refs_json (lib_Json c) ok" "ok (ObjectKeyFromObject rlp)"
    and "refs_sound (lib_Json c) (V w)"
    and "\<And>diff. computeGatewayDiffs c rlp w = (Inr diff, w) \<Longrightarrow> names_ok c (V w) rlp diff"
    and "reconcileGatewayDiffs c rlp w = (Inr u, w')"
  shows "\<exists>keys diff. TargetedGatewayKeys c (rlp_TargetRef rlp) (obj_Namespace rlp) w = (Inr keys, w) \<and>
    computeGatewayDiffs c rlp w = (Inr diff, w) \<and> configured c rlp diff (V w) (V w') \<and>
    (\<forall>k gw. sn_Gateways (V w') k = Some gw \<longrightarrow>
       (ContainsRLP (lib_Json c) (Some gw) (ObjectKeyFromObject rlp) \<longleftrightarrow> k \<in> set keys)) \<and>
    refs_sound (lib_Json c) (V w') \<and>
    sn_RLPs (V w') = sn_RLPs (V w) \<and> sn_HTTPRoutes (V w') = sn_HTTPRoutes (V w) \<and>
    (\<forall>k. rel_option (reannotated KuadrantRateLimitPolicyRefAnnotation) (sn_Gateways (V w) k) (sn_Gateways (V w') k))"
proof -
  let ?J = "lib_Json c" and ?rk = "ObjectKeyFromObject rlp"
  from assms(6) obtain diff w0 w1 w2 w3 diff' where steps:
    "computeGatewayDiffs c rlp w = (Inr diff, w0)" "reconcileLimits c rlp diff w0 = (Inr (), w1)"
    "reconcileRateLimitingClusterEnvoyFilter c rlp diff w1 = (Inr (), w2)"
    "reconcileWASMPluginConf c rlp diff w2 = (Inr (), w3)"
    "reconcileGatewayRLPReferences c rlp diff w3 = (Inr diff', w')"
    by (auto simp: reconcileGatewayDiffs_def elim!: bindE_InrE)
  from computeGatewayDiffs_run(1)[OF assms(1) steps(1)] have w0: "w0 = w" .
  with computeGatewayDiffs_run(2)[OF assms(1) steps(1)] obtain keys gws where
    keys: "TargetedGatewayKeys c (rlp_TargetRef rlp) (obj_Namespace rlp) w = (Inr keys, w)"
    and gws: "distinct (map ObjectKeyFromObject gws)" "\<And>k. sn_Gateways (V w) k = find (\<lambda>g. ObjectKeyFromObject g = k) gws"
    and diff: "diff = \<lparr>gd_NewGateways = NewGateways ?J gws ?rk keys, gd_SameGateways = SameGateways ?J gws ?rk keys,
       gd_LeftGateways = LeftGateways ?J gws ?rk keys\<rparr>"
    by auto
  have dist: "distinct (map ObjectKeyFromObject (gd_SameGateways diff @ gd_NewGateways diff @ gd_LeftGateways diff))"
    unfolding diff using groups_distinct[OF gws(1), of ?J ?rk keys] by (simp add: ac_simps)
  have names: "names_ok c (V w) rlp diff" using assms(5) steps(1) w0 by simp
  note conf = configured_steps[OF assms(1) dist names steps(2)[unfolded w0] steps(3,4)]
  have "distinct (map ObjectKeyFromObject (gd_LeftGateways diff @ gd_NewGateways diff))"
    using dist by auto
  moreover have stored: "list_all (\<lambda>gw. sn_Gateways (V w3) (ObjectKeyFromObject gw) = Some gw)
      (gd_LeftGateways diff @ gd_NewGateways diff)"
    using find_distinct_key[OF gws(1)]
    by (auto simp: conf(2) gws(2) diff list_all_iff LeftGateways_def NewGateways_def)
  ultimately have refs: "jobs_running (reference_work ?J rlp diff) (V w3) (V w')"
    "\<forall>job \<in> set (reference_work ?J rlp diff). job_done job (V w')"
    using reconcileReferences_run[OF assms(1) steps(5)] by blast+
  have frame: "V w'\<lparr>sn_Gateways := Map.empty\<rparr> = V w3\<lparr>sn_Gateways := Map.empty\<rparr>"
    using refs(1) by (simp add: jobs_running_def)
  have sound: "refs_sound ?J (V w3)" using assms(4) by (simp add: refs_sound_def conf(2))
  have gws3: "\<And>k. sn_Gateways (V w3) k = find (\<lambda>g. ObjectKeyFromObject g = k) gws"
    using gws(2) by (simp add: conf(2))
  note final = references_final[OF assms(2,3) refl sound gws(1) gws3 diff refs]
  have "sn_RLPs (V w') = sn_RLPs (V w)" "sn_HTTPRoutes (V w') = sn_HTTPRoutes (V w)"
    using arg_cong[OF frame, of sn_RLPs] arg_cong[OF frame, of sn_HTTPRoutes] conf(3,4) by simp_all
  moreover have "configured c rlp diff (V w) (V w')"
    using conf(1) by (simp add: configured_cong[OF frame])
  moreover have "refs_sound ?J (V w')" using final by (auto simp: refs_sound_def)
  moreover have "\<forall>k. rel_option (reannotated KuadrantRateLimitPolicyRefAnnotation) (sn_Gateways (V w) k)
      (sn_Gateways (V w') k)"
    using references_reannotated[OF refs(1) stored] by (simp add: conf(2))
  ultimately show ?thesis
    using keys steps(1) w0 final by (auto simp: ContainsRLP_refs)
qed


lemma targeted_example:
  "TargetedGatewayKeys cluster_env (rlp_TargetRef route_policy) (obj_Namespace route_policy) example_cluster
     = (Inr [ObjectKey ''istio'' ''gw''], example_cluster)"
  by (cases rule: FetchValidHTTPRoute_run[OF cluster_store(4)[OF cluster_env_api],
        of example_cluster "target_key example_target ''default''"])
    (simp_all add: TargetedGatewayKeys_def IsTargetRefHTTPRoute_def route_policy_def example_policy_def
      example_target_def new_object_def k8s_object.defs target_key_def list_view_def go_eval
      parent_key_def example_target_at(2)
      example_route_def[THEN arg_cong, of rt_ParentRefs])

lemma computeGatewayDiffs_example:
  "computeGatewayDiffs cluster_env route_policy example_cluster = (Inr example_diff, example_cluster)"
proof -
  have "cl_ListGateways cluster_env example_cluster = (Inr [example_gateway], example_cluster)"
    by (simp add: cluster_env_def example_cluster_sel)
  with targeted_example show ?thesis
    by (simp add: computeGatewayDiffs_def example_diff_def NewGateways_def SameGateways_def LeftGateways_def
        ContainsRLP_refs example_keys ContainsObjectKey_iff)
qed

lemma reconcileGatewayDiffs_example:
  "\<exists>w'. reconcileGatewayDiffs cluster_env route_policy example_cluster = (Inr (), w')"
proof -
  obtain ls where limits: "reconcileLimits cluster_env route_policy example_diff example_cluster =
      (Inr (), example_cluster\<lparr>cs_Limitadors := [example_limitador\<lparr>lim_Limits := ls\<rparr>]\<rparr>)"
    using reconcileLimits_example by blast
  define w1 where "w1 = example_cluster\<lparr>cs_Limitadors := [example_limitador\<lparr>lim_Limits := ls\<rparr>]\<rparr>"
  obtain fs where filters: "reconcileRateLimitingClusterEnvoyFilter cluster_env route_policy example_diff w1 =
      (Inr (), w1\<lparr>cs_EnvoyFilters := fs\<rparr>)"
    using reconcileEnvoyFilter_example[of w1 ls] by (auto simp: w1_def example_cluster_sel)
  define w2 where "w2 = w1\<lparr>cs_EnvoyFilters := fs\<rparr>"
  obtain ps where plugins: "reconcileWASMPluginConf cluster_env route_policy example_diff w2 =
      (Inr (), w2\<lparr>cs_WasmPlugins := ps\<rparr>)"
    using reconcileWASMPluginConf_example[of w2] by (auto simp: w1_def w2_def example_cluster_sel)
  define w3 where "w3 = w2\<lparr>cs_WasmPlugins := ps\<rparr>"
  obtain gw' where add: "AddRLP reference_json (ObjectKey ''default'' ''rlp'') (Some example_gateway) = (True, Some gw')"
      and key: "ObjectKeyFromObject gw' = ObjectKey ''istio'' ''gw''"
    by (simp add: AddRLP_def example_keys)
  have "cs_Gateways w3 = [example_gateway]" by (simp add: w1_def w2_def w3_def example_cluster_sel)
  then have "\<exists>diff' w'. reconcileGatewayRLPReferences cluster_env route_policy example_diff w3 = (Inr diff', w')"
    by (simp add: reconcileGatewayRLPReferences_def example_diff_def cluster_env_sel add update_if_changed_def
        UpdateResource_def list_api_Update key example_keys bindE_def)
  then show ?thesis
    using limits filters plugins computeGatewayDiffs_example
    by (auto simp: reconcileGatewayDiffs_def w1_def[symmetric] w2_def[symmetric] w3_def[symmetric])
qed

lemma example_hypotheses:
  "refs_json (lib_Json cluster_env) (\<lambda>_. True)" "refs_sound (lib_Json cluster_env) (cluster_view example_cluster)"
  "computeGatewayDiffs cluster_env route_policy example_cluster = (Inr diff, example_cluster) \<Longrightarrow>
   names_ok cluster_env (cluster_view example_cluster) route_policy diff"
  using reference_refs.refs_json_axioms names_ok_example
  by (simp_all add: computeGatewayDiffs_example cluster_env_sel refs_sound_def example_snapshot list_view_def
      example_cluster_sel)

lemma example_references:
  assumes "reconcileGatewayDiffs cluster_env route_policy example_cluster = (Inr (), w')"
  shows "sn_Gateways (cluster_view w') \<noteq> sn_Gateways (cluster_view example_cluster)"
proof
  let ?k = "ObjectKey ''istio'' ''gw''"
  assume same: "sn_Gateways (cluster_view w') = sn_Gateways (cluster_view example_cluster)"
  have "sn_Gateways (cluster_view example_cluster) ?k = Some example_gateway"
    by (simp add: example_snapshot list_view_def example_cluster_sel example_keys)
  with same have "ContainsRLP reference_json (Some example_gateway) (ObjectKey ''default'' ''rlp'')"
    using reconcileGatewayDiffs_run[OF cluster_env_api example_hypotheses(1) TrueI example_hypotheses(2,3) assms]
    by (auto simp: targeted_example example_keys cluster_env_sel)
  then show False by (simp add: ContainsRLP_refs)
qed


text \<open>What each step may write, whatever its outcome.\<close>

lemma preserves_store_Get: "store_api A view same \<Longrightarrow> preserves P (api_Get A k)"
  by (auto simp: preserves_def store_Get_pure)

lemma preserves_kind:
  assumes "kind_api V get forget A"
  shows "preserves (\<lambda>w. forget (V w) = F) (ReconcileResource A desired f)"
    "preserves (\<lambda>w. forget (V w) = F) (api_Update A x)"
proof -
  from assms have f: "frame (forget \<circ> V) A" by (simp add: kind_api_def)
  show "preserves (\<lambda>w. forget (V w) = F) (ReconcileResource A desired f)"
    using frame_ReconcileResource[OF f, of desired] by (auto simp: preserves_def)
  show "preserves (\<lambda>w. forget (V w) = F) (api_Update A x)"
    using frame_preserves(3)[OF f, of "\<lambda>w. forget (V w) = F"] by simp
qed

lemma preserves_EnvoyFilter:
  assumes "cluster_api c V"
  shows "preserves (\<lambda>w. V w\<lparr>sn_EnvoyFilters := Map.empty\<rparr> = F) (reconcileRateLimitingClusterEnvoyFilter c rlp diff)"
proof -
  have api: "kind_api V sn_EnvoyFilters (sn_EnvoyFilters_update (\<lambda>_. Map.empty)) (cl_EnvoyFilters c)"
    using assms by (simp add: cluster_api_def)
  show ?thesis
    unfolding reconcileEnvoyFilter_alt reconcile_filter_def gatewayEnvoyFilter_alt
    by (intro pres preserves_kind(1)[OF api] preserves_store_Get[OF cluster_store(5)[OF assms]])
qed

lemma preserves_pure:
  assumes "\<And>w. snd (m w) = w"
  shows "preserves P m"
  using assms by (simp add: preserves_def)

lemma gatewayWASMPlugin_pure:
  assumes "cluster_api c V"
  shows "snd (gatewayWASMPlugin c gw refs w) = w"
proof (cases "refs = [] \<or> resolve c (V w) refs = None")
  case True
  then show ?thesis
    using gatewayWASMPlugin_run[OF assms, where w = w and refs = refs and gw = gw] by (auto split: if_splits)
next
  case False
  then obtain config where "gatewayWASMPlugin c gw refs w = (case ToStruct (lib_Wasm c) config of
      Inl e \<Rightarrow> (Inl e, w) | Inr st \<Rightarrow> (Inr (plugin_object c gw (Some st)), w))"
    using gatewayWASMPlugin_run[OF assms, where w = w and refs = refs and gw = gw] by auto
  then show ?thesis by (simp split: sum.splits)
qed

lemma preserves_WASMPluginConf:
  assumes "cluster_api c V"
  shows "preserves (\<lambda>w. V w\<lparr>sn_WasmPlugins := Map.empty\<rparr> = F) (reconcileWASMPluginConf c rlp diff)"
proof -
  have api: "kind_api V sn_WasmPlugins (sn_WasmPlugins_update (\<lambda>_. Map.empty)) (cl_WasmPlugins c)"
    using assms by (simp add: cluster_api_def)
  show ?thesis
    unfolding reconcileWASMPluginConf_alt reconcile_plugin_def
    by (intro pres preserves_kind(1)[OF api] preserves_pure gatewayWASMPlugin_pure[OF assms])
qed

lemma preserves_References:
  assumes "cluster_api c V"
  shows "preserves (\<lambda>w. V w\<lparr>sn_Gateways := Map.empty\<rparr> = F) (reconcileGatewayRLPReferences c rlp diff)"
proof -
  have api: "kind_api V sn_Gateways (sn_Gateways_update (\<lambda>_. Map.empty)) (cl_Gateways c)"
    using assms by (simp add: cluster_api_def)
  have "preserves (\<lambda>w. V w\<lparr>sn_Gateways := Map.empty\<rparr> = F) (update_if_changed c gw r)" for gw r
    unfolding update_if_changed_def UpdateResource_def
    by (auto split: bool.split option.split prod.split intro!: pres preserves_kind(2)[OF api])
  then show ?thesis
    unfolding reconcileGatewayRLPReferences_def by (intro pres)
qed

text \<open>
  C19: References are written last. Whatever the outcome of reconcileGatewayDiffs, if any gateway
  was written then the limits, the filters and the plugins are already the ones the diff calls
  for: a gateway never refers to a policy whose limits are not in place because a step failed.
\<close>

theorem references_last:
  assumes "cluster_api c V" "reconcileGatewayDiffs c rlp w = (r, w')"
    and "\<And>diff. computeGatewayDiffs c rlp w = (Inr diff, w) \<Longrightarrow> names_ok c (V w) rlp diff"
    and "sn_Gateways (V w') \<noteq> sn_Gateways (V w)"
  shows "\<exists>diff. computeGatewayDiffs c rlp w = (Inr diff, w) \<and> configured c rlp diff (V w) (V w')"
proof -
  obtain r0 w0 where compute: "computeGatewayDiffs c rlp w = (r0, w0)" by fastforce
  from computeGatewayDiffs_run(1)[OF assms(1) compute] have w0: "w0 = w" .
  with assms(2,4) compute obtain diff where diff: "computeGatewayDiffs c rlp w = (Inr diff, w)"
    by (cases r0) (auto simp: reconcileGatewayDiffs_def)
  have dist: "distinct (map ObjectKeyFromObject (gd_SameGateways diff @ gd_NewGateways diff @ gd_LeftGateways diff))"
    using computeGatewayDiffs_run(2)[OF assms(1) diff refl] groups_distinct by fastforce
  then have dist1: "distinct (map ObjectKeyFromObject (gd_SameGateways diff @ gd_NewGateways diff))" by auto
  note names = assms(3)[OF diff]
  obtain r1 w1 where limits: "reconcileLimits c rlp diff w = (r1, w1)" by fastforce
  obtain r2 w2 where filters: "reconcileRateLimitingClusterEnvoyFilter c rlp diff w1 = (r2, w2)" by fastforce
  obtain r3 w3 where plugins: "reconcileWASMPluginConf c rlp diff w2 = (r3, w3)" by fastforce
  obtain r4 w4 where refs: "reconcileGatewayRLPReferences c rlp diff w3 = (r4, w4)" by fastforce
  have "reconcileGatewayDiffs c rlp w = (case r1 of Inl e \<Rightarrow> (Inl e, w1) | Inr _ \<Rightarrow>
      case r2 of Inl e \<Rightarrow> (Inl e, w2) | Inr _ \<Rightarrow>
      case r3 of Inl e \<Rightarrow> (Inl e, w3) | Inr _ \<Rightarrow>
      case r4 of Inl e \<Rightarrow> (Inl e, w4) | Inr _ \<Rightarrow> (Inr (), w4))"
    by (cases r1; cases r2; cases r3; cases r4)
      (simp_all add: reconcileGatewayDiffs_def diff limits filters plugins refs bindE_def)
  note run = this[unfolded assms(2)]
  have g1: "sn_Gateways (V w1) = sn_Gateways (V w)"
    using reconcileLimits_run[OF assms(1) limits dist1 names]
    by (cases r1) (auto dest: arg_cong[where f = sn_Gateways])
  have g2: "sn_Gateways (V w2) = sn_Gateways (V w)"
    using preservesD[OF preserves_EnvoyFilter[OF assms(1)] refl filters] g1
    by (auto dest: arg_cong[where f = sn_Gateways])
  have g3: "sn_Gateways (V w3) = sn_Gateways (V w)"
    using preservesD[OF preserves_WASMPluginConf[OF assms(1)] refl plugins] g2
    by (auto dest: arg_cong[where f = sn_Gateways])
  have r1: "r1 = Inr ()"
    using run g1 assms(4) by (cases r1) simp_all
  have r2: "r2 = Inr ()"
    using run[unfolded r1] g2 assms(4) by (cases r2) simp_all
  have r3: "r3 = Inr ()"
    using run[unfolded r1 r2] g3 assms(4) by (cases r3) simp_all
  have w': "w' = w4"
    using run[unfolded r1 r2 r3] by (cases r4) simp_all
  have "configured c rlp diff (V w) (V w3)"
    using configured_steps(1)[OF assms(1) dist names] limits filters plugins r1 r2 r3 by simp
  moreover have frame: "V w'\<lparr>sn_Gateways := Map.empty\<rparr> = V w3\<lparr>sn_Gateways := Map.empty\<rparr>"
    using preservesD[OF preserves_References[OF assms(1)] refl refs] w' by simp
  ultimately show ?thesis using diff by (simp add: configured_cong[OF frame])
qed

theorem references_last_witness:
  "\<exists>w'. reconcileGatewayDiffs cluster_env route_policy example_cluster = (Inr (), w') \<and>
    configured cluster_env route_policy example_diff (cluster_view example_cluster) (cluster_view w')"
proof -
  obtain w' where run: "reconcileGatewayDiffs cluster_env route_policy example_cluster = (Inr (), w')"
    using reconcileGatewayDiffs_example by blast
  from references_last[OF cluster_env_api run example_hypotheses(3) example_references[OF run]] run
  show ?thesis by (auto simp: computeGatewayDiffs_example)
qed

section \<open>reconcileSpec\<close>

lemma TargetHostnames_pure:
  assumes "cluster_api c V"
  shows "snd (TargetHostnames c tr ns w) = w"
  by (rule FetchValidTargetRef_run[OF assms, of w tr ns]) (auto simp: TargetHostnames_def)

lemma held_by_another:
  assumes "cluster_api c V" "target_at (V w) tr ns = Some obj" "target_annotations obj ann = Some val"
    "val \<noteq> key_String pk"
  shows "\<exists>e. ReconcileTargetBackReference c pk tr ns ann w = (Inl e, w)"
  by (rule FetchValidTargetRef_run[OF assms(1), of w tr ns])
    (use assms(2-4) in \<open>auto simp: ReconcileTargetBackReference_def\<close>)

lemma ValidSubdomains_all:
  "fst (ValidSubdomains ds ss) \<longleftrightarrow> list_all (\<lambda>h. \<exists>d \<in> set ds. SubsetOf h d) ss"
  by (simp add: ValidSubdomains_fst list_all_iff covered_by_any_iff)

lemma validateRuleHosts_run:
  assumes "cluster_api c V"
  shows "validateRuleHosts c rlp w = (case fst (TargetHostnames c (rlp_TargetRef rlp) (obj_Namespace rlp) w) of
      Inl e \<Rightarrow> (Inl e, w)
    | Inr hosts \<Rightarrow> (if list_all (\<lambda>h. \<exists>d \<in> set hosts. SubsetOf h d) (rule_hosts rlp) then Inr ()
        else Inl (Errorf ''rule host (%s) not valid'' [snd (ValidSubdomains hosts (rule_hosts rlp))]), w))"
proof -
  obtain h where "TargetHostnames c (rlp_TargetRef rlp) (obj_Namespace rlp) w = (h, w)"
    using TargetHostnames_pure[OF assms] by (metis prod.collapse)
  then show ?thesis
    unfolding validateRuleHosts_def bindE_def Let_def ValidSubdomains_all[symmetric]
    by (simp add: split_beta split: sum.split)
qed

text \<open>The example cluster with the route held by another policy.\<close>

definition held_cluster :: cluster where
  "held_cluster = example_cluster\<lparr>cs_HTTPRoutes :=
     [example_route\<lparr>obj_Annotations := Some [RateLimitPolicyBackRefAnnotation \<mapsto> ''default/other'']\<rparr>]\<rparr>"

text \<open>
  C23: The checks of reconcileSpec come before anything is written. When the policy does not
  validate, when a host of its rules is not covered by a host of its target, or when the target
  is held by another policy, the result is an error and the cluster is as it was. It never asks
  for a requeue, and it succeeds only for a policy that validates, whose rule hosts are all
  covered.
\<close>

theorem reconcileSpec_checks:
  assumes "cluster_api c V" "reconcileSpec c rlp w = (r, w')"
  shows "(Validate rlp \<noteq> None \<longrightarrow> r = Inl (the (Validate rlp)) \<and> w' = w) \<and>
    (\<forall>hosts. fst (TargetHostnames c (rlp_TargetRef rlp) (obj_Namespace rlp) w) = Inr hosts \<longrightarrow>
       \<not> list_all (\<lambda>h. \<exists>d \<in> set hosts. SubsetOf h d) (rule_hosts rlp) \<longrightarrow> (\<exists>e. r = Inl e) \<and> w' = w) \<and>
    (\<forall>obj val. target_at (V w) (rlp_TargetRef rlp) (obj_Namespace rlp) = Some obj \<longrightarrow>
       target_annotations obj RateLimitPolicyBackRefAnnotation = Some val \<longrightarrow>
       val \<noteq> key_String (ObjectKeyFromObject rlp) \<longrightarrow> (\<exists>e. r = Inl e) \<and> w' = w) \<and>
    (\<forall>requeue. r = Inr requeue \<longrightarrow> \<not> requeue \<and> Validate rlp = None \<and>
       (\<exists>hosts. fst (TargetHostnames c (rlp_TargetRef rlp) (obj_Namespace rlp) w) = Inr hosts \<and>
          list_all (\<lambda>h. \<exists>d \<in> set hosts. SubsetOf h d) (rule_hosts rlp)))"
proof (cases "Validate rlp")
  case (Some err)
  with assms(2) show ?thesis by (auto simp: reconcileSpec_def)
next
  case valid: None
  let ?hosts = "fst (TargetHostnames c (rlp_TargetRef rlp) (obj_Namespace rlp) w)"
  show ?thesis
  proof (cases "\<exists>hosts. ?hosts = Inr hosts \<and> list_all (\<lambda>h. \<exists>d \<in> set hosts. SubsetOf h d) (rule_hosts rlp)")
    case False
    then obtain e where "validateRuleHosts c rlp w = (Inl e, w)"
      by (cases ?hosts) (auto simp: validateRuleHosts_run[OF assms(1)])
    with assms(2) valid show ?thesis by (auto simp: reconcileSpec_def)
  next
    case hosts: True
    then have ok: "validateRuleHosts c rlp w = (Inr (), w)"
      by (auto simp: validateRuleHosts_run[OF assms(1)])
    have "(\<exists>e. r = Inl e) \<and> w' = w"
      if "target_at (V w) (rlp_TargetRef rlp) (obj_Namespace rlp) = Some obj"
        "target_annotations obj RateLimitPolicyBackRefAnnotation = Some val"
        "val \<noteq> key_String (ObjectKeyFromObject rlp)" for obj val
      using held_by_another[OF assms(1) that] assms(2) valid ok
      by (auto simp: reconcileSpec_def reconcileDirectBackReference_def)
    moreover have "\<not> requeue" if "r = Inr requeue" for requeue
      using that assms(2) valid by (auto simp: reconcileSpec_def elim!: bindE_InrE)
    ultimately show ?thesis using valid hosts by auto
  qed
qed

theorem reconcileSpec_checks_witness:
  "\<exists>e. reconcileSpec cluster_env route_policy held_cluster = (Inl e, held_cluster)"
proof -
  let ?o = "TargetHTTPRoute (example_route\<lparr>obj_Annotations :=
    Some [RateLimitPolicyBackRefAnnotation \<mapsto> ''default/other'']\<rparr>)"
  have "target_at (cluster_view held_cluster) (rlp_TargetRef route_policy) (obj_Namespace route_policy) = Some ?o"
    by (simp add: target_at_def go_eval list_view_def target_key_def example_target_def held_cluster_def
        route_policy_def example_policy_def ObjectKeyFromObject_def example_route_def new_object_def k8s_object.defs)
  moreover have "target_annotations ?o RateLimitPolicyBackRefAnnotation = Some ''default/other''"
    by (simp add: target_annotations_def annotations_of_def)
  moreover have "''default/other'' \<noteq> key_String (ObjectKeyFromObject route_policy)"
    by (simp add: example_keys key_String_def)
  moreover obtain r w' where run: "reconcileSpec cluster_env route_policy held_cluster = (r, w')"
    by fastforce
  ultimately have "(\<exists>e. r = Inl e) \<and> w' = held_cluster"
    using reconcileSpec_checks[OF cluster_env_api run] by blast
  with run show ?thesis by auto
qed

end
