(* ===== verification/RLP_Finalizer.thy ===== *)
theory RLP_Finalizer
  imports RLP_Gateways
begin

text \<open>
  The clean-up of a deleted RateLimitPolicy (controllers/apim/ratelimitpolicy_finalizers.go): its
  steps, what each of them may write, and what the clean-up leaves behind.
\<close>

section \<open>Finalizers\<close>

definition rateLimitPolicyFinalizer :: string where
  "rateLimitPolicyFinalizer = ''ratelimitpolicy.kuadrant.io/finalizer''"

definition computeFinalizeGatewayDiff :: "'w env \<Rightarrow> RateLimitPolicy \<Rightarrow> ('w, gatewayDiff) io" where
  "computeFinalizeGatewayDiff c rlp =
     bindE (attempt (TargetedGatewayKeys c (rlp_TargetRef rlp) (obj_Namespace rlp))) (\<lambda>got.
     bindE (case got of
              Inl err \<Rightarrow> if \<not> IsNotFound err then throwE err else retE []
            | Inr gwKeys \<Rightarrow> retE gwKeys) (\<lambda>gwKeys.
     bindE (foldE (\<lambda>gwKey lefts.
         bindE (attempt (api_Get (cl_Gateways c) gwKey)) (\<lambda>got.
           case got of
             Inl err \<Rightarrow> if IsNotFound err then retE lefts else throwE err
           | Inr gw \<Rightarrow> retE (lefts @ [gw]))) gwKeys []) (\<lambda>lefts.
     retE \<lparr>gd_NewGateways = [], gd_SameGateways = [], gd_LeftGateways = lefts\<rparr>)))"

definition rlp_deleteNetworkResourceBackReference :: "'w env \<Rightarrow> RateLimitPolicy \<Rightarrow> ('w, unit) io" where
  "rlp_deleteNetworkResourceBackReference c rlp =
     DeleteTargetBackReference c (ObjectKeyFromObject rlp) (rlp_TargetRef rlp) (obj_Namespace rlp)
       RateLimitPolicyBackRefAnnotation"

text \<open>A missing Limitador is no error here; every other error stops the clean-up.\<close>

definition finalizeRLP :: "'w env \<Rightarrow> RateLimitPolicy \<Rightarrow> ('w, unit) io" where
  "finalizeRLP c rlp =
     bindE (computeFinalizeGatewayDiff c rlp) (\<lambda>gatewayDiffObj.
     bindE (reconcileGatewayRLPReferences c rlp gatewayDiffObj) (\<lambda>gatewayDiffObj.
     bindE (reconcileWASMPluginConf c rlp gatewayDiffObj) (\<lambda>_.
     bindE (reconcileRateLimitingClusterEnvoyFilter c rlp gatewayDiffObj) (\<lambda>_.
     bindE (attempt (reconcileLimits c rlp gatewayDiffObj)) (\<lambda>limits.
     bindE (case limits of
              Inl err \<Rightarrow> if \<not> IsNotFound err then throwE err else retE ()
            | Inr _ \<Rightarrow> retE ()) (\<lambda>_.
     rlp_deleteNetworkResourceBackReference c rlp))))))"

section \<open>Who writes what\<close>

lemma gatewayLimits_pure:
  assumes "cluster_api c V"
  shows "snd (gatewayLimits c gw refs w) = w"
  using gatewayLimits_run[OF assms, where gw = gw and refs = refs and w = w] by (auto split: option.splits)

lemma preserves_Limits:
  assumes "cluster_api c V"
  shows "preserves (\<lambda>w. V w\<lparr>sn_Limitadors := Map.empty\<rparr> = F) (reconcileLimits c rlp diff)"
proof -
  have api: "kind_api V sn_Limitadors (sn_Limitadors_update (\<lambda>_. Map.empty)) (cl_Limitadors c)"
    using assms by (simp add: cluster_api_def)
  show ?thesis
    unfolding reconcileLimits_alt recompute_index_def replace_gateway_def UpdateResource_def Let_def
    by (intro pres preserves_kind(2)[OF api] preserves_store_Get[OF cluster_store(5)[OF assms]]
        preserves_pure gatewayLimits_pure[OF assms])
qed

lemma FetchValidTargetRef_pure:
  assumes "cluster_api c V"
  shows "snd (FetchValidTargetRef c tr ns w) = w"
  by (rule FetchValidTargetRef_run[OF assms, of w tr ns]) simp_all

lemma preserves_coarser:
  "(\<And>F. preserves (\<lambda>w. f w = F) m) \<Longrightarrow> (\<And>w. g w = h (f w)) \<Longrightarrow> preserves (\<lambda>w. g w = R) m"
  by (auto simp: preserves_def)

text \<open>No step of either path writes a policy.\<close>

lemma preserves_update_target:
  assumes "cluster_api c V" "\<And>s. h (s\<lparr>sn_HTTPRoutes := Map.empty\<rparr>) = h s" "\<And>s. h (s\<lparr>sn_Gateways := Map.empty\<rparr>) = h s"
  shows "preserves (\<lambda>w. h (V w) = R) (update_target c obj)"
proof -
  have routes: "kind_api V sn_HTTPRoutes (sn_HTTPRoutes_update (\<lambda>_. Map.empty)) (cl_HTTPRoutes c)"
    and gws: "kind_api V sn_Gateways (sn_Gateways_update (\<lambda>_. Map.empty)) (cl_Gateways c)"
    using assms(1) by (simp_all add: cluster_api_def)
  have "preserves (\<lambda>w. h (V w) = R) (api_Update (cl_HTTPRoutes c) r)" for r
    by (rule preserves_coarser[OF preserves_kind(2)[OF routes], where h = h]) (simp add: assms(2))
  moreover have "preserves (\<lambda>w. h (V w) = R) (api_Update (cl_Gateways c) g)" for g
    by (rule preserves_coarser[OF preserves_kind(2)[OF gws], where h = h]) (simp add: assms(3))
  ultimately show ?thesis
    by (cases obj) (auto simp: update_target_def UpdateResource_def intro!: pres)
qed

lemma preserves_back_reference:
  assumes "cluster_api c V" "\<And>s. h (s\<lparr>sn_HTTPRoutes := Map.empty\<rparr>) = h s" "\<And>s. h (s\<lparr>sn_Gateways := Map.empty\<rparr>) = h s"
  shows "preserves (\<lambda>w. h (V w) = R) (ReconcileTargetBackReference c pk tr ns ann)"
    and "preserves (\<lambda>w. h (V w) = R) (DeleteTargetBackReference c pk tr ns ann)"
  unfolding ReconcileTargetBackReference_def DeleteTargetBackReference_def Let_def
  by (intro pres preserves_pure FetchValidTargetRef_pure[OF assms(1)] preserves_update_target[OF assms])+

lemma preserves_RLPs_steps:
  assumes "cluster_api c V"
  shows "preserves (\<lambda>w. sn_RLPs (V w) = R) (reconcileLimits c rlp diff)"
    and "preserves (\<lambda>w. sn_RLPs (V w) = R) (reconcileRateLimitingClusterEnvoyFilter c rlp diff)"
    and "preserves (\<lambda>w. sn_RLPs (V w) = R) (reconcileWASMPluginConf c rlp diff)"
    and "preserves (\<lambda>w. sn_RLPs (V w) = R) (reconcileGatewayRLPReferences c rlp diff)"
    and "preserves (\<lambda>w. sn_RLPs (V w) = R) (ReconcileTargetBackReference c pk tr ns ann)"
    and "preserves (\<lambda>w. sn_RLPs (V w) = R) (DeleteTargetBackReference c pk tr ns ann)"
proof -
  show "preserves (\<lambda>w. sn_RLPs (V w) = R) (reconcileLimits c rlp diff)"
    by (rule preserves_coarser[OF preserves_Limits[OF assms], where h = sn_RLPs]) simp
  show "preserves (\<lambda>w. sn_RLPs (V w) = R) (reconcileRateLimitingClusterEnvoyFilter c rlp diff)"
    by (rule preserves_coarser[OF preserves_EnvoyFilter[OF assms], where h = sn_RLPs]) simp
  show "preserves (\<lambda>w. sn_RLPs (V w) = R) (reconcileWASMPluginConf c rlp diff)"
    by (rule preserves_coarser[OF preserves_WASMPluginConf[OF assms], where h = sn_RLPs]) simp
  show "preserves (\<lambda>w. sn_RLPs (V w) = R) (reconcileGatewayRLPReferences c rlp diff)"
    by (rule preserves_coarser[OF preserves_References[OF assms], where h = sn_RLPs]) simp
  show "preserves (\<lambda>w. sn_RLPs (V w) = R) (ReconcileTargetBackReference c pk tr ns ann)"
    "preserves (\<lambda>w. sn_RLPs (V w) = R) (DeleteTargetBackReference c pk tr ns ann)"
    by (rule preserves_back_reference[OF assms, where h = sn_RLPs]; simp)+
qed

lemma computeFinalizeGatewayDiff_pure:
  assumes "cluster_api c V"
  shows "snd (computeFinalizeGatewayDiff c rlp w) = w"
proof -
  have "preserves (\<lambda>w'. w' = w) (computeFinalizeGatewayDiff c rlp)"
    unfolding computeFinalizeGatewayDiff_def
    by (intro pres preserves_pure[of "TargetedGatewayKeys c _ _"] TargetedGatewayKeys_pure[OF assms]
        preserves_store_Get[OF cluster_store(3)[OF assms]])
  then show ?thesis by (simp add: preserves_def)
qed

lemma preserves_RLPs_finalize:
  assumes "cluster_api c V"
  shows "preserves (\<lambda>w. sn_RLPs (V w) = R) (finalizeRLP c rlp)"
  unfolding finalizeRLP_def rlp_deleteNetworkResourceBackReference_def
  by (intro pres preserves_RLPs_steps[OF assms] preserves_pure[of "computeFinalizeGatewayDiff c rlp"]
      computeFinalizeGatewayDiff_pure[OF assms])

section \<open>What the clean-up leaves\<close>

lemma fold_existing_gateways:
  assumes "cluster_api c V"
  shows "foldE (\<lambda>gwKey lefts. bindE (attempt (api_Get (cl_Gateways c) gwKey)) (\<lambda>got. case got of
       Inl err \<Rightarrow> if IsNotFound err then retE lefts else throwE err
     | Inr gw \<Rightarrow> retE (lefts @ [gw]))) keys acc w
   = (Inr (acc @ List.map_filter (sn_Gateways (V w)) keys), w)"
proof (induction keys arbitrary: acc)
  case Nil
  then show ?case by (simp add: List.map_filter_simps)
next
  case (Cons k keys)
  show ?case
    by (rule store_Get_cases[OF cluster_store(3)[OF assms], where w = w and k = k])
      (simp_all add: Cons.IH List.map_filter_simps)
qed

text \<open>The gateways of the clean-up are the stored ones of the keys.\<close>

definition clean_up_diff :: "snapshot \<Rightarrow> object_key list \<Rightarrow> gatewayDiff" where
  "clean_up_diff s keys =
     \<lparr>gd_NewGateways = [], gd_SameGateways = [], gd_LeftGateways = List.map_filter (sn_Gateways s) keys\<rparr>"

lemma clean_up_diff_sel [simp]:
  "gd_NewGateways (clean_up_diff s keys) = []" "gd_SameGateways (clean_up_diff s keys) = []"
  "gd_LeftGateways (clean_up_diff s keys) = List.map_filter (sn_Gateways s) keys"
  by (simp_all add: clean_up_diff_def)

lemma computeFinalizeGatewayDiff_run:
  assumes "cluster_api c V"
    "TargetedGatewayKeys c (rlp_TargetRef rlp) (obj_Namespace rlp) w = (Inr keys, w)"
  shows "computeFinalizeGatewayDiff c rlp w = (Inr (clean_up_diff (V w) keys), w)"
  by (simp add: clean_up_diff_def computeFinalizeGatewayDiff_def assms(2) fold_existing_gateways[OF assms(1)])

lemma refs_without_remove1: "refs_without refs k = remove1 k refs"
  by (cases "k \<in> set refs")
    (simp_all add: refs_without_def Let_def FindObjectKey_length remove_FindObjectKey remove1_idem)

text \<open>The parts of a gateway its plugin and its filter depend on.\<close>

definition same_config :: "gateway \<Rightarrow> gateway \<Rightarrow> bool" where
  "same_config a b \<longleftrightarrow> ObjectKeyFromObject a = ObjectKeyFromObject b \<and> gw_Listeners a = gw_Listeners b \<and>
     obj_Labels a = obj_Labels b"

lemma same_config_wanted:
  assumes "same_config a b"
  shows "plugin_as_wanted c s (a, refs) = plugin_as_wanted c s (b, refs)"
    "filter_as_wanted c s (a, refs) = filter_as_wanted c s (b, refs)"
    "plugin_key a = plugin_key b" "filter_key a = filter_key b"
proof -
  have eq: "Key (Some a) = Key (Some b)" "Hostnames (Some a) = Hostnames (Some b)"
    using assms by (simp_all add: same_config_def Key_def Hostnames_Some)
  have "config_for (Some a) g prs = config_for (Some b) g prs" for g prs
    unfolding config_for_def wasm_rate_limit_policy_def gateway_actions_at_def gateway_domains_def eq by (rule refl)
  then show "plugin_as_wanted c s (a, refs) = plugin_as_wanted c s (b, refs)"
    by (simp add: plugin_as_wanted_def fun_eq_iff)
  show "filter_as_wanted c s (a, refs) = filter_as_wanted c s (b, refs)"
    "plugin_key a = plugin_key b" "filter_key a = filter_key b"
    using assms by (auto simp: same_config_def filter_as_wanted_def fun_eq_iff plugin_key_def filter_key_def
        ObjectKeyFromObject_def)
qed

lemma content_eq_same_config:
  assumes "content_eq a b"
  shows "same_config a b"
  using arg_cong[OF assms[unfolded content_eq_def], of ObjectKeyFromObject]
    arg_cong[OF assms[unfolded content_eq_def], of gw_Listeners]
    arg_cong[OF assms[unfolded content_eq_def], of obj_Labels]
  by (simp add: same_config_def ObjectKeyFromObject_def)

text \<open>Writing the back reference of a target does not change what plugins and filters are wanted.\<close>

lemma reannotated_route:
  fixes a b :: http_route
  assumes "reannotated ann a b"
  shows "rt_Hostnames b = rt_Hostnames a" "rt_Rules b = rt_Rules a" "rt_Parents b = rt_Parents a"
    "rt_ParentRefs b = rt_ParentRefs a" "obj_Namespace b = obj_Namespace a"
  using assms by (cases a; cases b; simp add: reannotated_def)+

lemma reannotated_gateway:
  fixes a b :: gateway
  assumes "reannotated ann a b"
  shows "same_config b a"
    and "ann \<noteq> KuadrantRateLimitPolicyRefAnnotation \<Longrightarrow> refs_of J (Some b) = refs_of J (Some a)"
    and "ann \<noteq> KuadrantRateLimitPolicyRefAnnotation \<Longrightarrow> refs_readable J (Some b) = refs_readable J (Some a)"
proof -
  show "same_config b a"
    using assms by (cases a; cases b) (simp add: reannotated_def same_config_def ObjectKeyFromObject_def)
  assume "ann \<noteq> KuadrantRateLimitPolicyRefAnnotation"
  then have "annotations_of b KuadrantRateLimitPolicyRefAnnotation = annotations_of a KuadrantRateLimitPolicyRefAnnotation"
    using assms by (simp add: reannotated_def)
  then show "refs_of J (Some b) = refs_of J (Some a)" "refs_readable J (Some b) = refs_readable J (Some a)"
    by (simp_all add: refs_of_def RLPRefs_def refs_readable_def)
qed

lemma mergeGatewayActions_reannotated:
  assumes "reannotated ann r r'"
  shows "mergeGatewayActions p g r' = mergeGatewayActions p g r"
proof -
  have "rule_from_match r' = rule_from_match r"
    by (simp add: rule_from_match_def RouteHostnames_Some reannotated_route[OF assms] fun_eq_iff)
  then have "RulesFromHTTPRoute (Some r') = RulesFromHTTPRoute (Some r)"
    by (simp add: RulesFromHTTPRoute_def rules_of_route_rules_concat RouteHostnames_Some
        reannotated_route[OF assms])
  then have "gateway_action (Some r') = gateway_action (Some r)"
    by (simp add: gateway_action_def fun_eq_iff Let_def cong: if_cong)
  then show ?thesis
    by (simp add: mergeGatewayActions_def GatewayActionsFromRateLimitPolicy_def)
qed

text \<open>The same policies, with routes that differ in one annotation at most.\<close>

definition same_routes ::
    "string \<Rightarrow> (RateLimitPolicy \<times> http_route) list \<Rightarrow> (RateLimitPolicy \<times> http_route) list \<Rightarrow> bool" where
  "same_routes ann = list_all2 (\<lambda>a b. fst b = fst a \<and> reannotated ann (snd a) (snd b))"

lemma config_for_same_routes:
  assumes "same_routes ann prs prs'"
  shows "config_for gw g prs' = config_for gw g prs"
proof -
  have "gateway_actions_at gw g prs' d = gateway_actions_at gw g prs d" for d
  proof -
    have "concat (map (\<lambda>(p, r). concat (replicate (count_list (rt_Hostnames r) d) (mergeGatewayActions p g r))) prs') =
        concat (map (\<lambda>(p, r). concat (replicate (count_list (rt_Hostnames r) d) (mergeGatewayActions p g r))) prs)"
      using assms unfolding same_routes_def
      by (induction rule: list_all2_induct)
        (auto simp: reannotated_route mergeGatewayActions_reannotated split: prod.splits)
    then show ?thesis by (simp add: gateway_actions_at_def)
  qed
  moreover have "gateway_domains gw g prs' = gateway_domains gw g prs"
  proof -
    have "(\<Union>(p, r) \<in> set prs'. set (rt_Hostnames r)) = (\<Union>(p, r) \<in> set prs. set (rt_Hostnames r))"
      using assms unfolding same_routes_def
      by (induction rule: list_all2_induct) (auto simp: reannotated_route split: prod.splits)
    then show ?thesis by (simp add: gateway_domains_def)
  qed
  ultimately show ?thesis by (simp add: config_for_def fun_eq_iff)
qed

lemma those_rel:
  assumes "\<And>x. rel_option R (f x) (f' x)"
  shows "rel_option (list_all2 R) (those (map f xs)) (those (map f' xs))"
proof (induction xs)
  case (Cons x xs)
  then show ?case
    using assms[of x] by (auto elim!: option.rel_cases)
qed simp

lemma usable_route_retargeted:
  assumes "retargeted ann s s'"
  shows "rel_option (reannotated ann) (usable_route c s k) (usable_route c s' k)"
proof -
  have "rel_option (reannotated ann) (sn_HTTPRoutes s k) (sn_HTTPRoutes s' k)"
    using assms by (simp add: retargeted_def)
  moreover have "usable_target c (TargetHTTPRoute b) = usable_target c (TargetHTTPRoute a)"
    if "reannotated ann a b" for a b :: http_route
    by (simp add: usable_target_def routeParentStatus_def reannotated_route[OF that])
  ultimately show ?thesis
    by (auto simp: usable_route_def elim!: option.rel_cases)
qed

lemma resolve_retargeted:
  assumes "retargeted ann s s'" "resolve c s refs = Some (g, prs)"
  shows "\<exists>prs'. resolve c s' refs = Some (g, prs') \<and> same_routes ann prs prs'"
proof -
  note rlps = retargeted_sel(1)[OF assms(1)]
  from assms(2) obtain ps where ps: "those (map (sn_RLPs s) refs) = Some ps"
    by (auto simp: resolve_def split: option.splits)
  let ?rs = "filter (\<lambda>p. tr_Kind (rlp_TargetRef p) = ''HTTPRoute'') ps"
  let ?gs = "filter (\<lambda>p. tr_Kind (rlp_TargetRef p) = ''Gateway'') ps"
  from assms(2) ps obtain routes where routes: "those (map (\<lambda>p. usable_route c s (TargetKey p)) ?rs) = Some routes"
    and gs: "?gs = opt_list g" "prs = zip ?rs routes"
    by (auto simp: resolve_def Let_def opt_list_def split: option.splits list.splits)
  have "rel_option (list_all2 (reannotated ann)) (those (map (\<lambda>p. usable_route c s (TargetKey p)) ?rs))
      (those (map (\<lambda>p. usable_route c s' (TargetKey p)) ?rs))"
    by (rule those_rel) (rule usable_route_retargeted[OF assms(1)])
  with routes obtain routes' where routes': "those (map (\<lambda>p. usable_route c s' (TargetKey p)) ?rs) = Some routes'"
    "list_all2 (reannotated ann) routes routes'"
    by (auto elim: option.rel_cases)
  have "resolve c s' refs = Some (g, zip ?rs routes')"
    using ps routes'(1) gs(1) by (cases g) (auto simp: resolve_def rlps Let_def)
  moreover have "same_routes ann (zip rs routes) (zip rs routes')" for rs :: "RateLimitPolicy list"
    using routes'(2)
  proof (induction arbitrary: rs rule: list_all2_induct)
    case (Cons x xs y ys)
    then show ?case by (cases rs) (simp_all add: same_routes_def)
  qed (simp add: same_routes_def)
  ultimately show ?thesis using gs(2) by blast
qed

lemma wanted_retargeted:
  assumes "retargeted ann s s'"
  shows "plugin_as_wanted c s gr p \<Longrightarrow> plugin_as_wanted c s' gr p"
    and "filter_as_wanted c s' gr f = filter_as_wanted c s gr f"
proof -
  show "plugin_as_wanted c s' gr p" if "plugin_as_wanted c s gr p"
  proof (cases "snd gr = []")
    case False
    with that obtain g prs config st obj where *: "resolve c s (snd gr) = Some (g, prs)"
      "config_for (Some (fst gr)) g prs config" "ToStruct (lib_Wasm c) config = Inr st" "p = Some obj"
      "WASMPluginFromStruct (lib_Wasm c) (wp_PluginConfig obj) = WASMPluginFromStruct (lib_Wasm c) (Some st)"
      by (auto simp: plugin_as_wanted_def)
    from resolve_retargeted[OF assms *(1)] obtain prs' where
      "resolve c s' (snd gr) = Some (g, prs')" "same_routes ann prs prs'" by blast
    with * False config_for_same_routes[OF this(2)] show ?thesis
      by (auto simp: plugin_as_wanted_def)
  qed (use that in \<open>simp add: plugin_as_wanted_def\<close>)
  show "filter_as_wanted c s' gr f = filter_as_wanted c s gr f"
    by (simp add: filter_as_wanted_cong[OF retargeted_sel(3)[OF assms]])
qed

lemma reconcileLimits_missing:
  assumes "cluster_api c V" "reconcileLimits c rlp diff w = (Inl e, w')" "IsNotFound e"
    and "gd_SameGateways diff = []" "gd_NewGateways diff = []"
  shows "sn_Limitadors (V w) (limitadorKey c) = None"
proof (rule store_Get_cases[OF cluster_store(5)[OF assms(1)], where w = w and k = "limitadorKey c"])
  fix lim assume lim: "(sn_Limitadors \<circ> V) w (limitadorKey c) = Some lim"
    and key: "ObjectKeyFromObject lim = limitadorKey c"
    and get: "api_Get (cl_Limitadors c) (limitadorKey c) w = (Inr lim, w)"
  have "recomputed (lib_Json c) rlp diff = []" using assms(4,5) by (simp add: recomputed_def)
  with assms(2) get obtain ls where "api_Update (cl_Limitadors c) (lim\<lparr>lim_Limits := ls\<rparr>) w = (Inl e, w')"
    by (auto simp: reconcileLimits_alt recompute_index_def UpdateResource_def bindE_def
        split: if_splits prod.splits sum.splits)
  from store_failure(4)[OF cluster_store(5)[OF assms(1)] this assms(3)] lim key
  show ?thesis by (simp add: ObjectKeyFromObject_def)
qed simp

text \<open>reconcileLimits does not touch the status of the Limitador, which the filters depend on.\<close>

lemma reconcileLimits_status:
  assumes "cluster_api c V" "reconcileLimits c rlp diff w = (r, w')"
    and "gd_SameGateways diff = []" "gd_NewGateways diff = []"
  shows "map_option lim_Status (sn_Limitadors (V w') (limitadorKey c)) =
    map_option lim_Status (sn_Limitadors (V w) (limitadorKey c))"
proof (rule store_Get_cases[OF cluster_store(5)[OF assms(1)], where w = w and k = "limitadorKey c"])
  fix e assume "api_Get (cl_Limitadors c) (limitadorKey c) w = (Inl e, w)"
  with assms(2) show ?thesis by (simp add: reconcileLimits_alt)
next
  fix lim assume lim: "(sn_Limitadors \<circ> V) w (limitadorKey c) = Some lim"
    and key: "ObjectKeyFromObject lim = limitadorKey c"
    and get: "api_Get (cl_Limitadors c) (limitadorKey c) w = (Inr lim, w)"
  have api: "kind_api V sn_Limitadors (sn_Limitadors_update (\<lambda>_. Map.empty)) (cl_Limitadors c)"
    using assms(1) by (simp add: cluster_api_def)
  have "recomputed (lib_Json c) rlp diff = []" using assms(3,4) by (simp add: recomputed_def)
  with assms(2) get consider "w' = w"
    | ls r1 where "api_Update (cl_Limitadors c) (lim\<lparr>lim_Limits := ls\<rparr>) w = (r1, w')"
    by (auto simp: reconcileLimits_alt recompute_index_def UpdateResource_def bindE_def
        split: if_splits prod.splits sum.splits)
  then show ?thesis
  proof cases
    case (2 ls r1)
    show ?thesis
    proof (cases r1)
      case (Inl e)
      with 2 kind_failure(2)[OF api] show ?thesis by fastforce
    next
      case (Inr lim')
      note u = kind_update[OF api 2[unfolded Inr]]
      have "lim_Status lim' = lim_Status lim"
        using arg_cong[OF u(1)[unfolded content_eq_def], of lim_Status] by simp
      with u(2) lim key show ?thesis by (simp add: ObjectKeyFromObject_def)
    qed
  qed simp
qed

lemma filter_as_wanted_status:
  "map_option lim_Status (sn_Limitadors s' (limitadorKey c)) = map_option lim_Status (sn_Limitadors s (limitadorKey c)) \<Longrightarrow>
   filter_as_wanted c s' gr f = filter_as_wanted c s gr f"
  by (cases "sn_Limitadors s (limitadorKey c)"; cases "sn_Limitadors s' (limitadorKey c)")
    (simp_all add: filter_as_wanted_def)

text \<open>What the clean-up leaves of one gateway.\<close>

definition gateway_clean :: "'w env \<Rightarrow> snapshot \<Rightarrow> object_key \<Rightarrow> gateway \<Rightarrow> bool" where
  "gateway_clean c s rk gw \<longleftrightarrow>
     rk \<notin> set (refs_of (lib_Json c) (Some gw)) \<and>
     plugin_as_wanted c s (gw, refs_of (lib_Json c) (Some gw)) (sn_WasmPlugins s (plugin_key gw)) \<and>
     filter_as_wanted c s (gw, refs_of (lib_Json c) (Some gw)) (sn_EnvoyFilters s (filter_key gw)) \<and>
     (\<forall>lim. sn_Limitadors s (limitadorKey c) = Some lim \<longrightarrow>
        (\<forall>d. limits_named (lim_Limits lim) (ObjectKeyFromObject gw) d = []))"

lemma finalizeRLP_steps:
  assumes "cluster_api c V" "finalizeRLP c rlp w = (Inr (), w')"
    and "TargetedGatewayKeys c (rlp_TargetRef rlp) (obj_Namespace rlp) w = (Inr keys, w)"
  obtains diff' w1 w2 w3 r w4 where
    "reconcileGatewayRLPReferences c rlp (clean_up_diff (V w) keys) w = (Inr diff', w1)"
    "reconcileWASMPluginConf c rlp diff' w1 = (Inr (), w2)"
    "reconcileRateLimitingClusterEnvoyFilter c rlp diff' w2 = (Inr (), w3)"
    "reconcileLimits c rlp diff' w3 = (r, w4)" "\<And>e. r = Inl e \<Longrightarrow> IsNotFound e"
    "rlp_deleteNetworkResourceBackReference c rlp w4 = (Inr (), w')"
proof -
  from assms(2) obtain diff' w1 w2 w3 where steps:
    "reconcileGatewayRLPReferences c rlp (clean_up_diff (V w) keys) w = (Inr diff', w1)"
    "reconcileWASMPluginConf c rlp diff' w1 = (Inr (), w2)"
    "reconcileRateLimitingClusterEnvoyFilter c rlp diff' w2 = (Inr (), w3)"
    and rest: "bindE (attempt (reconcileLimits c rlp diff')) (\<lambda>limits.
      bindE (case limits of Inl err \<Rightarrow> if \<not> IsNotFound err then throwE err else retE () | Inr _ \<Rightarrow> retE ())
        (\<lambda>_. rlp_deleteNetworkResourceBackReference c rlp)) w3 = (Inr (), w')"
    unfolding finalizeRLP_def
    by (auto simp: computeFinalizeGatewayDiff_run[OF assms(1,3)] elim!: bindE_InrE)
  obtain r w4 where lim: "reconcileLimits c rlp diff' w3 = (r, w4)" by fastforce
  show thesis
  proof (cases r)
    case (Inl e)
    with rest lim show thesis
      by (cases "is_panic e"; cases "IsNotFound e") (auto intro: that[OF steps])
  next
    case (Inr u)
    with rest lim show thesis by (auto intro: that[OF steps])
  qed
qed

text \<open>Each of its gateways loses its reference.\<close>

lemma clean_up_lefts:
  assumes "cluster_api c V"
  shows "gw \<in> set (List.map_filter (sn_Gateways (V w)) keys) \<longleftrightarrow>
      ObjectKeyFromObject gw \<in> set keys \<and> sn_Gateways (V w) (ObjectKeyFromObject gw) = Some gw"
    and "distinct keys \<Longrightarrow> distinct (map ObjectKeyFromObject (List.map_filter (sn_Gateways (V w)) keys))"
proof -
  have key: "ObjectKeyFromObject gw = k" if "sn_Gateways (V w) k = Some gw" for k gw
    using store_Get_Some[OF cluster_store(3)[OF assms(1)], where w = w and k = k and obj = gw] that by simp
  have lefts: "gw \<in> set (List.map_filter (sn_Gateways (V w)) ks) \<longleftrightarrow> (\<exists>k \<in> set ks. sn_Gateways (V w) k = Some gw)" for gw ks
    by (force simp: List.map_filter_def image_iff)
  then show "gw \<in> set (List.map_filter (sn_Gateways (V w)) keys) \<longleftrightarrow>
      ObjectKeyFromObject gw \<in> set keys \<and> sn_Gateways (V w) (ObjectKeyFromObject gw) = Some gw"
    using key by blast
  assume "distinct keys"
  then show "distinct (map ObjectKeyFromObject (List.map_filter (sn_Gateways (V w)) keys))"
  proof (induction keys)
    case (Cons k ks)
    have "ObjectKeyFromObject gw \<in> set ks" if "gw \<in> set (List.map_filter (sn_Gateways (V w)) ks)" for gw
      using that key by (auto simp: lefts)
    with Cons key show ?case
      by (force simp: List.map_filter_simps split: option.split)
  qed (simp add: List.map_filter_simps)
qed

lemma clean_up_jobs:
  assumes "cluster_api c V" "distinct keys"
    and "reconcileGatewayRLPReferences c rlp (clean_up_diff (V w) keys) w = (Inr diff', w1)"
  shows "jobs_running (reference_work (lib_Json c) rlp (clean_up_diff (V w) keys)) (V w) (V w1)"
    and "\<And>gw. gw \<in> set (List.map_filter (sn_Gateways (V w)) keys) \<Longrightarrow>
      job_done (gw, DeleteRLP (lib_Json c) (ObjectKeyFromObject rlp) (Some gw)) (V w1)"
    and "\<And>k. rel_option (reannotated KuadrantRateLimitPolicyRefAnnotation) (sn_Gateways (V w) k) (sn_Gateways (V w1) k)"
proof -
  let ?diff = "clean_up_diff (V w) keys"
  note lefts = clean_up_lefts[OF assms(1), where w = w and keys = keys]
  have stored: "list_all (\<lambda>gw. sn_Gateways (V w) (ObjectKeyFromObject gw) = Some gw) (gd_LeftGateways ?diff @ gd_NewGateways ?diff)"
    using lefts(1) by (simp add: list_all_iff)
  have "jobs_running (reference_work (lib_Json c) rlp ?diff) (V w) (V w1) \<and>
      (\<forall>job \<in> set (reference_work (lib_Json c) rlp ?diff). job_done job (V w1))"
    by (rule reconcileReferences_run[OF assms(1,3)]) (use lefts(2)[OF assms(2)] stored in simp_all)
  then show running: "jobs_running (reference_work (lib_Json c) rlp ?diff) (V w) (V w1)"
    and "\<And>gw. gw \<in> set (List.map_filter (sn_Gateways (V w)) keys) \<Longrightarrow>
      job_done (gw, DeleteRLP (lib_Json c) (ObjectKeyFromObject rlp) (Some gw)) (V w1)"
    by (auto simp: reference_work_def)
  show "rel_option (reannotated KuadrantRateLimitPolicyRefAnnotation) (sn_Gateways (V w) k) (sn_Gateways (V w1) k)" for k
    by (rule references_reannotated[OF running stored])
qed

lemma clean_up_results:
  assumes "cluster_api c V" "reconcileGatewayRLPReferences c rlp (clean_up_diff (V w) keys) w = (Inr diff', w1)"
  shows "gd_NewGateways diff' = []" "gd_SameGateways diff' = []"
    and "list_all2 (\<lambda>gw z. content_eq z (the (snd (DeleteRLP (lib_Json c) (ObjectKeyFromObject rlp) (Some gw)))))
      (List.map_filter (sn_Gateways (V w)) keys) (gd_LeftGateways diff')"
    and "map ObjectKeyFromObject (gd_LeftGateways diff') =
      map ObjectKeyFromObject (List.map_filter (sn_Gateways (V w)) keys)"
proof -
  note res = reconcileReferences_result[OF assms, simplified]
  show "gd_NewGateways diff' = []" "gd_SameGateways diff' = []" using res by simp_all
  show results: "list_all2 (\<lambda>gw z. content_eq z (the (snd (DeleteRLP (lib_Json c) (ObjectKeyFromObject rlp) (Some gw)))))
      (List.map_filter (sn_Gateways (V w)) keys) (gd_LeftGateways diff')"
    using res by simp
  have "ObjectKeyFromObject (the (snd (DeleteRLP J k (Some gw)))) = ObjectKeyFromObject gw" for J k gw
    using DeleteRLP_job[of gw J k] by (auto simp: job_ok_def split: prod.splits)
  with results show "map ObjectKeyFromObject (gd_LeftGateways diff') =
      map ObjectKeyFromObject (List.map_filter (sn_Gateways (V w)) keys)"
    by (induction rule: list_all2_induct) (auto dest: content_eq_sel(2))
qed

text \<open>The gateways of the clean-up, before and after their references were written.\<close>

lemma cleaned_gateways:
  assumes "cluster_api c V" "refs_json (lib_Json c) ok" "ok (ObjectKeyFromObject rlp)"
    and "refs_sound (lib_Json c) (V w)" "distinct keys"
    and "reconcileGatewayRLPReferences c rlp (clean_up_diff (V w) keys) w = (Inr diff', w1)"
  shows "distinct (map ObjectKeyFromObject (gd_LeftGateways diff'))"
    and "V w1\<lparr>sn_Gateways := Map.empty\<rparr> = V w\<lparr>sn_Gateways := Map.empty\<rparr>"
    and "\<And>k x. k \<in> set keys \<Longrightarrow> sn_Gateways (V w1) k = Some x \<Longrightarrow>
      \<exists>z \<in> set (gd_LeftGateways diff'). ObjectKeyFromObject z = k \<and> same_config z x \<and>
        refs_of (lib_Json c) (Some x) = refs_of (lib_Json c) (Some z) \<and>
        ObjectKeyFromObject rlp \<notin> set (refs_of (lib_Json c) (Some z))"
    and "\<And>k. k \<notin> set keys \<Longrightarrow> sn_Gateways (V w1) k = sn_Gateways (V w) k"
    and "\<And>z. z \<in> set (gd_LeftGateways diff') \<Longrightarrow> \<exists>gw. ObjectKeyFromObject gw \<in> set keys \<and>
      sn_Gateways (V w) (ObjectKeyFromObject gw) = Some gw \<and>
      refs_of (lib_Json c) (Some z) = remove1 (ObjectKeyFromObject rlp) (refs_of (lib_Json c) (Some gw))"
proof -
  let ?J = "lib_Json c" and ?rk = "ObjectKeyFromObject rlp"
  let ?lefts = "List.map_filter (sn_Gateways (V w)) keys"
  note lefts = clean_up_lefts[OF assms(1), where w = w and keys = keys]
  note jobs = clean_up_jobs[OF assms(1,5,6)]
  note results = clean_up_results[OF assms(1,6)]
  have key: "ObjectKeyFromObject gw = k" if "sn_Gateways (V w) k = Some gw" for k gw
    using store_Get_Some[OF cluster_store(3)[OF assms(1)], where w = w and k = k and obj = gw] that by simp
  show "distinct (map ObjectKeyFromObject (gd_LeftGateways diff'))"
    using results(4) lefts(2)[OF assms(5)] by simp
  show "V w1\<lparr>sn_Gateways := Map.empty\<rparr> = V w\<lparr>sn_Gateways := Map.empty\<rparr>"
    using jobs(1) by (simp add: jobs_running_def)
  show "sn_Gateways (V w1) k = sn_Gateways (V w) k" if "k \<notin> set keys" for k
  proof -
    have "k \<notin> (ObjectKeyFromObject \<circ> fst) ` set (reference_work ?J rlp (clean_up_diff (V w) keys))"
      using that lefts(1) by (auto simp: reference_work_def)
    with jobs(1) show ?thesis by (auto simp: jobs_running_def)
  qed
  have removed: "refs_of ?J (Some (the (snd (DeleteRLP ?J ?rk (Some gw))))) = remove1 ?rk (refs_of ?J (Some gw))" for gw
    using refs_json.DeleteRLP_refs[OF assms(2), of ?rk "Some gw"] DeleteRLP_job[of gw ?J ?rk]
    by (auto simp: job_ok_def split: prod.splits)
  show "\<exists>gw. ObjectKeyFromObject gw \<in> set keys \<and> sn_Gateways (V w) (ObjectKeyFromObject gw) = Some gw \<and>
      refs_of ?J (Some z) = remove1 ?rk (refs_of ?J (Some gw))" if "z \<in> set (gd_LeftGateways diff')" for z
  proof -
    from that results(3) obtain gw where gw: "gw \<in> set ?lefts"
      "content_eq z (the (snd (DeleteRLP ?J ?rk (Some gw))))"
      by (metis in_set_conv_nth list_all2_conv_all_nth)
    with lefts(1)[of gw] content_eq_refs[OF gw(2), of ?J] removed[of gw] show ?thesis by auto
  qed
  fix k x assume k: "k \<in> set keys" and x: "sn_Gateways (V w1) k = Some x"
  from jobs(3)[of k] x obtain gw where gw: "sn_Gateways (V w) k = Some gw"
    by (auto elim: option.rel_cases)
  with k key lefts(1)[of gw] have left: "gw \<in> set ?lefts" by blast
  with results(3) obtain z where z: "z \<in> set (gd_LeftGateways diff')"
    "content_eq z (the (snd (DeleteRLP ?J ?rk (Some gw))))"
    by (metis in_set_conv_nth list_all2_conv_all_nth)
  from jobs(2)[OF left] x key[OF gw] have xc: "content_eq x (the (snd (DeleteRLP ?J ?rk (Some gw))))"
    by (auto simp: job_done_def split: prod.splits)
  have "distinct (refs_of ?J (Some gw))" using assms(4) gw by (auto simp: refs_sound_def)
  then have "?rk \<notin> set (refs_of ?J (Some z))" "refs_of ?J (Some x) = refs_of ?J (Some z)"
    using removed[of gw] content_eq_refs[OF z(2), of ?J] content_eq_refs[OF xc, of ?J] by simp_all
  moreover have "same_config z x"
    using content_eq_same_config[OF z(2)] content_eq_same_config[OF xc] by (simp add: same_config_def)
  moreover have "ObjectKeyFromObject z = k"
    using content_eq_sel(2)[OF z(2)] DeleteRLP_job[of gw ?J ?rk] key[OF gw] by (auto simp: job_ok_def split: prod.splits)
  ultimately show "\<exists>z \<in> set (gd_LeftGateways diff'). ObjectKeyFromObject z = k \<and> same_config z x \<and>
      refs_of ?J (Some x) = refs_of ?J (Some z) \<and> ?rk \<notin> set (refs_of ?J (Some z))"
    using z(1) by blast
qed

lemma finalizeRLP_run:
  assumes "cluster_api c V" "refs_json (lib_Json c) ok" "ok (ObjectKeyFromObject rlp)"
    and "refs_sound (lib_Json c) (V w)"
    and "TargetedGatewayKeys c (rlp_TargetRef rlp) (obj_Namespace rlp) w = (Inr keys, w)" "distinct keys"
    and "finalizeRLP c rlp w = (Inr (), w')"
  shows "(\<forall>k gw. k \<in> set keys \<longrightarrow> sn_Gateways (V w') k = Some gw \<longrightarrow>
      gateway_clean c (V w') (ObjectKeyFromObject rlp) gw) \<and>
    (\<forall>obj. target_at (V w') (rlp_TargetRef rlp) (obj_Namespace rlp) = Some obj \<longrightarrow>
      target_annotations obj RateLimitPolicyBackRefAnnotation = None) \<and>
    (\<forall>k. k \<notin> set keys \<longrightarrow> rel_option (reannotated RateLimitPolicyBackRefAnnotation)
      (sn_Gateways (V w) k) (sn_Gateways (V w') k)) \<and>
    sn_RLPs (V w') = sn_RLPs (V w)"
proof -
  let ?J = "lib_Json c" and ?rk = "ObjectKeyFromObject rlp"
  from finalizeRLP_steps[OF assms(1,7,5)] obtain diff' w1 w2 w3 r w4 where steps:
    "reconcileGatewayRLPReferences c rlp (clean_up_diff (V w) keys) w = (Inr diff', w1)"
    "reconcileWASMPluginConf c rlp diff' w1 = (Inr (), w2)"
    "reconcileRateLimitingClusterEnvoyFilter c rlp diff' w2 = (Inr (), w3)"
    "reconcileLimits c rlp diff' w3 = (r, w4)" and missing: "\<And>e. r = Inl e \<Longrightarrow> IsNotFound e"
    and release: "rlp_deleteNetworkResourceBackReference c rlp w4 = (Inr (), w')" by blast
  note res = clean_up_results[OF assms(1) steps(1)]
  note gws = cleaned_gateways[OF assms(1-4,6) steps(1)]
  have dist: "distinct (map ObjectKeyFromObject (gd_SameGateways diff' @ gd_NewGateways diff' @ gd_LeftGateways diff'))"
    using res(1,2) gws(1) by simp
  note plg = reconcileWASMPluginConf_run[OF assms(1) steps(2) work_distinct(1)[OF dist]]
  note flt = reconcileEnvoyFilter_run[OF assms(1) steps(3) work_distinct(2)[OF dist]]
  have recomputed: "recomputed (lib_Json c) rlp diff' = []" using res(1,2) by (simp add: recomputed_def)
  then have names: "names_ok c (V w3) rlp diff'" by (simp add: names_ok_def)
  have "distinct (map ObjectKeyFromObject (gd_SameGateways diff' @ gd_NewGateways diff'))"
    using res(1,2) by simp
  note lim = reconcileLimits_run[OF assms(1) steps(4) this names]
  have f3: "V w3\<lparr>sn_WasmPlugins := Map.empty, sn_EnvoyFilters := Map.empty\<rparr> =
      V w1\<lparr>sn_WasmPlugins := Map.empty, sn_EnvoyFilters := Map.empty\<rparr>"
    and p3: "sn_WasmPlugins (V w3) = sn_WasmPlugins (V w2)" "sn_Limitadors (V w3) = sn_Limitadors (V w2)"
    using plg flt by (cases "V w1"; cases "V w2"; cases "V w3"; simp)+
  have limits: "V w4\<lparr>sn_Limitadors := Map.empty\<rparr> = V w3\<lparr>sn_Limitadors := Map.empty\<rparr> \<and>
      (\<forall>lim z d. sn_Limitadors (V w4) (limitadorKey c) = Some lim \<longrightarrow> z \<in> set (gd_LeftGateways diff') \<longrightarrow>
        limits_named (lim_Limits lim) (ObjectKeyFromObject z) d = [])"
  proof (cases r)
    case (Inl e)
    with missing have "sn_Limitadors (V w3) (limitadorKey c) = None"
      using reconcileLimits_missing[OF assms(1)] steps(4) res(1,2) by blast
    with lim Inl show ?thesis by simp
  next
    case (Inr u)
    then have "r = Inr ()" by simp
    with lim obtain lim0 lim' :: limitador where upd: "sn_Limitadors (V w4) = (sn_Limitadors (V w3))(limitadorKey c \<mapsto> lim')"
      "\<forall>k d. mset (limits_named (lim_Limits lim') k d) =
         mset (limits_after c (V w3) rlp diff' (limits_named (lim_Limits lim0)) k d)"
      by blast
    have "limits_after c (V w3) rlp diff' old (ObjectKeyFromObject z) d = []"
      if "z \<in> set (gd_LeftGateways diff')" for old z d
      using that recomputed by (simp add: limits_after_def)
    with upd(2) have "limits_named (lim_Limits lim') (ObjectKeyFromObject z) d = []"
      if "z \<in> set (gd_LeftGateways diff')" for z d
      using that by (metis mset_zero_iff)
    with lim Inr upd(1) show ?thesis by simp
  qed
  have "retargeted RateLimitPolicyBackRefAnnotation (V w4) (V w')"
    using back_reference_retargeted(2)[OF assms(1)] release
    by (simp add: rlp_deleteNetworkResourceBackReference_def)
  note sel = retargeted_sel[OF this] and wanted = wanted_retargeted[OF this]
    and gateways = this[unfolded retargeted_def, THEN conjunct2, THEN conjunct2, rule_format]
  have w4: "sn_RLPs (V w4) = sn_RLPs (V w1)" "sn_HTTPRoutes (V w4) = sn_HTTPRoutes (V w1)"
    "sn_Gateways (V w4) = sn_Gateways (V w1)" "sn_WasmPlugins (V w4) = sn_WasmPlugins (V w2)"
    "sn_EnvoyFilters (V w4) = sn_EnvoyFilters (V w3)"
    using limits f3 p3 by (cases "V w1"; cases "V w2"; cases "V w3"; cases "V w4"; simp)+
  have "gateway_clean c (V w') ?rk gw" if k: "k \<in> set keys" and gw: "sn_Gateways (V w') k = Some gw" for k gw
  proof -
    from gateways[of k] gw obtain x where x: "sn_Gateways (V w1) k = Some x"
      and re: "reannotated RateLimitPolicyBackRefAnnotation x gw"
      by (auto simp: w4(3) elim: option.rel_cases)
    from gws(3)[OF k x] obtain z where z: "z \<in> set (gd_LeftGateways diff')" "ObjectKeyFromObject z = k"
      "same_config z x" "refs_of ?J (Some x) = refs_of ?J (Some z)" "?rk \<notin> set (refs_of ?J (Some z))"
      by blast
    have refs: "refs_of ?J (Some gw) = refs_of ?J (Some z)"
      using reannotated_gateway(2)[OF re] z(4)
      by (simp add: RateLimitPolicyBackRefAnnotation_def KuadrantRateLimitPolicyRefAnnotation_def)
    have conf: "same_config gw z"
      using reannotated_gateway(1)[OF re] z(3) by (simp add: same_config_def)
    have work: "(z, refs_of ?J (Some z)) \<in> set (plugin_work ?J rlp diff')"
      "(z, refs_of ?J (Some z)) \<in> set (filter_work ?J rlp diff')"
      using z(1,5) by (auto simp: plugin_work_def filter_work_def refs_without_remove1 remove1_idem image_iff)
    have "plugin_as_wanted c (V w') (z, refs_of ?J (Some z)) (sn_WasmPlugins (V w') (plugin_key z))"
      using plg work(1) by (intro wanted(1)) (auto simp: sel(4) w4(4) plugin_as_wanted_cong[OF w4(1,2)])
    moreover have "filter_as_wanted c (V w') (z, refs_of ?J (Some z)) (sn_EnvoyFilters (V w') (filter_key z))"
    proof -
      have "filter_as_wanted c (V w2) (z, refs_of ?J (Some z)) (sn_EnvoyFilters (V w3) (filter_key z))"
        using flt work(2) by auto
      moreover have "filter_as_wanted c (V w4) gr f = filter_as_wanted c (V w2) gr f" for gr f
        using filter_as_wanted_status[OF reconcileLimits_status[OF assms(1) steps(4) res(2,1)]]
        by (simp add: filter_as_wanted_cong[OF p3(2)])
      ultimately show ?thesis by (simp add: wanted(2) sel(5) w4(5))
    qed
    ultimately show ?thesis
      using refs z limits conf
      by (auto simp: gateway_clean_def same_config_wanted[OF conf] sel(3)) (metis same_config_def)
  qed
  moreover have "target_annotations obj RateLimitPolicyBackRefAnnotation = None"
    if obj: "target_at (V w') (rlp_TargetRef rlp) (obj_Namespace rlp) = Some obj" for obj
  proof (cases "target_at (V w4) (rlp_TargetRef rlp) (obj_Namespace rlp)")
    case None
    with DeleteTargetBackReference_run[OF assms(1) release[unfolded rlp_deleteNetworkResourceBackReference_def]] obj
    show ?thesis by simp
  next
    case (Some x)
    with DeleteTargetBackReference_run[OF assms(1) release[unfolded rlp_deleteNetworkResourceBackReference_def]] obj
    show ?thesis by auto
  qed
  moreover have "rel_option (reannotated RateLimitPolicyBackRefAnnotation) (sn_Gateways (V w) k) (sn_Gateways (V w') k)"
    if "k \<notin> set keys" for k
    using gateways[of k] gws(4)[OF that] by (simp add: w4(3))
  moreover have "sn_RLPs (V w') = sn_RLPs (V w)"
    by (rule preservesD[OF preserves_RLPs_finalize[OF assms(1)] refl assms(7)])
  ultimately show ?thesis by blast
qed


text \<open>The example cluster with the policy in effect.\<close>

definition referring_gateway :: gateway where
  "referring_gateway = set_refs_annotation example_gateway (marshal_refs (Some [ObjectKey ''default'' ''rlp'']))"

definition freed_gateway :: gateway where
  "freed_gateway = set_refs_annotation referring_gateway (marshal_refs (Some []))"

definition claimed_cluster :: cluster where
  "claimed_cluster = example_cluster\<lparr>cs_Gateways := [referring_gateway]\<rparr>"

lemma claimed_keys [go_eval]:
  "ObjectKeyFromObject referring_gateway = ObjectKey ''istio'' ''gw''"
  "ObjectKeyFromObject freed_gateway = ObjectKey ''istio'' ''gw''"
  "ObjectKeyFromObject (example_route\<lparr>obj_Annotations := m\<rparr>) = ObjectKey ''default'' ''toystore''"
  using example_keys(1,2) by (simp_all add: referring_gateway_def freed_gateway_def ObjectKeyFromObject_def)

lemma claimed_refs [simp]:
  "refs_of reference_json (Some referring_gateway) = [ObjectKey ''default'' ''rlp'']"
  "refs_of reference_json (Some freed_gateway) = []"
  "refs_readable reference_json (Some referring_gateway)"
  "DeleteRLP reference_json (ObjectKey ''default'' ''rlp'') (Some referring_gateway) = (True, Some freed_gateway)"
  by (simp_all add: referring_gateway_def freed_gateway_def refs_of_def RLPRefs_def refs_readable_def
      DeleteRLP_def set_refs_annotation_def annotations_of_def unmarshal_marshal_refs)

lemma claimed_cluster_sel [go_eval]:
  "cs_RLPs claimed_cluster = [route_policy, gateway_policy]" "cs_Gateways claimed_cluster = [referring_gateway]"
  "cs_HTTPRoutes claimed_cluster = [example_route]" "cs_Limitadors claimed_cluster = [example_limitador]"
  "cs_WasmPlugins claimed_cluster = []" "cs_EnvoyFilters claimed_cluster = []"
  by (simp_all add: claimed_cluster_def example_cluster_sel)

lemma route_policy_sel [go_eval]:
  "rlp_TargetRef route_policy = example_target" "obj_Namespace route_policy = ''default''"
  "target_key example_target ''default'' = ObjectKey ''default'' ''toystore''"
  "tr_Kind example_target = ''HTTPRoute''" "IsTargetRefHTTPRoute example_target"
  by (simp_all add: route_policy_def example_policy_def new_object_def k8s_object.defs target_key_def
      example_target_def IsTargetRefHTTPRoute_def)

lemma claimed_target [go_eval]:
  "cs_HTTPRoutes w = [example_route] \<Longrightarrow>
   target_at (cluster_view w) example_target ''default'' = Some (TargetHTTPRoute example_route)"
  by (simp add: target_at_def go_eval list_view_def)

lemma example_route_sel [go_eval]:
  "usable_target cluster_env (TargetHTTPRoute example_route)"
  "map (parent_key example_route) (rt_ParentRefs example_route) = [ObjectKey ''istio'' ''gw'']"
  "annotations_of example_route = [RateLimitPolicyBackRefAnnotation \<mapsto> ''default/rlp'']"
  by (simp_all add: usable_target_def routeParentStatus_def example_route_def new_object_def
      k8s_object.defs parent_key_def annotations_of_def)

lemma claimed_gateways:
  assumes "rlp_TargetRef rlp = example_target" "obj_Namespace rlp = ''default''"
  shows "TargetedGatewayKeys cluster_env (rlp_TargetRef rlp) (obj_Namespace rlp) (claimed_cluster\<lparr>cs_RLPs := rlps\<rparr>)
     = (Inr [ObjectKey ''istio'' ''gw''], claimed_cluster\<lparr>cs_RLPs := rlps\<rparr>)"
  by (cases rule: FetchValidHTTPRoute_run[OF cluster_store(4)[OF cluster_env_api],
        of "claimed_cluster\<lparr>cs_RLPs := rlps\<rparr>" "ObjectKey ''default'' ''toystore''"])
    (simp_all add: TargetedGatewayKeys_def assms go_eval list_view_def)

lemma finalizeRLP_example:
  assumes "rlp_TargetRef rlp = example_target" "ObjectKeyFromObject rlp = ObjectKey ''default'' ''rlp''"
  shows "\<exists>w'. finalizeRLP cluster_env rlp (claimed_cluster\<lparr>cs_RLPs := rlps\<rparr>) = (Inr (), w') \<and> cs_RLPs w' = rlps"
proof -
  have ns: "obj_Namespace rlp = ''default''" using assms(2) by (simp add: ObjectKeyFromObject_def)
  let ?w = "claimed_cluster\<lparr>cs_RLPs := rlps\<rparr>"
  let ?diff = "\<lparr>gd_NewGateways = [], gd_SameGateways = [], gd_LeftGateways = [freed_gateway]\<rparr>"
  let ?w1 = "?w\<lparr>cs_Gateways := [freed_gateway]\<rparr>"
  have diff: "computeFinalizeGatewayDiff cluster_env rlp ?w =
      (Inr \<lparr>gd_NewGateways = [], gd_SameGateways = [], gd_LeftGateways = [referring_gateway]\<rparr>, ?w)"
    by (simp add: computeFinalizeGatewayDiff_run[OF cluster_env_api claimed_gateways[OF assms(1) ns]] go_eval assms ns list_view_def
        List.map_filter_simps clean_up_diff_def)
  have refs: "reconcileGatewayRLPReferences cluster_env rlp
      \<lparr>gd_NewGateways = [], gd_SameGateways = [], gd_LeftGateways = [referring_gateway]\<rparr> ?w =
      (Inr ?diff, ?w1)"
    by (simp add: reconcileGatewayRLPReferences_def go_eval assms ns update_if_changed_def UpdateResource_def list_store_def
        bindE_def)
  have plugins: "reconcileWASMPluginConf cluster_env rlp ?diff ?w1 = (Inr (), ?w1)"
    using gatewayWASMPlugin_run[OF cluster_env_api, where w = ?w1 and refs = "[]" and gw = freed_gateway]
    by (simp add: reconcileWASMPluginConf_alt plugin_work_def refs_without_remove1 go_eval assms ns reconcile_plugin_def
        ReconcileResource_absent bindE_def)
  have filters: "reconcileRateLimitingClusterEnvoyFilter cluster_env rlp ?diff ?w1 = (Inr (), ?w1)"
    by (simp add: reconcileEnvoyFilter_alt filter_work_def refs_without_remove1 go_eval assms ns reconcile_filter_def
        gatewayEnvoyFilter_alt ReconcileResource_absent bindE_def)
  have "lim_Limits example_limitador = []" by (simp add: example_limitador_def k8s_object.defs)
  then have "NewLimitadorIndex (Some example_limitador) = []"
    by (simp add: NewLimitadorIndex_def)
  then have limits: "reconcileLimits cluster_env rlp ?diff ?w1 = (Inr (), ?w1)"
    by (simp add: reconcileLimits_alt go_eval assms ns limitadorKey_def recompute_index_def recomputed_def DeleteGateway_def
        LimitIndex_Equals_def bindE_def)
  have "FetchValidTargetRef cluster_env example_target ''default'' ?w1 = (Inr (TargetHTTPRoute example_route), ?w1)"
    by (rule FetchValidTargetRef_run[OF cluster_env_api, of ?w1 example_target "''default''"])
      (simp_all add: go_eval assms ns)
  then have "\<exists>w'. rlp_deleteNetworkResourceBackReference cluster_env rlp ?w1 = (Inr (), w') \<and> cs_RLPs w' = rlps"
    by (simp add: rlp_deleteNetworkResourceBackReference_def go_eval assms ns DeleteTargetBackReference_def
        target_annotations_def update_target_def target_SetAnnotations_def UpdateResource_def bindE_def)
  with diff refs plugins filters limits show ?thesis
    by (simp add: finalizeRLP_def attempt_def bindE_def)
qed


end
