(* ===== verification/RLP_Controller.thy ===== *)
theory RLP_Controller
  imports RLP_Finalizer
begin

text \<open>
  The RateLimitPolicy controller: the status of a policy (controllers/apim/ratelimitpolicy_status.go)
  and the reconciliation of one policy (Reconcile in ratelimitpolicy_controller.go).
\<close>

section \<open>Status\<close>

definition RLPAvailableConditionType :: string where
  "RLPAvailableConditionType = ''Available''"

definition rlp_availableCondition :: "go_error option \<Rightarrow> condition" where
  "rlp_availableCondition specErr =
     (let cond = \<lparr>cond_Type = RLPAvailableConditionType, cond_Status = ''True'',
            cond_ObservedGeneration = 0, cond_LastTransitionTime = '''',
            cond_Reason = ''HTTPRouteProtected'', cond_Message = ''HTTPRoute is ratelimited''\<rparr>
      in case specErr of
           None \<Rightarrow> cond
         | Some err \<Rightarrow> cond\<lparr>cond_Status := ''False'', cond_Reason := ''ReconcilliationError'',
             cond_Message := error_text err\<rparr>)"

text \<open>The body of the loop over the gateways: a result or nothing (continue).\<close>

definition gateway_rate_limits :: "'w env \<Rightarrow> object_key \<Rightarrow> ('w, GatewayRateLimits option) io" where
  "gateway_rate_limits c gwKey =
     bindE (attempt (api_Get (cl_Gateways c) gwKey)) (\<lambda>got.
       case got of
         Inl err \<Rightarrow> if IsNotFound err then retE None else throwE err
       | Inr gw \<Rightarrow>
           if obj_Annotations gw = None then retE None
           else case annotations_of gw RateLimitPolicyBackRefAnnotation of
             None \<Rightarrow> retE None
           | Some rlpKeyStr \<Rightarrow>
               case UnMarshallObjectKey rlpKeyStr of
                 Inl err \<Rightarrow> retE None
               | Inr rlpKey \<Rightarrow>
                   bindE (attempt (api_Get (cl_RLPs c) rlpKey)) (\<lambda>got.
                     case got of
                       Inl err \<Rightarrow> if IsNotFound err then retE None else throwE err
                     | Inr gwRLP \<Rightarrow>
                         retE (Some \<lparr>grl_GatewayName = key_String gwKey,
                           grl_RateLimits = rlps_RateLimits (rlp_Spec gwRLP)\<rparr>)))"

definition gatewaysRateLimits :: "'w env \<Rightarrow> RateLimitPolicy \<Rightarrow> ('w, GatewayRateLimits slice) io" where
  "gatewaysRateLimits c rlp =
     bindE (attempt (TargetedGatewayKeys c (rlp_TargetRef rlp) (obj_Namespace rlp))) (\<lambda>got.
     bindE (case got of
              Inl err \<Rightarrow> if IsNotFound err then retE [] else throwE err
            | Inr gwKeys \<Rightarrow> retE gwKeys) (\<lambda>gwKeys.
     bindE (mapE (gateway_rate_limits c) gwKeys) (\<lambda>results.
       retE (Some (List.map_filter id results)))))"

definition rlp_calculateStatus ::
    "'w env \<Rightarrow> RateLimitPolicy \<Rightarrow> go_error option \<Rightarrow> ('w, RateLimitPolicyStatus) io" where
  "rlp_calculateStatus c rlp specErr =
     (let newStatus = \<lparr>rlpst_ObservedGeneration = rlpst_ObservedGeneration (rlp_Status rlp),
            rlpst_Conditions = CopyConditions (rlpst_Conditions (rlp_Status rlp)),
            rlpst_GatewaysRateLimits = None\<rparr>
      in bindE (if IsTargetRefHTTPRoute (rlp_TargetRef rlp) then gatewaysRateLimits c rlp else retE None)
           (\<lambda>gwRateLimits.
         bindE (askE (lib_SetStatusCondition c)) (\<lambda>setCondition.
           retE (newStatus\<lparr>rlpst_GatewaysRateLimits := gwRateLimits,
             rlpst_Conditions := setCondition (rlpst_Conditions newStatus) (rlp_availableCondition specErr)\<rparr>))))"

text \<open>The result is whether to requeue.\<close>

definition rlp_reconcileStatus :: "'w env \<Rightarrow> RateLimitPolicy \<Rightarrow> go_error option \<Rightarrow> ('w, bool) io" where
  "rlp_reconcileStatus c rlp specErr =
     bindE (rlp_calculateStatus c rlp specErr) (\<lambda>newStatus.
       let equalStatus = RateLimitPolicyStatus_Equals (json_MarshalConditions (lib_Json c))
             (rlp_Status rlp) newStatus
       in if equalStatus \<and> obj_Generation rlp = rlpst_ObservedGeneration (rlp_Status rlp) then retE False
          else
            let newStatus = newStatus\<lparr>rlpst_ObservedGeneration := obj_Generation rlp\<rparr> in
            bindE (attempt (api_StatusUpdate (cl_RLPs c) (rlp\<lparr>rlp_Status := newStatus\<rparr>))) (\<lambda>got.
              case got of
                Inl updateErr \<Rightarrow>
                  if IsConflict updateErr then retE True
                  else throwE (Errorf ''failed to update status: %v'' [error_text updateErr])
              | Inr _ \<Rightarrow> retE False))"

section \<open>Reconcile\<close>

text \<open>ctrl.Result (its Requeue field) and the error, both returned.\<close>

record reconcile_result =
  res_Requeue :: bool
  res_Err :: "go_error option"

definition result_ok :: reconcile_result where
  "result_ok = \<lparr>res_Requeue = False, res_Err = None\<rparr>"

definition result_requeue :: reconcile_result where
  "result_requeue = \<lparr>res_Requeue = True, res_Err = None\<rparr>"

definition result_error :: "go_error \<Rightarrow> reconcile_result" where
  "result_error err = \<lparr>res_Requeue = False, res_Err = Some err\<rparr>"

text \<open>After the finalizer is there: the spec, then the status whatever became of the spec.\<close>

definition rlp_reconcile_live :: "'w env \<Rightarrow> RateLimitPolicy \<Rightarrow> ('w, reconcile_result) io" where
  "rlp_reconcile_live c rlp =
     bindE (attempt (reconcileSpec c rlp)) (\<lambda>spec.
       let specErr = (case spec of Inl err \<Rightarrow> Some err | Inr _ \<Rightarrow> None) in
       if spec = Inr True then retE result_requeue
       else bindE (attempt (rlp_reconcileStatus c rlp specErr)) (\<lambda>status.
         case specErr of
           Some err \<Rightarrow> retE (result_error err)
         | None \<Rightarrow>
             (case status of
                Inl err \<Rightarrow> retE (result_error err)
              | Inr requeue \<Rightarrow> if requeue then retE result_requeue else retE result_ok)))"

definition rlp_Reconcile :: "'w env \<Rightarrow> object_key \<Rightarrow> ('w, reconcile_result) io" where
  "rlp_Reconcile c req =
     bindE (attempt (api_Get (cl_RLPs c) req)) (\<lambda>got.
       case got of
         Inl err \<Rightarrow> if IsNotFound err then retE result_ok else retE (result_error err)
       | Inr rlp \<Rightarrow>
           if obj_DeletionTimestamp rlp \<noteq> None \<and>
              lib_ContainsFinalizer c (obj_Finalizers rlp) rateLimitPolicyFinalizer then
             bindE (attempt (finalizeRLP c rlp)) (\<lambda>done.
               case done of
                 Inl err \<Rightarrow> retE (result_error err)
               | Inr _ \<Rightarrow>
                   bindE (attempt (UpdateResource (cl_RLPs c)
                     (rlp\<lparr>obj_Finalizers := lib_RemoveFinalizer c (obj_Finalizers rlp) rateLimitPolicyFinalizer\<rparr>)))
                     (\<lambda>upd.
                       case upd of
                         Inl err \<Rightarrow> if IsNotFound err then retE result_ok else retE (result_error err)
                       | Inr _ \<Rightarrow> retE result_ok))
           else if obj_DeletionTimestamp rlp \<noteq> None then retE result_ok
           else if \<not> lib_ContainsFinalizer c (obj_Finalizers rlp) rateLimitPolicyFinalizer then
             let rlp = rlp\<lparr>obj_Finalizers := lib_AddFinalizer c (obj_Finalizers rlp) rateLimitPolicyFinalizer\<rparr> in
             bindE (attempt (UpdateResource (cl_RLPs c) rlp)) (\<lambda>upd.
               case upd of
                 Inl err \<Rightarrow>
                   if \<not> IsNotFound err then retE \<lparr>res_Requeue = True, res_Err = Some err\<rparr>
                   else rlp_reconcile_live c rlp
               | Inr rlp \<Rightarrow> rlp_reconcile_live c rlp)
           else rlp_reconcile_live c rlp)"

section \<open>Deletion of a policy\<close>

text \<open>A policy being deleted whose route the gateway no longer accepts.\<close>

definition deleted_policy :: RateLimitPolicy where
  "deleted_policy = route_policy\<lparr>obj_DeletionTimestamp := Some ''now'', obj_Finalizers := [rateLimitPolicyFinalizer]\<rparr>"

definition blocked_route :: http_route where
  "blocked_route = example_route\<lparr>rt_Parents := [\<lparr>rps_ParentRef = hd (rt_ParentRefs example_route),
     rps_Conditions = Some [example_condition ''Accepted'' ''False'']\<rparr>]\<rparr>"

definition blocked_cluster :: cluster where
  "blocked_cluster = example_cluster\<lparr>cs_RLPs := [deleted_policy], cs_HTTPRoutes := [blocked_route]\<rparr>"

text \<open>
  C25: What Reconcile does to a missing or deleted policy. For a key without a policy, and for a
  deleted policy that does not carry the finalizer, it does nothing. For a deleted policy with the
  finalizer it runs the clean-up; an error of the clean-up is returned and the policy is left as it
  is. No policy is written unless the whole clean-up has succeeded, and then only this one: the
  finalizer is never removed from a policy whose traces are still in the cluster.
\<close>

theorem Reconcile_deletion:
  assumes "cluster_api c V" "rlp_Reconcile c req w = (r, w')"
  shows "(sn_RLPs (V w) req = None \<longrightarrow> r = Inr result_ok \<and> w' = w) \<and>
    (\<forall>rlp. sn_RLPs (V w) req = Some rlp \<longrightarrow> obj_DeletionTimestamp rlp \<noteq> None \<longrightarrow>
       (if lib_ContainsFinalizer c (obj_Finalizers rlp) rateLimitPolicyFinalizer then
          (\<forall>e w1. finalizeRLP c rlp w = (Inl e, w1) \<longrightarrow> \<not> is_panic e \<longrightarrow>
             r = Inr (result_error e) \<and> w' = w1) \<and>
          (sn_RLPs (V w') \<noteq> sn_RLPs (V w) \<longrightarrow>
             (\<exists>w1. finalizeRLP c rlp w = (Inr (), w1)) \<and>
             (\<forall>k. k \<noteq> req \<longrightarrow> sn_RLPs (V w') k = sn_RLPs (V w) k))
        else r = Inr result_ok \<and> w' = w))"
proof (rule store_Get_cases[OF cluster_store(1)[OF assms(1)], where w = w and k = req])
  fix e assume "(sn_RLPs \<circ> V) w req = None" "IsNotFound e" "api_Get (cl_RLPs c) req w = (Inl e, w)"
  with assms(2) show ?thesis by (simp add: rlp_Reconcile_def)
next
  fix rlp assume rlp: "(sn_RLPs \<circ> V) w req = Some rlp" and key: "ObjectKeyFromObject rlp = req"
    and get: "api_Get (cl_RLPs c) req w = (Inr rlp, w)"
  show ?thesis
  proof (cases "obj_DeletionTimestamp rlp \<noteq> None \<and> lib_ContainsFinalizer c (obj_Finalizers rlp) rateLimitPolicyFinalizer")
    case False
    with assms(2) rlp get show ?thesis by (auto simp: rlp_Reconcile_def)
  next
    case True
    have api: "kind_api V sn_RLPs (sn_RLPs_update (\<lambda>_. Map.empty)) (cl_RLPs c)"
      using assms(1) by (simp add: cluster_api_def)
    let ?rlp = "rlp\<lparr>obj_Finalizers := lib_RemoveFinalizer c (obj_Finalizers rlp) rateLimitPolicyFinalizer\<rparr>"
    obtain f w1 where fin: "finalizeRLP c rlp w = (f, w1)" by fastforce
    have w1: "sn_RLPs (V w1) = sn_RLPs (V w)"
      using preservesD[OF preserves_RLPs_finalize[OF assms(1)] refl fin] .
    show ?thesis
    proof (cases f)
      case (Inl e)
      with True get fin[unfolded Inl] assms(2) have "w' = w1 \<and> (\<not> is_panic e \<longrightarrow> r = Inr (result_error e))"
        by (cases "is_panic e") (auto simp: rlp_Reconcile_def)
      with True rlp fin Inl w1 show ?thesis by auto
    next
      case (Inr u)
      obtain g w2 where upd: "api_Update (cl_RLPs c) ?rlp w1 = (g, w2)" by fastforce
      have w': "w' = w2"
        using True get fin Inr upd assms(2)
        by (cases g; cases "\<exists>e. g = Inl e \<and> is_panic e")
          (auto simp: rlp_Reconcile_def UpdateResource_def split: if_splits)
      have "sn_RLPs (V w2) k = sn_RLPs (V w) k" if "k \<noteq> req" for k
        using that kind_failure(2)[OF api, of ?rlp w1 _ w2] kind_update(2)[OF api, of ?rlp w1 _ w2] upd w1 key
        by (cases g) (auto simp: ObjectKeyFromObject_def)
      with True rlp fin Inr w' show ?thesis by auto
    qed
  qed
qed

theorem Reconcile_deletion_witness:
  "\<exists>e. rlp_Reconcile cluster_env (ObjectKey ''default'' ''rlp'') blocked_cluster =
     (Inr (result_error e), blocked_cluster)"
proof -
  let ?e = "Errorf ''FetchValidHTTPRoute: httproute (%v) not accepted'' [''default/toystore'']"
  have target: "target_key (rlp_TargetRef deleted_policy) (obj_Namespace deleted_policy) = ObjectKey ''default'' ''toystore''"
    "IsTargetRefHTTPRoute (rlp_TargetRef deleted_policy)"
    and key: "ObjectKeyFromObject deleted_policy = ObjectKey ''default'' ''rlp''"
      "ObjectKeyFromObject blocked_route = ObjectKey ''default'' ''toystore''"
    by (simp_all add: deleted_policy_def route_policy_def example_policy_def example_target_def target_key_def
        IsTargetRefHTTPRoute_def new_object_def k8s_object.defs blocked_route_def example_route_def
        ObjectKeyFromObject_def)
  have rejected: "\<not> parents_accepted cluster_env blocked_route (rt_ParentRefs blocked_route)"
    by (simp add: blocked_route_def example_route_def k8s_object.defs routeParentStatus_def
        cluster_env_def example_condition_def)
  have fin: "finalizeRLP cluster_env deleted_policy blocked_cluster = (Inl ?e, blocked_cluster)"
    by (simp add: finalizeRLP_def computeFinalizeGatewayDiff_def TargetedGatewayKeys_def FetchValidHTTPRoute_def
        target go_eval blocked_cluster_def key rejected key_String_def bindE_def attempt_def)
  have policy: "sn_RLPs (cluster_view blocked_cluster) (ObjectKey ''default'' ''rlp'') = Some deleted_policy"
    by (simp add: go_eval list_view_def blocked_cluster_def key)
  have deleted: "obj_DeletionTimestamp deleted_policy \<noteq> None"
    "lib_ContainsFinalizer cluster_env (obj_Finalizers deleted_policy) rateLimitPolicyFinalizer"
    by (simp_all add: deleted_policy_def cluster_env_def)
  obtain r w' where run: "rlp_Reconcile cluster_env (ObjectKey ''default'' ''rlp'') blocked_cluster = (r, w')"
    by fastforce
  have "r = Inr (result_error ?e) \<and> w' = blocked_cluster"
    using Reconcile_deletion[OF cluster_env_api run] policy deleted fin by simp
  with run show ?thesis by auto
qed

lemma deleted_policy_sel:
  "rlp_TargetRef deleted_policy = example_target" "obj_Namespace deleted_policy = ''default''"
  "ObjectKeyFromObject deleted_policy = ObjectKey ''default'' ''rlp''"
  "obj_DeletionTimestamp deleted_policy \<noteq> None"
  "lib_ContainsFinalizer cluster_env (obj_Finalizers deleted_policy) rateLimitPolicyFinalizer"
  using route_policy_sel(1,2) example_keys(3)
  by (simp_all add: deleted_policy_def ObjectKeyFromObject_def cluster_env_def)

lemma Reconcile_deleted_example:
  "\<exists>w'. rlp_Reconcile cluster_env (ObjectKey ''default'' ''rlp'') (claimed_cluster\<lparr>cs_RLPs := [deleted_policy]\<rparr>)
      = (Inr result_ok, w')"
proof -
  let ?w = "claimed_cluster\<lparr>cs_RLPs := [deleted_policy]\<rparr>"
  obtain w1 where fin: "finalizeRLP cluster_env deleted_policy ?w = (Inr (), w1)" "cs_RLPs w1 = [deleted_policy]"
    using finalizeRLP_example[OF deleted_policy_sel(1,3)] by blast
  have get: "api_Get (cl_RLPs cluster_env) (ObjectKey ''default'' ''rlp'') ?w = (Inr deleted_policy, ?w)"
    by (simp add: go_eval deleted_policy_sel(3))
  have "\<exists>w'. api_Update (cl_RLPs cluster_env) (deleted_policy\<lparr>obj_Finalizers := fs\<rparr>) w1 =
      (Inr (deleted_policy\<lparr>obj_Finalizers := fs\<rparr>), w')" for fs
    using deleted_policy_sel(3) fin(2) by (simp add: go_eval ObjectKeyFromObject_def)
  then obtain w' p where "api_Update (cl_RLPs cluster_env) (deleted_policy\<lparr>obj_Finalizers :=
      lib_RemoveFinalizer cluster_env (obj_Finalizers deleted_policy) rateLimitPolicyFinalizer\<rparr>) w1 = (Inr p, w')"
    by blast
  with get fin(1) deleted_policy_sel(4,5) show ?thesis
    by (auto simp: rlp_Reconcile_def UpdateResource_def bindE_def attempt_def)
qed

section \<open>A successful reconciliation\<close>

lemma TargetedGatewayKeys_cong:
  assumes "cluster_api c V" "sn_HTTPRoutes (V w') = sn_HTTPRoutes (V w)"
    and "TargetedGatewayKeys c tr ns w = (Inr keys, w)"
  shows "TargetedGatewayKeys c tr ns w' = (Inr keys, w')"
proof (cases "IsTargetRefHTTPRoute tr")
  case True
  note fetch = FetchValidHTTPRoute_run[OF cluster_store(4)[OF assms(1)]]
  from True assms(3) obtain r where r: "FetchValidHTTPRoute c (target_key tr ns) w = (Inr r, w)"
    "keys = map (parent_key r) (rt_ParentRefs r)"
    by (cases rule: fetch[of w "target_key tr ns"]) (auto simp: TargetedGatewayKeys_def)
  then have "FetchValidHTTPRoute c (target_key tr ns) w' = (Inr r, w')"
    by (cases rule: fetch[of w "target_key tr ns"]; cases rule: fetch[of w' "target_key tr ns"])
      (auto simp: assms(2))
  with True r show ?thesis by (simp add: TargetedGatewayKeys_def)
qed (use assms(3) in \<open>auto simp: TargetedGatewayKeys_def split: if_splits\<close>)

lemma gatewaysRateLimits_pure:
  assumes "cluster_api c V"
  shows "preserves P (rlp_calculateStatus c rlp specErr)"
  unfolding rlp_calculateStatus_def gatewaysRateLimits_def gateway_rate_limits_def Let_def
  by (intro pres preserves_pure[of "TargetedGatewayKeys c _ _"] TargetedGatewayKeys_pure[OF assms]
      preserves_store_Get[OF cluster_store(3)[OF assms]] preserves_store_Get[OF cluster_store(1)[OF assms]])

lemma preserves_reconcileStatus:
  assumes "cluster_api c V"
  shows "preserves (\<lambda>w. V w\<lparr>sn_RLPs := Map.empty\<rparr> = F) (rlp_reconcileStatus c rlp specErr)"
proof -
  have "frame (sn_RLPs_update (\<lambda>_. Map.empty) \<circ> V) (cl_RLPs c)"
    using assms by (simp add: cluster_api_def kind_api_def)
  from frame_preserves(5)[OF this, of "\<lambda>w. V w\<lparr>sn_RLPs := Map.empty\<rparr> = F"]
  have "preserves (\<lambda>w. V w\<lparr>sn_RLPs := Map.empty\<rparr> = F) (api_StatusUpdate (cl_RLPs c) x)" for x
    by simp
  then show ?thesis
    unfolding rlp_reconcileStatus_def Let_def by (intro pres gatewaysRateLimits_pure[OF assms])
qed

text \<open>The steps of a reconciliation that ends without an error and without a requeue.\<close>

lemma Reconcile_live_steps:
  assumes "cluster_api c V" "sn_RLPs (V w) req = Some rlp" "obj_DeletionTimestamp rlp = None"
    and "lib_ContainsFinalizer c (obj_Finalizers rlp) rateLimitPolicyFinalizer"
    and "rlp_Reconcile c req w = (Inr result_ok, w')"
  obtains w0 w1 where "Validate rlp = None" "validateRuleHosts c rlp w = (Inr (), w)"
    "reconcileDirectBackReference c rlp w = (Inr (), w0)" "reconcileGatewayDiffs c rlp w0 = (Inr (), w1)"
    "rlp_reconcileStatus c rlp None w1 = (Inr False, w')" "ObjectKeyFromObject rlp = req"
proof -
  have get: "ObjectKeyFromObject rlp = req" "api_Get (cl_RLPs c) req w = (Inr rlp, w)"
    using store_Get_Some[OF cluster_store(1)[OF assms(1)], where w = w and k = req and obj = rlp] assms(2) by simp_all
  with assms(3-5) have live: "rlp_reconcile_live c rlp w = (Inr result_ok, w')"
    by (simp add: rlp_Reconcile_def)
  obtain r w1 where spec: "reconcileSpec c rlp w = (r, w1)" by fastforce
  obtain st w2 where status: "rlp_reconcileStatus c rlp (case r of Inl e \<Rightarrow> Some e | Inr _ \<Rightarrow> None) w1 = (st, w2)"
    by fastforce
  have r: "\<exists>b. r = Inr b"
    using live spec status
    by (cases r; cases st)
      (auto simp: rlp_reconcile_live_def result_ok_def result_error_def attempt_def bindE_def Let_def split: if_splits)
  then have r: "r = Inr False"
    using live spec by (auto simp: rlp_reconcile_live_def result_ok_def result_requeue_def Let_def)
  with live spec status have st: "st = Inr False" "w2 = w'"
    by (cases st; auto simp: rlp_reconcile_live_def result_ok_def result_error_def result_requeue_def
        attempt_def bindE_def Let_def split: if_splits)+
  from spec r obtain wv w0 where "Validate rlp = None" "validateRuleHosts c rlp w = (Inr (), wv)"
    "reconcileDirectBackReference c rlp wv = (Inr (), w0)" "reconcileGatewayDiffs c rlp w0 = (Inr (), w1)"
    by (auto simp: reconcileSpec_def split: option.splits elim!: bindE_InrE)
  moreover from this(2) have "wv = w"
    by (auto simp: validateRuleHosts_run[OF assms(1)] split: sum.splits)
  ultimately show thesis using that status r st get(1) by simp
qed

lemma refs_sound_retargeted:
  assumes "retargeted ann s s'" "ann \<noteq> KuadrantRateLimitPolicyRefAnnotation" "refs_sound J s"
  shows "refs_sound J s'"
  unfolding refs_sound_def
proof (intro allI impI)
  fix k gw assume "sn_Gateways s' k = Some gw"
  moreover have "rel_option (reannotated ann) (sn_Gateways s k) (sn_Gateways s' k)"
    using assms(1) by (simp add: retargeted_def)
  ultimately obtain x where "sn_Gateways s k = Some x" "reannotated ann x gw"
    by (auto elim: option.rel_cases)
  with assms(2,3) show "refs_readable J (Some gw) \<and> distinct (refs_of J (Some gw))"
    by (simp add: refs_sound_def reannotated_gateway(2,3))
qed

lemma Reconcile_live_run:
  assumes "cluster_api c V" "refs_json (lib_Json c) ok" "ok req" "refs_sound (lib_Json c) (V w)"
    and "sn_RLPs (V w) req = Some rlp" "obj_DeletionTimestamp rlp = None"
    and "lib_ContainsFinalizer c (obj_Finalizers rlp) rateLimitPolicyFinalizer"
    and "\<And>w0 diff. reconcileDirectBackReference c rlp w = (Inr (), w0) \<Longrightarrow>
      computeGatewayDiffs c rlp w0 = (Inr diff, w0) \<Longrightarrow> names_ok c (V w0) rlp diff"
    and "rlp_Reconcile c req w = (Inr result_ok, w')"
  shows "Validate rlp = None \<and>
    (\<exists>obj. target_at (V w') (rlp_TargetRef rlp) (obj_Namespace rlp) = Some obj \<and>
      target_annotations obj RateLimitPolicyBackRefAnnotation = Some (key_String req)) \<and>
    (\<exists>keys. TargetedGatewayKeys c (rlp_TargetRef rlp) (obj_Namespace rlp) w' = (Inr keys, w') \<and>
      (\<forall>k gw. sn_Gateways (V w') k = Some gw \<longrightarrow> (ContainsRLP (lib_Json c) (Some gw) req \<longleftrightarrow> k \<in> set keys))) \<and>
    refs_sound (lib_Json c) (V w') \<and>
    (\<exists>w0 w1 diff. retargeted RateLimitPolicyBackRefAnnotation (V w) (V w0) \<and>
      computeGatewayDiffs c rlp w0 = (Inr diff, w0) \<and> configured c rlp diff (V w0) (V w1) \<and>
      V w'\<lparr>sn_RLPs := Map.empty\<rparr> = V w1\<lparr>sn_RLPs := Map.empty\<rparr>)"
proof -
  let ?ann = RateLimitPolicyBackRefAnnotation and ?tr = "rlp_TargetRef rlp" and ?ns = "obj_Namespace rlp"
  from Reconcile_live_steps[OF assms(1,5-7,9)] obtain w0 w1 where steps: "Validate rlp = None"
    "reconcileDirectBackReference c rlp w = (Inr (), w0)" "reconcileGatewayDiffs c rlp w0 = (Inr (), w1)"
    "rlp_reconcileStatus c rlp None w1 = (Inr False, w')" and key: "ObjectKeyFromObject rlp = req"
    by metis
  note claim = steps(2)[unfolded reconcileDirectBackReference_def]
  have claimed: "retargeted ?ann (V w) (V w0)"
    by (rule back_reference_retargeted(1)[OF assms(1) claim])
  have ann: "?ann \<noteq> KuadrantRateLimitPolicyRefAnnotation"
    by (simp add: RateLimitPolicyBackRefAnnotation_def KuadrantRateLimitPolicyRefAnnotation_def)
  obtain obj where obj: "target_at (V w0) ?tr ?ns = Some obj" "target_annotations obj ?ann = Some (key_String req)"
    using ReconcileTargetBackReference_run[OF assms(1) claim] by (auto simp: key)
  have "ok (ObjectKeyFromObject rlp)" using assms(3) key by simp
  from reconcileGatewayDiffs_run[OF assms(1,2) this refs_sound_retargeted[OF claimed ann assms(4)]
      assms(8)[OF steps(2)] steps(3)]
  obtain keys diff where diffs: "TargetedGatewayKeys c ?tr ?ns w0 = (Inr keys, w0)"
    "computeGatewayDiffs c rlp w0 = (Inr diff, w0)" "configured c rlp diff (V w0) (V w1)"
    "\<And>k gw. sn_Gateways (V w1) k = Some gw \<Longrightarrow> ContainsRLP (lib_Json c) (Some gw) req \<longleftrightarrow> k \<in> set keys"
    "refs_sound (lib_Json c) (V w1)" "sn_HTTPRoutes (V w1) = sn_HTTPRoutes (V w0)"
    and gws: "\<And>k. rel_option (reannotated KuadrantRateLimitPolicyRefAnnotation) (sn_Gateways (V w0) k) (sn_Gateways (V w1) k)"
    by (auto simp: key)
  have status: "V w'\<lparr>sn_RLPs := Map.empty\<rparr> = V w1\<lparr>sn_RLPs := Map.empty\<rparr>"
    using preservesD[OF preserves_reconcileStatus[OF assms(1)] refl steps(4)] .
  have w': "sn_Gateways (V w') = sn_Gateways (V w1)" "sn_HTTPRoutes (V w') = sn_HTTPRoutes (V w1)"
    using arg_cong[OF status, of sn_Gateways] arg_cong[OF status, of sn_HTTPRoutes] by simp_all
  have "\<exists>obj'. target_at (V w') ?tr ?ns = Some obj' \<and> target_annotations obj' ?ann = Some (key_String req)"
    using obj gws[of "target_key ?tr ?ns"] ann
    by (auto simp: target_at_def w' diffs(6) Let_def target_annotations_def reannotated_def
        split: if_splits elim!: option.rel_cases)
  moreover have "TargetedGatewayKeys c ?tr ?ns w' = (Inr keys, w')"
    by (rule TargetedGatewayKeys_cong[OF assms(1) _ diffs(1)]) (simp add: w' diffs(6))
  moreover have "refs_sound (lib_Json c) (V w')" using diffs(5) by (simp add: refs_sound_def w')
  ultimately show ?thesis using steps(1) diffs claimed status by (auto simp: w')
qed

lemma reconcileStatus_writes:
  assumes "rlp_calculateStatus c rlp specErr w = (Inr st, w1)"
    and "rlpst_GatewaysRateLimits st \<noteq> rlpst_GatewaysRateLimits (rlp_Status rlp)"
    and "api_StatusUpdate (cl_RLPs c) (rlp\<lparr>rlp_Status := st\<lparr>rlpst_ObservedGeneration := obj_Generation rlp\<rparr>\<rparr>) w1 = (Inr (), w2)"
  shows "rlp_reconcileStatus c rlp specErr w = (Inr False, w2)"
proof -
  have "\<not> RateLimitPolicyStatus_Equals m (rlp_Status rlp) st" for m
    using assms(2) by (auto simp: RateLimitPolicyStatus_Equals_def)
  then show ?thesis
    using assms(1,3) by (simp add: rlp_reconcileStatus_def bindE_def attempt_def Let_def)
qed

text \<open>
  C3: What a successful Reconcile of a live policy has brought about: the policy is valid and its
  target holds its back reference; the gateways that refer to it are exactly those the target has
  now; the reference lists stay readable and free of duplicates; limits, filters and plugins are
  the ones the gateway diff of the run calls for, and after them only policies were written (the
  status).
\<close>

theorem Reconcile_live_correct:
  assumes "cluster_api c V" "refs_json (lib_Json c) ok" "ok req" "refs_sound (lib_Json c) (V w)"
    and "sn_RLPs (V w) req = Some rlp" "obj_DeletionTimestamp rlp = None"
    and "lib_ContainsFinalizer c (obj_Finalizers rlp) rateLimitPolicyFinalizer"
    and "\<And>w0 diff. reconcileDirectBackReference c rlp w = (Inr (), w0) \<Longrightarrow>
      computeGatewayDiffs c rlp w0 = (Inr diff, w0) \<Longrightarrow> names_ok c (V w0) rlp diff"
    and "rlp_Reconcile c req w = (Inr result_ok, w')"
  shows "Validate rlp = None \<and>
    (\<exists>obj. target_at (V w') (rlp_TargetRef rlp) (obj_Namespace rlp) = Some obj \<and>
      target_annotations obj RateLimitPolicyBackRefAnnotation = Some (key_String req)) \<and>
    (\<exists>keys. TargetedGatewayKeys c (rlp_TargetRef rlp) (obj_Namespace rlp) w' = (Inr keys, w') \<and>
      (\<forall>k gw. sn_Gateways (V w') k = Some gw \<longrightarrow> (ContainsRLP (lib_Json c) (Some gw) req \<longleftrightarrow> k \<in> set keys))) \<and>
    refs_sound (lib_Json c) (V w') \<and>
    (\<exists>w0 w1 diff. retargeted RateLimitPolicyBackRefAnnotation (V w) (V w0) \<and>
      computeGatewayDiffs c rlp w0 = (Inr diff, w0) \<and> configured c rlp diff (V w0) (V w1) \<and>
      V w'\<lparr>sn_RLPs := Map.empty\<rparr> = V w1\<lparr>sn_RLPs := Map.empty\<rparr>)"
  by (rule Reconcile_live_run[OF assms])

lemma example_back_reference:
  "reconcileDirectBackReference cluster_env route_policy example_cluster = (Inr (), example_cluster)"
  by (rule FetchValidTargetRef_run[OF cluster_env_api, of example_cluster example_target "''default''"])
    (simp_all add: reconcileDirectBackReference_def ReconcileTargetBackReference_def go_eval example_target_at
      target_annotations_def key_String_def)

lemma live_example:
  "obj_DeletionTimestamp route_policy = None"
  "lib_ContainsFinalizer cluster_env (obj_Finalizers route_policy) rateLimitPolicyFinalizer"
  by (simp_all add: route_policy_def example_policy_def new_object_def k8s_object.defs cluster_env_def
      rateLimitPolicyFinalizer_def)

lemma reconcileSpec_example:
  "\<exists>w'. reconcileSpec cluster_env route_policy example_cluster = (Inr False, w') \<and>
     reconcileGatewayDiffs cluster_env route_policy example_cluster = (Inr (), w')"
proof -
  obtain w' where run: "reconcileGatewayDiffs cluster_env route_policy example_cluster = (Inr (), w')"
    using reconcileGatewayDiffs_example by blast
  have "Validate route_policy = None" "rule_hosts route_policy = []"
    by (simp_all add: Validate_def go_eval gateway_api_group_def example_target_def rule_hosts_def)
      (simp add: route_policy_def example_policy_def k8s_object.defs)
  moreover have "fst (TargetHostnames cluster_env example_target ''default'' example_cluster) \<noteq> Inl e" for e
    by (rule FetchValidTargetRef_run[OF cluster_env_api, of example_cluster example_target "''default''"])
      (simp_all add: TargetHostnames_def example_target_at)
  then have "validateRuleHosts cluster_env route_policy example_cluster = (Inr (), example_cluster)"
    by (auto simp: validateRuleHosts_run[OF cluster_env_api] go_eval calculation(2) split: sum.split)
  ultimately show ?thesis
    using run example_back_reference by (simp add: reconcileSpec_def bindE_def)
qed

lemma Reconcile_example:
  "\<exists>w'. rlp_Reconcile cluster_env (ObjectKey ''default'' ''rlp'') example_cluster = (Inr result_ok, w')"
proof -
  obtain w1 where spec: "reconcileSpec cluster_env route_policy example_cluster = (Inr False, w1)"
    and diffs: "reconcileGatewayDiffs cluster_env route_policy example_cluster = (Inr (), w1)"
    using reconcileSpec_example by blast
  note run = reconcileGatewayDiffs_run[OF cluster_env_api example_hypotheses(1) TrueI example_hypotheses(2,3) diffs]
  have keys: "TargetedGatewayKeys cluster_env example_target ''default'' w1 = (Inr [ObjectKey ''istio'' ''gw''], w1)"
    using TargetedGatewayKeys_cong[OF cluster_env_api _ targeted_example] run by (auto simp: go_eval)
  have "rel_option (reannotated KuadrantRateLimitPolicyRefAnnotation)
      (sn_Gateways (cluster_view example_cluster) (ObjectKey ''istio'' ''gw''))
      (sn_Gateways (cluster_view w1) (ObjectKey ''istio'' ''gw''))"
    using run by blast
  then obtain gw where gw: "sn_Gateways (cluster_view w1) (ObjectKey ''istio'' ''gw'') = Some gw"
    "reannotated KuadrantRateLimitPolicyRefAnnotation example_gateway gw"
    by (auto simp: go_eval list_view_def elim: option.rel_cases)
  then have "annotations_of gw RateLimitPolicyBackRefAnnotation = None"
    by (simp add: reannotated_def RateLimitPolicyBackRefAnnotation_def KuadrantRateLimitPolicyRefAnnotation_def)
  moreover have "api_Get (cl_Gateways cluster_env) (ObjectKey ''istio'' ''gw'') w1 = (Inr gw, w1)"
    using store_Get_Some[OF cluster_store(3)[OF cluster_env_api], where w = w1] gw(1) by (simp add: go_eval)
  ultimately have "gateway_rate_limits cluster_env (ObjectKey ''istio'' ''gw'') w1 = (Inr None, w1)"
    by (simp add: gateway_rate_limits_def bindE_def attempt_def)
  with keys have limits: "gatewaysRateLimits cluster_env route_policy w1 = (Inr (Some []), w1)"
    by (simp add: gatewaysRateLimits_def go_eval bindE_def attempt_def List.map_filter_simps)
  have "list_view cs_RLPs w1 = list_view cs_RLPs example_cluster" using run by (auto simp: go_eval)
  then have "list_view cs_RLPs w1 (ObjectKey ''default'' ''rlp'') = Some route_policy"
    by (simp add: go_eval list_view_def)
  then have update: "\<exists>w2. api_StatusUpdate (cl_RLPs cluster_env) (route_policy\<lparr>rlp_Status := st\<rparr>) w1 = (Inr (), w2)" for st
    using example_keys(3) by (simp add: cluster_env_sel list_api_def ObjectKeyFromObject_def)
  have "rlpst_GatewaysRateLimits (rlp_Status route_policy) = None"
    by (simp add: route_policy_def example_policy_def k8s_object.defs)
  moreover have "\<exists>st. rlp_calculateStatus cluster_env route_policy None w1 = (Inr st, w1) \<and>
      rlpst_GatewaysRateLimits st = Some []"
    using limits by (simp add: rlp_calculateStatus_def go_eval Let_def bindE_def askE_def)
  ultimately have "\<exists>w2. rlp_reconcileStatus cluster_env route_policy None w1 = (Inr False, w2)"
    using update reconcileStatus_writes by (metis option.distinct(1))
  with spec live_example show ?thesis
    by (auto simp: rlp_Reconcile_def go_eval rlp_reconcile_live_def attempt_def bindE_def Let_def)
qed

theorem Reconcile_live_correct_witness:
  "\<exists>w'. rlp_Reconcile cluster_env (ObjectKey ''default'' ''rlp'') example_cluster = (Inr result_ok, w') \<and>
    refs_sound reference_json (cluster_view w')"
proof -
  obtain w' where run: "rlp_Reconcile cluster_env (ObjectKey ''default'' ''rlp'') example_cluster = (Inr result_ok, w')"
    using Reconcile_example by blast
  have policy: "sn_RLPs (cluster_view example_cluster) (ObjectKey ''default'' ''rlp'') = Some route_policy"
    by (simp add: go_eval list_view_def)
  have "names_ok cluster_env (cluster_view w0) route_policy diff"
    if "reconcileDirectBackReference cluster_env route_policy example_cluster = (Inr (), w0)"
      "computeGatewayDiffs cluster_env route_policy w0 = (Inr diff, w0)" for w0 diff
    using that example_hypotheses(3) example_back_reference by simp
  from Reconcile_live_correct[OF cluster_env_api example_hypotheses(1) TrueI example_hypotheses(2) policy
      live_example this run] run
  show ?thesis by (auto simp: cluster_env_sel)
qed

section \<open>When the status settles\<close>

text \<open>
  What meta.SetStatusCondition documents: setting a condition that is already as wanted changes
  nothing.
\<close>

definition sets_conditions :: "'w env \<Rightarrow> bool" where
  "sets_conditions c \<longleftrightarrow> (\<forall>w w' conds x.
     lib_SetStatusCondition c w' (Some (elems (lib_SetStatusCondition c w conds x))) x = lib_SetStatusCondition c w conds x)"

lemma CopyConditions_elems: "CopyConditions conds = Some (elems conds)"
  by (simp add: CopyConditions_def)

lemma calculateStatus_fields:
  assumes "rlp_calculateStatus c rlp specErr w = (Inr st, w1)"
  shows "rlpst_Conditions st =
      lib_SetStatusCondition c w1 (Some (elems (rlpst_Conditions (rlp_Status rlp)))) (rlp_availableCondition specErr)"
    and "rlpst_ObservedGeneration st = rlpst_ObservedGeneration (rlp_Status rlp)"
    and "\<not> IsTargetRefHTTPRoute (rlp_TargetRef rlp) \<Longrightarrow> rlpst_GatewaysRateLimits st = None"
    and "IsTargetRefHTTPRoute (rlp_TargetRef rlp) \<Longrightarrow> rlpst_GatewaysRateLimits st \<noteq> None"
  using assms
  by (auto simp: rlp_calculateStatus_def CopyConditions_elems gatewaysRateLimits_def Let_def askE_def
      elim!: bindE_InrE split: if_splits)


lemma set_condition_twice: "set_condition t (set_condition t' conds x) x = set_condition t' conds x"
  by (induction t' conds x rule: set_condition.induct) auto


end
