(* ===== verification/Auth_Policy.thy ===== *)
theory Auth_Policy
  imports RLP_Controller
begin

text \<open>
  The AuthPolicy controller (controllers/apim/authpolicy_controller.go, authpolicy_status.go and
  authpolicy_utils.go): the AuthorizationPolicy objects of the targeted gateways, the AuthConfig,
  the clean-up of a deleted policy, its status and its reconciliation.
\<close>

section \<open>Names and mutators\<close>

definition authPolicyFinalizer :: string where
  "authPolicyFinalizer = ''authpolicy.kuadrant.io/finalizer''"

definition authConfigName :: "object_key \<Rightarrow> string" where
  "authConfigName objKey = sprintf ''ap-%s-%s'' [key_Namespace objKey, key_Name objKey]"

definition getAuthPolicyName :: "string \<Rightarrow> string \<Rightarrow> string \<Rightarrow> string" where
  "getAuthPolicyName gwName networkName networkKind =
     (if networkKind = ''Gateway'' then sprintf ''on-%s'' [gwName]
      else sprintf ''on-%s-using-%s'' [gwName, networkName])"

definition alwaysUpdateAuthPolicy ::
    "authorization_policy \<Rightarrow> authorization_policy \<Rightarrow> go_error + (bool \<times> authorization_policy)" where
  "alwaysUpdateAuthPolicy existing desired =
     Inr (True, existing\<lparr>azp_Action := azp_Action desired, azp_Provider := azp_Provider desired,
       azp_Rules := azp_Rules desired, azp_MatchLabels := azp_MatchLabels desired,
       obj_Annotations := obj_Annotations desired\<rparr>)"

definition alwaysUpdateAuthConfig :: "auth_config \<Rightarrow> auth_config \<Rightarrow> go_error + (bool \<times> auth_config)" where
  "alwaysUpdateAuthConfig existing desired =
     Inr (True, existing\<lparr>ac_Spec := ac_Spec desired, obj_Annotations := obj_Annotations desired\<rparr>)"

section \<open>The spec\<close>

text \<open>The scheme is a pointer and is dereferenced without a check: none is a run-time panic.\<close>

definition nil_dereference :: go_error where
  "nil_dereference = Panic ''invalid memory address or nil pointer dereference''"

definition ap_rule_hosts :: "AuthPolicy \<Rightarrow> string list" where
  "ap_rule_hosts ap = concat (map (\<lambda>rule. elems (ar_Hosts rule)) (aps_AuthRules (ap_Spec ap)))"

definition enforceHierarchicalConstraints :: "'w env \<Rightarrow> AuthPolicy \<Rightarrow> ('w, unit) io" where
  "enforceHierarchicalConstraints c ap =
     bindE (TargetHostnames c (ap_TargetRef ap) (obj_Namespace ap)) (\<lambda>targetHostnames.
       let (valid, invalidHost) = ValidSubdomains targetHostnames (ap_rule_hosts ap) in
       if \<not> valid then
         throwE (Errorf ''rule host (%s) does not follow any hierarchical constraints'' [invalidHost])
       else case aps_AuthScheme (ap_Spec ap) of
         None \<Rightarrow> throwE nil_dereference
       | Some scheme \<Rightarrow>
           let (valid, invalidHost) = ValidSubdomains targetHostnames (acs_Hosts scheme) in
           if \<not> valid then
             throwE (Errorf ''host defined in authscheme (%s) does not follow any hierarchical constraints''
               [invalidHost])
           else retE ())"

definition authConfigKey :: "AuthPolicy \<Rightarrow> object_key" where
  "authConfigKey ap = ObjectKey KuadrantNamespace (authConfigName (ObjectKeyFromObject ap))"

definition auth_config_object :: "AuthPolicy \<Rightarrow> auth_config_spec \<Rightarrow> auth_config" where
  "auth_config_object ap spec = k8s_object.extend
     (new_object '''' '''' KuadrantNamespace (authConfigName (ObjectKeyFromObject ap)))
     \<lparr>ac_Spec = spec, ac_StatusReady = JNull\<rparr>"

text \<open>An error other than the one for an object that already exists is returned.\<close>

definition unless_exists :: "('w, unit) io \<Rightarrow> ('w, unit) io" where
  "unless_exists m =
     bindE (attempt m) (\<lambda>got.
       case got of
         Inl err \<Rightarrow> if \<not> IsAlreadyExists err then throwE err else retE ()
       | Inr _ \<Rightarrow> retE ())"

definition reconcileAuthSchemes :: "'w env \<Rightarrow> AuthPolicy \<Rightarrow> ('w, unit) io" where
  "reconcileAuthSchemes c ap =
     (case aps_AuthScheme (ap_Spec ap) of
        None \<Rightarrow> throwE nil_dereference
      | Some scheme \<Rightarrow>
          unless_exists (ReconcileResource (cl_AuthConfigs c) (auth_config_object ap scheme)
            alwaysUpdateAuthConfig))"

text \<open>The operations of the policy's own rules, and those of a route's rules.\<close>

definition rule_operations :: "AuthPolicy \<Rightarrow> istio_operation list" where
  "rule_operations ap =
     map (\<lambda>rule. \<lparr>op_Hosts = ar_Hosts rule, op_Methods = ar_Methods rule, op_Paths = ar_Paths rule\<rparr>)
       (aps_AuthRules (ap_Spec ap))"

definition route_operations :: "http_route \<Rightarrow> istio_operation list" where
  "route_operations route =
     map (\<lambda>rule. \<lparr>op_Hosts = append_nil (elems (hrr_Hosts rule)),
            op_Methods = append_nil (elems (hrr_Methods rule)),
            op_Paths = append_nil (elems (hrr_Paths rule))\<rparr>)
       (elems (RulesFromHTTPRoute (Some route)))"

definition targetObjectKind :: "AuthPolicy \<Rightarrow> string" where
  "targetObjectKind ap = (if IsTargetRefHTTPRoute (ap_TargetRef ap) then ''HTTPRoute'' else ''Gateway'')"

definition authorizationPolicyKey :: "AuthPolicy \<Rightarrow> object_key \<Rightarrow> object_key" where
  "authorizationPolicyKey ap gwKey = ObjectKey (key_Namespace gwKey)
     (getAuthPolicyName (key_Name gwKey) (tr_Name (ap_TargetRef ap)) (targetObjectKind ap))"

definition authorization_policy_object ::
    "'w env \<Rightarrow> AuthPolicy \<Rightarrow> istio_operation list \<Rightarrow> object_key \<Rightarrow> authorization_policy" where
  "authorization_policy_object c ap toRules gwKey = k8s_object.extend
     (new_object '''' '''' (key_Namespace gwKey)
       (getAuthPolicyName (key_Name gwKey) (tr_Name (ap_TargetRef ap)) (targetObjectKind ap)))
     \<lparr>azp_Action = ''CUSTOM'', azp_Rules = [\<lparr>ir_To = toRules\<rparr>],
      azp_MatchLabels = Some (Some Map.empty), azp_Provider = Some (AuthProvider c)\<rparr>"

definition to_rules :: "'w env \<Rightarrow> AuthPolicy \<Rightarrow> ('w, istio_operation list) io" where
  "to_rules c ap =
     (let toRules = rule_operations ap in
      if toRules = [] then
        bindE (FetchValidTargetRef c (ap_TargetRef ap) (obj_Namespace ap)) (\<lambda>targetObj.
          case targetObj of
            TargetHTTPRoute route \<Rightarrow> retE (toRules @ route_operations route)
          | TargetGateway _ \<Rightarrow> retE toRules)
      else retE toRules)"

text \<open>An error in finding the gateways is dropped: the function then returns no error.\<close>

definition reconcileAuthRules :: "'w env \<Rightarrow> AuthPolicy \<Rightarrow> ('w, unit) io" where
  "reconcileAuthRules c ap =
     bindE (to_rules c ap) (\<lambda>toRules.
     bindE (attempt (TargetedGatewayKeys c (ap_TargetRef ap) (obj_Namespace ap))) (\<lambda>got.
       case got of
         Inl err \<Rightarrow> retE ()
       | Inr gwKeys \<Rightarrow>
           forE (\<lambda>gwKey. unless_exists (ReconcileResource (cl_AuthorizationPolicies c)
             (authorization_policy_object c ap toRules gwKey) alwaysUpdateAuthPolicy)) gwKeys))"

definition reconcileNetworkResourceBackReference :: "'w env \<Rightarrow> AuthPolicy \<Rightarrow> ('w, unit) io" where
  "reconcileNetworkResourceBackReference c ap =
     ReconcileTargetBackReference c (ObjectKeyFromObject ap) (ap_TargetRef ap) (obj_Namespace ap)
       AuthPolicyBackRefAnnotation"

definition ap_reconcileSpec :: "'w env \<Rightarrow> AuthPolicy \<Rightarrow> ('w, bool) io" where
  "ap_reconcileSpec c ap =
     (case AuthPolicy_Validate ap of
        Some err \<Rightarrow> throwE err
      | None \<Rightarrow>
          bindE (enforceHierarchicalConstraints c ap) (\<lambda>_.
          bindE (reconcileNetworkResourceBackReference c ap) (\<lambda>_.
          bindE (reconcileAuthRules c ap) (\<lambda>_.
          bindE (reconcileAuthSchemes c ap) (\<lambda>_. retE False)))))"

section \<open>The clean-up of a deleted policy\<close>

definition removeAuthSchemes :: "'w env \<Rightarrow> AuthPolicy \<Rightarrow> ('w, unit) io" where
  "removeAuthSchemes c ap =
     bindE (attempt (DeleteResource (cl_AuthConfigs c)
       (k8s_object.extend (new_object '''' '''' KuadrantNamespace (authConfigName (ObjectKeyFromObject ap)))
          \<lparr>ac_Spec = \<lparr>acs_Hosts = [], acs_Rest = JNull\<rparr>, ac_StatusReady = JNull\<rparr>))) (\<lambda>got.
       case got of
         Inl err \<Rightarrow> if IsNotFound err then retE () else throwE err
       | Inr _ \<Rightarrow> retE ())"

definition bare_authorization_policy :: "AuthPolicy \<Rightarrow> object_key \<Rightarrow> authorization_policy" where
  "bare_authorization_policy ap gwKey = k8s_object.extend
     (new_object '''' '''' (key_Namespace gwKey)
       (getAuthPolicyName (key_Name gwKey) (tr_Name (ap_TargetRef ap)) (targetObjectKind ap)))
     \<lparr>azp_Action = ''ALLOW'', azp_Rules = [], azp_MatchLabels = None, azp_Provider = None\<rparr>"

definition removeIstioAuthPolicy :: "'w env \<Rightarrow> AuthPolicy \<Rightarrow> ('w, unit) io" where
  "removeIstioAuthPolicy c ap =
     bindE (attempt (TargetedGatewayKeys c (ap_TargetRef ap) (obj_Namespace ap))) (\<lambda>got.
       case got of
         Inl err \<Rightarrow> retE ()
       | Inr gwKeys \<Rightarrow>
           forE (\<lambda>gwKey. DeleteResource (cl_AuthorizationPolicies c) (bare_authorization_policy ap gwKey)) gwKeys)"

definition ap_deleteNetworkResourceBackReference :: "'w env \<Rightarrow> AuthPolicy \<Rightarrow> ('w, unit) io" where
  "ap_deleteNetworkResourceBackReference c ap =
     DeleteTargetBackReference c (ObjectKeyFromObject ap) (ap_TargetRef ap) (obj_Namespace ap)
       AuthPolicyBackRefAnnotation"

text \<open>The three steps of the deletion branch of Reconcile.\<close>

definition finalizeAP :: "'w env \<Rightarrow> AuthPolicy \<Rightarrow> ('w, unit) io" where
  "finalizeAP c ap =
     bindE (removeIstioAuthPolicy c ap) (\<lambda>_.
     bindE (removeAuthSchemes c ap) (\<lambda>_.
     ap_deleteNetworkResourceBackReference c ap))"

section \<open>Status\<close>

definition APAvailableConditionType :: string where
  "APAvailableConditionType = ''Available''"

definition ap_availableCondition :: "string \<Rightarrow> go_error option \<Rightarrow> bool \<Rightarrow> condition" where
  "ap_availableCondition kind specErr authConfigReady =
     (let cond = \<lparr>cond_Type = APAvailableConditionType, cond_Status = ''True'',
            cond_ObservedGeneration = 0, cond_LastTransitionTime = '''',
            cond_Reason = sprintf ''%sProtected'' [kind],
            cond_Message = sprintf ''%s is protected'' [kind]\<rparr>
      in case specErr of
           Some err \<Rightarrow> cond\<lparr>cond_Status := ''False'', cond_Reason := ''ReconciliationError'',
             cond_Message := error_text err\<rparr>
         | None \<Rightarrow>
             if \<not> authConfigReady then cond\<lparr>cond_Status := ''False'', cond_Reason := ''AuthSchemeNotReady'',
               cond_Message := ''AuthScheme is not ready yet''\<rparr>
             else cond)"

definition ap_calculateStatus ::
    "'w env \<Rightarrow> AuthPolicy \<Rightarrow> go_error option \<Rightarrow> bool \<Rightarrow> ('w, AuthPolicyStatus) io" where
  "ap_calculateStatus c ap specErr authConfigReady =
     (let conditions = CopyConditions (apst_Conditions (ap_Status ap));
          availableCond = ap_availableCondition (tr_Kind (ap_TargetRef ap)) specErr authConfigReady
      in bindE (askE (lib_SetStatusCondition c)) (\<lambda>setCondition.
           retE \<lparr>apst_ObservedGeneration = obj_Generation ap,
             apst_Conditions = setCondition conditions availableCond\<rparr>))"

definition ap_reconcileStatus :: "'w env \<Rightarrow> AuthPolicy \<Rightarrow> go_error option \<Rightarrow> ('w, bool) io" where
  "ap_reconcileStatus c ap specErr =
     bindE (if specErr = None then
              bindE (GetResource (cl_AuthConfigs c) (authConfigKey ap)) (\<lambda>authConfig.
                retE (lib_AuthConfigReady c (ac_StatusReady authConfig)))
            else retE True) (\<lambda>isAuthConfigReady.
     bindE (ap_calculateStatus c ap specErr isAuthConfigReady) (\<lambda>newStatus.
       let equalStatus = AuthPolicyStatus_Equals (json_MarshalConditions (lib_Json c)) (ap_Status ap) newStatus in
       if equalStatus \<and> obj_Generation ap = apst_ObservedGeneration (ap_Status ap) then retE False
       else
         bindE (attempt (api_StatusUpdate (cl_APs c) (ap\<lparr>ap_Status := newStatus\<rparr>))) (\<lambda>got.
           case got of
             Inl updateErr \<Rightarrow>
               if IsConflict updateErr then retE True
               else throwE (Errorf ''failed to update status: %v'' [error_text updateErr])
           | Inr _ \<Rightarrow> retE False)))"

section \<open>Reconcile\<close>

definition ap_reconcile_live :: "'w env \<Rightarrow> AuthPolicy \<Rightarrow> ('w, reconcile_result) io" where
  "ap_reconcile_live c ap =
     bindE (attempt (ap_reconcileSpec c ap)) (\<lambda>spec.
       let specErr = (case spec of Inl err \<Rightarrow> Some err | Inr _ \<Rightarrow> None) in
       if spec = Inr True then retE result_requeue
       else bindE (attempt (ap_reconcileStatus c ap specErr)) (\<lambda>status.
         case specErr of
           Some err \<Rightarrow> retE (result_error err)
         | None \<Rightarrow>
             (case status of
                Inl err \<Rightarrow> retE (result_error err)
              | Inr requeue \<Rightarrow> if requeue then retE result_requeue else retE result_ok)))"

definition ap_Reconcile :: "'w env \<Rightarrow> object_key \<Rightarrow> ('w, reconcile_result) io" where
  "ap_Reconcile c req =
     bindE (attempt (api_Get (cl_APs c) req)) (\<lambda>got.
       case got of
         Inl err \<Rightarrow> if IsNotFound err then retE result_ok else retE (result_error err)
       | Inr ap \<Rightarrow>
           if obj_DeletionTimestamp ap \<noteq> None \<and>
              lib_ContainsFinalizer c (obj_Finalizers ap) authPolicyFinalizer then
             bindE (attempt (finalizeAP c ap)) (\<lambda>done.
               case done of
                 Inl err \<Rightarrow> retE (result_error err)
               | Inr _ \<Rightarrow>
                   bindE (attempt (UpdateResource (cl_APs c)
                     (ap\<lparr>obj_Finalizers := lib_RemoveFinalizer c (obj_Finalizers ap) authPolicyFinalizer\<rparr>)))
                     (\<lambda>upd.
                       case upd of
                         Inl err \<Rightarrow> if IsNotFound err then retE result_ok else retE (result_error err)
                       | Inr _ \<Rightarrow> retE result_ok))
           else if obj_DeletionTimestamp ap \<noteq> None then retE result_ok
           else if \<not> lib_ContainsFinalizer c (obj_Finalizers ap) authPolicyFinalizer then
             let ap = ap\<lparr>obj_Finalizers := lib_AddFinalizer c (obj_Finalizers ap) authPolicyFinalizer\<rparr> in
             bindE (attempt (UpdateResource (cl_APs c) ap)) (\<lambda>upd.
               case upd of
                 Inl err \<Rightarrow>
                   if \<not> IsNotFound err then retE \<lparr>res_Requeue = True, res_Err = Some err\<rparr>
                   else ap_reconcile_live c ap
               | Inr ap \<Rightarrow> ap_reconcile_live c ap)
           else ap_reconcile_live c ap)"

section \<open>The checks\<close>

lemma enforceHierarchicalConstraints_run:
  assumes "cluster_api c V"
  shows "enforceHierarchicalConstraints c ap w =
    (case fst (TargetHostnames c (ap_TargetRef ap) (obj_Namespace ap) w) of
       Inl e \<Rightarrow> Inl e
     | Inr hosts \<Rightarrow>
         if \<not> list_all (\<lambda>h. \<exists>d \<in> set hosts. SubsetOf h d) (ap_rule_hosts ap) then
           Inl (Errorf ''rule host (%s) does not follow any hierarchical constraints''
             [snd (ValidSubdomains hosts (ap_rule_hosts ap))])
         else case aps_AuthScheme (ap_Spec ap) of
           None \<Rightarrow> Inl nil_dereference
         | Some scheme \<Rightarrow>
             if \<not> list_all (\<lambda>h. \<exists>d \<in> set hosts. SubsetOf h d) (acs_Hosts scheme) then
               Inl (Errorf ''host defined in authscheme (%s) does not follow any hierarchical constraints''
                 [snd (ValidSubdomains hosts (acs_Hosts scheme))])
             else Inr (), w)"
proof -
  obtain h where "TargetHostnames c (ap_TargetRef ap) (obj_Namespace ap) w = (h, w)"
    using TargetHostnames_pure[OF assms] by (metis prod.collapse)
  then show ?thesis
    unfolding enforceHierarchicalConstraints_def bindE_def Let_def ValidSubdomains_all[symmetric]
    by (simp add: split_beta split: sum.split option.split)
qed

lemma ap_reconcileSpec_steps:
  assumes "cluster_api c V" "ap_reconcileSpec c ap w = (Inr b, w')"
  obtains hosts scheme w1 w2 where "AuthPolicy_Validate ap = None" "\<not> b"
    "fst (TargetHostnames c (ap_TargetRef ap) (obj_Namespace ap) w) = Inr hosts"
    "list_all (\<lambda>h. \<exists>d \<in> set hosts. SubsetOf h d) (ap_rule_hosts ap)"
    "aps_AuthScheme (ap_Spec ap) = Some scheme"
    "list_all (\<lambda>h. \<exists>d \<in> set hosts. SubsetOf h d) (acs_Hosts scheme)"
    "reconcileNetworkResourceBackReference c ap w = (Inr (), w1)"
    "reconcileAuthRules c ap w1 = (Inr (), w2)" "reconcileAuthSchemes c ap w2 = (Inr (), w')"
proof -
  from assms(2) obtain w0 w1 w2 where "AuthPolicy_Validate ap = None" "\<not> b"
    and enforce: "enforceHierarchicalConstraints c ap w = (Inr (), w0)"
    and "reconcileNetworkResourceBackReference c ap w0 = (Inr (), w1)"
    "reconcileAuthRules c ap w1 = (Inr (), w2)" "reconcileAuthSchemes c ap w2 = (Inr (), w')"
    by (auto simp: ap_reconcileSpec_def split: option.splits elim!: bindE_InrE)
  moreover from enforce have "w0 = w" by (simp add: enforceHierarchicalConstraints_run[OF assms(1)])
  ultimately show thesis
    using that enforce
    by (auto simp: enforceHierarchicalConstraints_run[OF assms(1)] split: sum.splits option.splits if_splits)
qed


text \<open>The example cluster with an AuthPolicy for the route.\<close>

definition example_auth_policy :: "AuthRule list \<Rightarrow> auth_config_spec option \<Rightarrow> AuthPolicy" where
  "example_auth_policy rules scheme = k8s_object.extend
     ((new_object ''apim.kuadrant.io'' ''AuthPolicy'' ''default'' ''ap'')\<lparr>obj_Finalizers := [authPolicyFinalizer]\<rparr>)
     \<lparr>ap_Spec = \<lparr>aps_TargetRef = example_target, aps_AuthRules = rules, aps_AuthScheme = scheme\<rparr>,
      ap_Status = \<lparr>apst_ObservedGeneration = 0, apst_Conditions = None\<rparr>\<rparr>"

lemma example_auth_policy_sel [go_eval]:
  "ap_TargetRef (example_auth_policy rules scheme) = example_target"
  "aps_AuthScheme (ap_Spec (example_auth_policy rules scheme)) = scheme"
  "aps_AuthRules (ap_Spec (example_auth_policy rules scheme)) = rules"
  "obj_Namespace (example_auth_policy rules scheme) = ''default''"
  "ObjectKeyFromObject (example_auth_policy rules scheme) = ObjectKey ''default'' ''ap''"
  "AuthPolicy_Validate (example_auth_policy rules scheme) = None"
  by (simp_all add: example_auth_policy_def new_object_def k8s_object.defs ObjectKeyFromObject_def
      AuthPolicy_Validate_def example_target_def gateway_api_group_def)

lemma example_hosts:
  "fst (TargetHostnames cluster_env example_target ''default'' example_cluster) = Inr [''api.toystore.com'']"
proof -
  have hosts: "target_hosts (TargetHTTPRoute example_route) = [''api.toystore.com'']"
    by (simp add: target_hosts_def RouteHostnames_Some Let_def example_route_def k8s_object.defs)
  show ?thesis
    by (rule FetchValidTargetRef_run[OF cluster_env_api, of example_cluster example_target "''default''"])
      (simp_all add: TargetHostnames_def example_target_at hosts)
qed


section \<open>What reconcileSpec leaves in the cluster\<close>

lemma keeps_key_alwaysUpdate: "keeps_key alwaysUpdateAuthPolicy" "keeps_key alwaysUpdateAuthConfig"
  by (auto simp: keeps_key_def alwaysUpdateAuthPolicy_def alwaysUpdateAuthConfig_def ObjectKeyFromObject_def)

lemma alwaysUpdate_total: "\<exists>r. alwaysUpdateAuthPolicy o1 d = Inr r" "\<exists>r. alwaysUpdateAuthConfig a e = Inr r"
  by (simp_all add: alwaysUpdateAuthPolicy_def alwaysUpdateAuthConfig_def del: split_paired_Ex)

text \<open>Nobody else writing, the error that is let pass does not occur.\<close>

lemma unless_exists_run:
  assumes "store_api A view same" "\<And>o1 d. \<exists>r. f o1 d = Inr r" "\<not> IsObjectTaggedToDelete desired"
    and "unless_exists (ReconcileResource A desired f) w = (Inr (), w')"
  shows "ReconcileResource A desired f w = (Inr (), w')"
proof -
  obtain r w1 where run: "ReconcileResource A desired f w = (r, w1)" by fastforce
  show ?thesis
  proof (cases r)
    case (Inl e)
    with run ReconcileResource_not_exists[OF assms(1-3)] assms(4) have False
      by (cases "is_panic e") (auto simp: unless_exists_def)
    then show ?thesis ..
  next
    case (Inr u)
    with run assms(4) show ?thesis by (simp add: unless_exists_def)
  qed
qed

text \<open>The AuthorizationPolicy a gateway should have.\<close>

definition guarded :: "'w env \<Rightarrow> istio_operation list \<Rightarrow> authorization_policy option \<Rightarrow> bool" where
  "guarded c ops p \<longleftrightarrow> (\<exists>x. p = Some x \<and> azp_Action x = ''CUSTOM'' \<and> azp_Rules x = [\<lparr>ir_To = ops\<rparr>] \<and>
     azp_MatchLabels x = Some (Some Map.empty) \<and> azp_Provider x = Some (AuthProvider c))"

lemma authorization_policy_object_sel [simp]:
  "ObjectKeyFromObject (authorization_policy_object c ap ops k) = authorizationPolicyKey ap k"
  "\<not> IsObjectTaggedToDelete (authorization_policy_object c ap ops k)"
  "guarded c ops (Some (authorization_policy_object c ap ops k))"
  by (simp_all add: authorization_policy_object_def authorizationPolicyKey_def ObjectKeyFromObject_def
      IsObjectTaggedToDelete_def annotations_of_def guarded_def new_object_def k8s_object.defs)

lemma auth_config_object_sel [simp]:
  "ObjectKeyFromObject (auth_config_object ap spec) = authConfigKey ap"
  "\<not> IsObjectTaggedToDelete (auth_config_object ap spec)"
  "ac_Spec (auth_config_object ap spec) = spec"
  by (simp_all add: auth_config_object_def authConfigKey_def ObjectKeyFromObject_def
      IsObjectTaggedToDelete_def annotations_of_def new_object_def k8s_object.defs)

lemma content_eq_guarded: "content_eq a b \<Longrightarrow> guarded c ops (Some b) \<Longrightarrow> guarded c ops (Some a)"
  using arg_cong[of _ _ azp_Action] arg_cong[of _ _ azp_Rules] arg_cong[of _ _ azp_MatchLabels]
    arg_cong[of _ _ azp_Provider]
  by (cases a; cases b) (simp add: content_eq_def guarded_def)

lemma reconcile_authorization_policy:
  assumes "cluster_api c V"
    and "unless_exists (ReconcileResource (cl_AuthorizationPolicies c) (authorization_policy_object c ap ops k)
      alwaysUpdateAuthPolicy) w = (Inr (), w')"
  shows "V w'\<lparr>sn_AuthorizationPolicies := Map.empty\<rparr> = V w\<lparr>sn_AuthorizationPolicies := Map.empty\<rparr>"
    and "guarded c ops (sn_AuthorizationPolicies (V w') (authorizationPolicyKey ap k))"
    and "k' \<noteq> authorizationPolicyKey ap k \<Longrightarrow>
      sn_AuthorizationPolicies (V w') k' = sn_AuthorizationPolicies (V w) k'"
proof -
  have api: "kind_api V sn_AuthorizationPolicies (sn_AuthorizationPolicies_update (\<lambda>_. Map.empty))
      (cl_AuthorizationPolicies c)"
    using assms(1) by (simp add: cluster_api_def)
  have "ReconcileResource (cl_AuthorizationPolicies c) (authorization_policy_object c ap ops k)
      alwaysUpdateAuthPolicy w = (Inr (), w')"
    by (rule unless_exists_run[OF cluster_store(8)[OF assms(1)] alwaysUpdate_total(1) _ assms(2)]) simp
  note rec = kind_reconcile[OF api keeps_key_alwaysUpdate(1) this]
  show "V w'\<lparr>sn_AuthorizationPolicies := Map.empty\<rparr> = V w\<lparr>sn_AuthorizationPolicies := Map.empty\<rparr>"
    and "k' \<noteq> authorizationPolicyKey ap k \<Longrightarrow>
      sn_AuthorizationPolicies (V w') k' = sn_AuthorizationPolicies (V w) k'"
    using rec(1,2) by simp_all
  have new: "guarded c ops (Some (snd r))"
    if "alwaysUpdateAuthPolicy x (authorization_policy_object c ap ops k) = Inr r" for x r
    using that authorization_policy_object_sel(3)[of c ops ap k]
    by (auto simp: alwaysUpdateAuthPolicy_def guarded_def)
  have "fst r" if "alwaysUpdateAuthPolicy x d = Inr r" for x d r
    using that by (auto simp: alwaysUpdateAuthPolicy_def)
  with rec(3) new show "guarded c ops (sn_AuthorizationPolicies (V w') (authorizationPolicyKey ap k))"
    by (fastforce intro: content_eq_guarded split: option.splits if_splits)
qed

lemma reconcile_authorization_policies:
  assumes "cluster_api c V"
    and "forE (\<lambda>gwKey. unless_exists (ReconcileResource (cl_AuthorizationPolicies c)
      (authorization_policy_object c ap ops gwKey) alwaysUpdateAuthPolicy)) keys w = (Inr (), w')"
  shows "V w'\<lparr>sn_AuthorizationPolicies := Map.empty\<rparr> = V w\<lparr>sn_AuthorizationPolicies := Map.empty\<rparr> \<and>
    (\<forall>k. if k \<in> authorizationPolicyKey ap ` set keys then guarded c ops (sn_AuthorizationPolicies (V w') k)
      else sn_AuthorizationPolicies (V w') k = sn_AuthorizationPolicies (V w) k)"
  using assms(2)
proof (induction keys arbitrary: w)
  case Nil
  then show ?case by simp
next
  case (Cons k0 keys)
  from Cons.prems obtain w1 where w1: "unless_exists (ReconcileResource (cl_AuthorizationPolicies c)
      (authorization_policy_object c ap ops k0) alwaysUpdateAuthPolicy) w = (Inr (), w1)"
    "forE (\<lambda>gwKey. unless_exists (ReconcileResource (cl_AuthorizationPolicies c)
      (authorization_policy_object c ap ops gwKey) alwaysUpdateAuthPolicy)) keys w1 = (Inr (), w')"
    by (auto elim: bindE_InrE)
  note one = reconcile_authorization_policy[OF assms(1) w1(1)]
  from Cons.IH[OF w1(2)] have rest:
    "V w'\<lparr>sn_AuthorizationPolicies := Map.empty\<rparr> = V w1\<lparr>sn_AuthorizationPolicies := Map.empty\<rparr>"
    "\<And>k. k \<in> authorizationPolicyKey ap ` set keys \<Longrightarrow> guarded c ops (sn_AuthorizationPolicies (V w') k)"
    "\<And>k. k \<notin> authorizationPolicyKey ap ` set keys \<Longrightarrow>
      sn_AuthorizationPolicies (V w') k = sn_AuthorizationPolicies (V w1) k"
    by (auto split: if_splits)
  have "if k \<in> authorizationPolicyKey ap ` set (k0 # keys) then guarded c ops (sn_AuthorizationPolicies (V w') k)
      else sn_AuthorizationPolicies (V w') k = sn_AuthorizationPolicies (V w) k" for k
    using rest(2,3)[of k] one(2,3)
    by (cases "k \<in> authorizationPolicyKey ap ` set keys"; cases "k = authorizationPolicyKey ap k0") simp_all
  with rest(1) one(1) show ?case by simp
qed

text \<open>The operations a policy allows: those of its rules, else those of the route it targets.\<close>

definition operations_for :: "snapshot \<Rightarrow> AuthPolicy \<Rightarrow> istio_operation list" where
  "operations_for s ap =
     (if aps_AuthRules (ap_Spec ap) = [] then
        (case target_at s (ap_TargetRef ap) (obj_Namespace ap) of
           Some (TargetHTTPRoute route) \<Rightarrow> route_operations route
         | _ \<Rightarrow> [])
      else rule_operations ap)"

lemma to_rules_run:
  assumes "cluster_api c V" "to_rules c ap w = (Inr ops, w')"
  shows "w' = w" "ops = operations_for (V w) ap"
proof -
  have empty: "rule_operations ap = [] \<longleftrightarrow> aps_AuthRules (ap_Spec ap) = []"
    by (simp add: rule_operations_def)
  have "w' = w \<and> ops = operations_for (V w) ap"
  proof (rule FetchValidTargetRef_run[OF assms(1), of w "ap_TargetRef ap" "obj_Namespace ap"])
    fix obj
    assume "target_at (V w) (ap_TargetRef ap) (obj_Namespace ap) = Some obj"
      and "FetchValidTargetRef c (ap_TargetRef ap) (obj_Namespace ap) w = (Inr obj, w)"
    with assms(2) show ?thesis
      by (auto simp: to_rules_def operations_for_def empty Let_def split: target_object.splits if_splits)
  qed (use assms(2) in \<open>auto simp: to_rules_def operations_for_def empty Let_def split: if_splits\<close>)
  then show "w' = w" "ops = operations_for (V w) ap" by simp_all
qed

text \<open>A target that could be claimed has gateways.\<close>

lemma claimed_gateway_keys:
  assumes "cluster_api c V" "ReconcileTargetBackReference c pk tr ns ann w = (Inr (), w1)"
  obtains keys where "TargetedGatewayKeys c tr ns w1 = (Inr keys, w1)"
proof -
  from ReconcileTargetBackReference_run[OF assms] obtain obj where
    obj: "target_at (V w) tr ns = Some obj" "usable_target c obj" by auto
  show thesis
  proof (cases "IsTargetRefHTTPRoute tr")
    case True
    with obj obtain r where r: "usable_route c (V w) (target_key tr ns) = Some r"
      by (auto simp: target_at_def IsTargetRefHTTPRoute_def Let_def usable_route_def)
    have "rel_option (reannotated ann) (usable_route c (V w) (target_key tr ns)) (usable_route c (V w1) (target_key tr ns))"
      by (rule usable_route_retargeted[OF back_reference_retargeted(1)[OF assms]])
    with r obtain r' where "sn_HTTPRoutes (V w1) (target_key tr ns) = Some r'" "usable_target c (TargetHTTPRoute r')"
      by (auto simp: usable_route_def elim!: option.rel_cases split: option.splits if_splits)
    then have "FetchValidHTTPRoute c (target_key tr ns) w1 = (Inr r', w1)"
      by (cases rule: FetchValidHTTPRoute_run[OF cluster_store(4)[OF assms(1)], of w1 "target_key tr ns"]) simp_all
    with True that show thesis by (simp add: TargetedGatewayKeys_def)
  next
    case False
    with obj have "IsTargetRefGateway tr"
      by (auto simp: target_at_def IsTargetRefHTTPRoute_def IsTargetRefGateway_def Let_def split: if_splits)
    with False that show thesis by (simp add: TargetedGatewayKeys_def)
  qed
qed

lemma reconcileAuthSchemes_run:
  assumes "cluster_api c V" "aps_AuthScheme (ap_Spec ap) = Some scheme" "reconcileAuthSchemes c ap w = (Inr (), w')"
  shows "V w'\<lparr>sn_AuthConfigs := Map.empty\<rparr> = V w\<lparr>sn_AuthConfigs := Map.empty\<rparr>"
    and "\<exists>x. sn_AuthConfigs (V w') (authConfigKey ap) = Some x \<and> ac_Spec x = scheme"
    and "k \<noteq> authConfigKey ap \<Longrightarrow> sn_AuthConfigs (V w') k = sn_AuthConfigs (V w) k"
proof -
  have api: "kind_api V sn_AuthConfigs (sn_AuthConfigs_update (\<lambda>_. Map.empty)) (cl_AuthConfigs c)"
    using assms(1) by (simp add: cluster_api_def)
  have "ReconcileResource (cl_AuthConfigs c) (auth_config_object ap scheme) alwaysUpdateAuthConfig w = (Inr (), w')"
    by (rule unless_exists_run[OF cluster_store(9)[OF assms(1)] alwaysUpdate_total(2)])
      (use assms(2,3) in \<open>simp_all add: reconcileAuthSchemes_def\<close>)
  note rec = kind_reconcile[OF api keeps_key_alwaysUpdate(2) this]
  show "V w'\<lparr>sn_AuthConfigs := Map.empty\<rparr> = V w\<lparr>sn_AuthConfigs := Map.empty\<rparr>"
    and "k \<noteq> authConfigKey ap \<Longrightarrow> sn_AuthConfigs (V w') k = sn_AuthConfigs (V w) k"
    using rec(1,2) by simp_all
  have "content_eq a b \<Longrightarrow> ac_Spec a = ac_Spec b" for a b :: auth_config
    unfolding content_eq_def by (drule arg_cong[where f = ac_Spec]) simp
  with rec(3) show "\<exists>x. sn_AuthConfigs (V w') (authConfigKey ap) = Some x \<and> ac_Spec x = scheme"
    by (fastforce simp: alwaysUpdateAuthConfig_def split: option.splits)
qed

lemma ap_reconcileSpec_run:
  assumes "cluster_api c V" "ap_reconcileSpec c ap w = (Inr b, w')"
  shows "(\<exists>obj. target_at (V w') (ap_TargetRef ap) (obj_Namespace ap) = Some obj \<and>
      target_annotations obj AuthPolicyBackRefAnnotation = Some (key_String (ObjectKeyFromObject ap))) \<and>
    (\<exists>keys. TargetedGatewayKeys c (ap_TargetRef ap) (obj_Namespace ap) w' = (Inr keys, w') \<and>
      (\<forall>k. if k \<in> authorizationPolicyKey ap ` set keys
         then guarded c (operations_for (V w') ap) (sn_AuthorizationPolicies (V w') k)
         else sn_AuthorizationPolicies (V w') k = sn_AuthorizationPolicies (V w) k)) \<and>
    (\<exists>x. sn_AuthConfigs (V w') (authConfigKey ap) = Some x \<and> aps_AuthScheme (ap_Spec ap) = Some (ac_Spec x)) \<and>
    (\<forall>k. k \<noteq> authConfigKey ap \<longrightarrow> sn_AuthConfigs (V w') k = sn_AuthConfigs (V w) k) \<and>
    retargeted AuthPolicyBackRefAnnotation (V w)
      (V w'\<lparr>sn_AuthorizationPolicies := sn_AuthorizationPolicies (V w), sn_AuthConfigs := sn_AuthConfigs (V w)\<rparr>)"
proof -
  let ?ann = AuthPolicyBackRefAnnotation and ?tr = "ap_TargetRef ap" and ?ns = "obj_Namespace ap"
  from ap_reconcileSpec_steps[OF assms] obtain scheme w1 w2 where
    scheme: "aps_AuthScheme (ap_Spec ap) = Some scheme" and
    claim: "ReconcileTargetBackReference c (ObjectKeyFromObject ap) ?tr ?ns ?ann w = (Inr (), w1)" and
    rules: "reconcileAuthRules c ap w1 = (Inr (), w2)" and
    schemes: "reconcileAuthSchemes c ap w2 = (Inr (), w')"
    unfolding reconcileNetworkResourceBackReference_def by metis
  obtain keys where keys: "TargetedGatewayKeys c ?tr ?ns w1 = (Inr keys, w1)"
    using claimed_gateway_keys[OF assms(1) claim] .
  from rules obtain ops w1' where "to_rules c ap w1 = (Inr ops, w1')"
    by (auto simp: reconcileAuthRules_def elim: bindE_InrE)
  with to_rules_run[OF assms(1) this] have ops: "to_rules c ap w1 = (Inr (operations_for (V w1) ap), w1)" by simp
  with rules keys have loop: "forE (\<lambda>gwKey. unless_exists (ReconcileResource (cl_AuthorizationPolicies c)
      (authorization_policy_object c ap (operations_for (V w1) ap) gwKey) alwaysUpdateAuthPolicy)) keys w1 = (Inr (), w2)"
    by (simp add: reconcileAuthRules_def)
  note policies = reconcile_authorization_policies[OF assms(1) loop]
  note config = reconcileAuthSchemes_run[OF assms(1) scheme schemes]
  note claimed = back_reference_retargeted(1)[OF assms(1) claim]
  note sel = retargeted_sel[OF claimed]
  have w': "sn_HTTPRoutes (V w') = sn_HTTPRoutes (V w1)" "sn_Gateways (V w') = sn_Gateways (V w1)"
    "sn_AuthorizationPolicies (V w') = sn_AuthorizationPolicies (V w2)" "sn_AuthConfigs (V w2) = sn_AuthConfigs (V w1)"
    using policies config(1) by (cases "V w1"; cases "V w2"; cases "V w'"; simp)+
  have target: "target_at (V w') ?tr ?ns = target_at (V w1) ?tr ?ns"
    by (simp add: target_at_def w' Let_def)
  then have operations: "operations_for (V w') ap = operations_for (V w1) ap"
    by (simp add: operations_for_def)
  have "\<exists>obj. target_at (V w') ?tr ?ns = Some obj \<and>
      target_annotations obj ?ann = Some (key_String (ObjectKeyFromObject ap))"
    using ReconcileTargetBackReference_run[OF assms(1) claim] target by auto
  moreover have "TargetedGatewayKeys c ?tr ?ns w' = (Inr keys, w')"
    by (rule TargetedGatewayKeys_cong[OF assms(1) _ keys]) (simp add: w')
  moreover have "V w'\<lparr>sn_AuthorizationPolicies := sn_AuthorizationPolicies (V w), sn_AuthConfigs := sn_AuthConfigs (V w)\<rparr> = V w1"
    using policies config(1) sel by (cases "V w1"; cases "V w2"; cases "V w'") simp
  ultimately show ?thesis
    using policies config(2,3) scheme claimed sel by (auto simp: operations w')
qed


text \<open>An AuthPolicy with one rule and a scheme, on the example cluster.\<close>

definition example_scheme :: auth_config_spec where
  "example_scheme = \<lparr>acs_Hosts = [''api.toystore.com''], acs_Rest = JNull\<rparr>"

definition example_ap :: AuthPolicy where
  "example_ap = example_auth_policy [\<lparr>ar_Hosts = Some [''api.toystore.com''], ar_Methods = Some [''GET''], ar_Paths = None\<rparr>]
     (Some example_scheme)"

lemma example_ap_sel [simp, go_eval]:
  "ap_TargetRef example_ap = example_target" "aps_AuthScheme (ap_Spec example_ap) = Some example_scheme"
  "obj_Namespace example_ap = ''default''" "ObjectKeyFromObject example_ap = ObjectKey ''default'' ''ap''"
  "AuthPolicy_Validate example_ap = None" "ap_rule_hosts example_ap = [''api.toystore.com'']"
  "rule_operations example_ap \<noteq> []" "acs_Hosts example_scheme = [''api.toystore.com'']"
  by (simp_all add: example_ap_def example_auth_policy_sel ap_rule_hosts_def rule_operations_def example_scheme_def)

lemma list_api_reconcile:
  assumes "\<And>o1 d. \<exists>x. f o1 d = Inr (True, x) \<and> ObjectKeyFromObject x = ObjectKeyFromObject o1"
    and "\<not> IsObjectTaggedToDelete desired"
  shows "\<exists>w'. ReconcileResource (list_api get put) desired f w = (Inr (), w')"
proof (cases "find (\<lambda>obj. ObjectKeyFromObject obj = ObjectKeyFromObject desired) (get w)")
  case None
  with assms(2) show ?thesis
    by (simp add: ReconcileResource_absent[where e = "APIError NotFound ''not found''" and w' = w] go_eval)
next
  case (Some obj)
  then have key: "ObjectKeyFromObject obj = ObjectKeyFromObject desired"
    by (metis (mono_tags, lifting) find_Some_iff)
  obtain x where "f obj desired = Inr (True, x)" "ObjectKeyFromObject x = ObjectKeyFromObject desired"
    using assms(1) key by metis
  with Some assms(2) show ?thesis
    by (simp add: ReconcileResource_present[where obj = obj] go_eval)
qed

lemma forE_succeeds: "(\<And>x w. \<exists>w'. f x w = (Inr (), w')) \<Longrightarrow> \<exists>w'. forE f xs w = (Inr (), w')"
proof (induction xs arbitrary: w)
  case (Cons x xs)
  obtain w1 where "f x w = (Inr (), w1)" using Cons.prems by blast
  with Cons show ?case by simp
qed simp

lemma cluster_env_auth [go_eval]:
  "cl_AuthorizationPolicies cluster_env = list_api cs_AuthorizationPolicies (\<lambda>xs. cs_AuthorizationPolicies_update (\<lambda>_. xs))"
  "cl_AuthConfigs cluster_env = list_api cs_AuthConfigs (\<lambda>xs. cs_AuthConfigs_update (\<lambda>_. xs))"
  "cl_APs cluster_env = list_api cs_APs (\<lambda>xs. cs_APs_update (\<lambda>_. xs))"
  by (simp_all add: cluster_env_def)

lemma example_writes:
  "\<exists>w'. forE (\<lambda>k. unless_exists (ReconcileResource (cl_AuthorizationPolicies cluster_env)
     (authorization_policy_object cluster_env ap ops k) alwaysUpdateAuthPolicy)) keys w = (Inr (), w')"
  "\<exists>w'. unless_exists (ReconcileResource (cl_AuthConfigs cluster_env) (auth_config_object ap scheme)
     alwaysUpdateAuthConfig) w = (Inr (), w')"
proof -
  have "\<exists>w'. unless_exists (ReconcileResource (cl_AuthorizationPolicies cluster_env)
     (authorization_policy_object cluster_env ap ops k) alwaysUpdateAuthPolicy) w = (Inr (), w')" for k w
    using list_api_reconcile[of alwaysUpdateAuthPolicy "authorization_policy_object cluster_env ap ops k"
        cs_AuthorizationPolicies "\<lambda>xs. cs_AuthorizationPolicies_update (\<lambda>_. xs)" w]
    by (auto simp: unless_exists_def alwaysUpdateAuthPolicy_def ObjectKeyFromObject_def go_eval)
  then show "\<exists>w'. forE (\<lambda>k. unless_exists (ReconcileResource (cl_AuthorizationPolicies cluster_env)
     (authorization_policy_object cluster_env ap ops k) alwaysUpdateAuthPolicy)) keys w = (Inr (), w')"
    by (rule forE_succeeds)
  show "\<exists>w'. unless_exists (ReconcileResource (cl_AuthConfigs cluster_env) (auth_config_object ap scheme)
     alwaysUpdateAuthConfig) w = (Inr (), w')"
    using list_api_reconcile[of alwaysUpdateAuthConfig "auth_config_object ap scheme"
        cs_AuthConfigs "\<lambda>xs. cs_AuthConfigs_update (\<lambda>_. xs)" w]
    by (auto simp: unless_exists_def alwaysUpdateAuthConfig_def ObjectKeyFromObject_def go_eval)
qed

lemma example_ap_claim:
  "\<exists>w'. ReconcileTargetBackReference cluster_env pk example_target ''default'' AuthPolicyBackRefAnnotation example_cluster
     = (Inr (), w')"
  by (rule FetchValidTargetRef_run[OF cluster_env_api, of example_cluster example_target "''default''"])
    (auto simp: ReconcileTargetBackReference_def example_target_at target_annotations_def go_eval update_target_def
      AuthPolicyBackRefAnnotation_def RateLimitPolicyBackRefAnnotation_def target_SetAnnotations_def
      UpdateResource_def bindE_def claimed_keys Let_def)

lemma ap_reconcileSpec_example: "\<exists>w'. ap_reconcileSpec cluster_env example_ap example_cluster = (Inr False, w')"
proof -
  have "SubsetOf ''api.toystore.com'' ''api.toystore.com''" by (simp add: SubsetOf_def)
  then have enforce: "enforceHierarchicalConstraints cluster_env example_ap example_cluster = (Inr (), example_cluster)"
    using example_hosts
    by (simp add: enforceHierarchicalConstraints_run[OF cluster_env_api])
  obtain w1 where claim: "ReconcileTargetBackReference cluster_env (ObjectKeyFromObject example_ap) example_target
      ''default'' AuthPolicyBackRefAnnotation example_cluster = (Inr (), w1)"
    using example_ap_claim by blast
  obtain keys where keys: "TargetedGatewayKeys cluster_env example_target ''default'' w1 = (Inr keys, w1)"
    using claimed_gateway_keys[OF cluster_env_api claim] .
  have ops: "to_rules cluster_env example_ap = retE (rule_operations example_ap)"
    by (simp add: to_rules_def Let_def)
  obtain w2 where "reconcileAuthRules cluster_env example_ap w1 = (Inr (), w2)"
    using keys example_writes(1)[of example_ap "rule_operations example_ap" keys w1] ops
    by (auto simp: reconcileAuthRules_def)
  moreover obtain w' where "reconcileAuthSchemes cluster_env example_ap w2 = (Inr (), w')"
    using example_writes(2)[of example_ap example_scheme w2] by (auto simp: reconcileAuthSchemes_def)
  ultimately show ?thesis
    using enforce claim by (simp add: ap_reconcileSpec_def reconcileNetworkResourceBackReference_def)
qed


end
