(* ===== verification/AP_Lifecycle.thy ===== *)
theory AP_Lifecycle
  imports Auth_Policy
begin

text \<open>
  The life of an AuthPolicy: what its clean-up leaves, when Reconcile lets it go, when its status
  settles, and which names its objects have.
\<close>

section \<open>The clean-up\<close>

lemma bare_object_keys [simp]:
  "ObjectKeyFromObject (bare_authorization_policy ap k) = authorizationPolicyKey ap k"
  by (simp add: bare_authorization_policy_def authorizationPolicyKey_def ObjectKeyFromObject_def
      new_object_def k8s_object.defs)

lemma kind_delete:
  assumes "kind_api V get forget A" "DeleteResource A obj w = (r, w')"
  shows "forget (V w') = forget (V w)"
    and "r = Inr () \<Longrightarrow> get (V w) (ObjectKeyFromObject obj) \<noteq> None \<and>
      get (V w') = (get (V w))(ObjectKeyFromObject obj := None)"
    and "r = Inl e \<Longrightarrow> get (V w') = get (V w) \<and> (IsNotFound e \<longleftrightarrow> get (V w) (ObjectKeyFromObject obj) = None)"
proof -
  from assms have f: "frame (forget \<circ> V) A" and s: "store_api A (get \<circ> V) content_eq"
    and run: "api_Delete A obj w = (r, w')"
    by (simp_all add: kind_api_def DeleteResource_def)
  show "forget (V w') = forget (V w)"
    using f run unfolding frame_def by (metis comp_apply snd_conv)
  show "r = Inr () \<Longrightarrow> get (V w) (ObjectKeyFromObject obj) \<noteq> None \<and>
      get (V w') = (get (V w))(ObjectKeyFromObject obj := None)"
    using store_Delete[OF s, of obj w "()" w'] run by simp
  show "r = Inl e \<Longrightarrow> get (V w') = get (V w) \<and> (IsNotFound e \<longleftrightarrow> get (V w) (ObjectKeyFromObject obj) = None)"
    using store_failure(3,5)[OF s, of obj w e w'] run by simp
qed

lemma preserves_delete:
  assumes "kind_api V get forget A"
  shows "preserves (\<lambda>w. forget (V w) = F) (DeleteResource A x)"
  by (rule preservesI) (simp add: kind_delete(1)[OF assms])

lemma authorizationPolicyKey_eq: "authorizationPolicyKey a k = authorizationPolicyKey a k' \<longleftrightarrow> k = k'"
  by (cases k; cases k') (auto simp: authorizationPolicyKey_def getAuthPolicyName_def targetObjectKind_def)

text \<open>Deleting objects one after the other succeeds only on objects that are there, each once.\<close>

lemma delete_all:
  assumes "kind_api V get forget A" "forE (\<lambda>x. DeleteResource A (obj x)) xs w = (Inr (), w')"
  shows "forget (V w') = forget (V w) \<and> distinct (map (\<lambda>x. ObjectKeyFromObject (obj x)) xs) \<and>
    (\<forall>x \<in> set xs. get (V w) (ObjectKeyFromObject (obj x)) \<noteq> None) \<and>
    (\<forall>k. get (V w') k = (if k \<in> (\<lambda>x. ObjectKeyFromObject (obj x)) ` set xs then None else get (V w) k))"
  using assms(2)
proof (induction xs arbitrary: w)
  case (Cons x xs)
  from Cons.prems obtain w1 where w1: "DeleteResource A (obj x) w = (Inr (), w1)"
    "forE (\<lambda>x. DeleteResource A (obj x)) xs w1 = (Inr (), w')"
    by (auto elim: bindE_InrE)
  from kind_delete(1)[OF assms(1) w1(1)] kind_delete(2)[OF assms(1) w1(1) refl] Cons.IH[OF w1(2)]
  show ?case by (auto split: if_splits)
qed simp

lemma removeAuthSchemes_run:
  assumes "cluster_api c V" "removeAuthSchemes c ap w = (Inr (), w')"
  shows "V w' = V w\<lparr>sn_AuthConfigs := (sn_AuthConfigs (V w))(authConfigKey ap := None)\<rparr>"
proof -
  have api: "kind_api V sn_AuthConfigs (sn_AuthConfigs_update (\<lambda>_. Map.empty)) (cl_AuthConfigs c)"
    using assms(1) by (simp add: cluster_api_def)
  let ?obj = "k8s_object.extend (new_object '''' '''' KuadrantNamespace (authConfigName (ObjectKeyFromObject ap)))
      \<lparr>ac_Spec = \<lparr>acs_Hosts = [], acs_Rest = JNull\<rparr>, ac_StatusReady = JNull\<rparr>"
  have key: "ObjectKeyFromObject ?obj = authConfigKey ap"
    by (simp add: authConfigKey_def plugin_object_key)
  obtain r where del: "DeleteResource (cl_AuthConfigs c) ?obj w = (r, w')"
    and ok: "\<And>e. r = Inl e \<Longrightarrow> IsNotFound e"
    using assms(2)
    by (cases "DeleteResource (cl_AuthConfigs c) ?obj w")
      (auto simp: removeAuthSchemes_def attempt_def bindE_def split: sum.splits if_splits)
  note run = kind_delete[OF api del, unfolded key]
  have "sn_AuthConfigs (V w') = (sn_AuthConfigs (V w))(authConfigKey ap := None)"
    using run(2,3) ok by (cases r) (auto simp: fun_upd_idem)
  with run(1) show ?thesis by (cases "V w"; cases "V w'") simp
qed

lemma finalizeAP_run:
  assumes "cluster_api c V" "finalizeAP c ap w = (Inr (), w')"
  shows "sn_AuthConfigs (V w') = (sn_AuthConfigs (V w))(authConfigKey ap := None) \<and>
    (\<forall>obj. target_at (V w') (ap_TargetRef ap) (obj_Namespace ap) = Some obj \<longrightarrow>
      target_annotations obj AuthPolicyBackRefAnnotation = None) \<and>
    (case fst (TargetedGatewayKeys c (ap_TargetRef ap) (obj_Namespace ap) w) of
       Inl _ \<Rightarrow> sn_AuthorizationPolicies (V w') = sn_AuthorizationPolicies (V w)
     | Inr keys \<Rightarrow> distinct keys \<and>
         (\<forall>k \<in> set keys. sn_AuthorizationPolicies (V w) (authorizationPolicyKey ap k) \<noteq> None) \<and>
         (\<forall>k. sn_AuthorizationPolicies (V w') k =
            (if k \<in> authorizationPolicyKey ap ` set keys then None else sn_AuthorizationPolicies (V w) k))) \<and>
    retargeted AuthPolicyBackRefAnnotation (V w)
      (V w'\<lparr>sn_AuthorizationPolicies := sn_AuthorizationPolicies (V w), sn_AuthConfigs := sn_AuthConfigs (V w)\<rparr>)"
proof -
  let ?tr = "ap_TargetRef ap" and ?ns = "obj_Namespace ap"
  have api: "kind_api V sn_AuthorizationPolicies (sn_AuthorizationPolicies_update (\<lambda>_. Map.empty))
      (cl_AuthorizationPolicies c)"
    using assms(1) by (simp add: cluster_api_def)
  from assms(2) obtain w1 w2 where policies: "removeIstioAuthPolicy c ap w = (Inr (), w1)"
    and schemes: "removeAuthSchemes c ap w1 = (Inr (), w2)"
    and release: "DeleteTargetBackReference c (ObjectKeyFromObject ap) ?tr ?ns AuthPolicyBackRefAnnotation w2 = (Inr (), w')"
    by (auto simp: finalizeAP_def ap_deleteNetworkResourceBackReference_def elim!: bindE_InrE)
  obtain found where found: "TargetedGatewayKeys c ?tr ?ns w = (found, w)"
    using TargetedGatewayKeys_pure[OF assms(1), of ?tr ?ns w] by (metis prod.collapse)
  have w1: "V w1\<lparr>sn_AuthorizationPolicies := Map.empty\<rparr> = V w\<lparr>sn_AuthorizationPolicies := Map.empty\<rparr> \<and>
      (case found of
         Inl _ \<Rightarrow> sn_AuthorizationPolicies (V w1) = sn_AuthorizationPolicies (V w)
       | Inr keys \<Rightarrow> distinct keys \<and>
           (\<forall>k \<in> set keys. sn_AuthorizationPolicies (V w) (authorizationPolicyKey ap k) \<noteq> None) \<and>
           (\<forall>k. sn_AuthorizationPolicies (V w1) k =
              (if k \<in> authorizationPolicyKey ap ` set keys then None else sn_AuthorizationPolicies (V w) k)))"
  proof (cases found)
    case (Inl e)
    with policies found show ?thesis
      by (cases "is_panic e") (simp_all add: removeIstioAuthPolicy_def)
  next
    case (Inr keys)
    with policies found have "forE (\<lambda>gwKey. DeleteResource (cl_AuthorizationPolicies c)
        (bare_authorization_policy ap gwKey)) keys w = (Inr (), w1)"
      by (simp add: removeIstioAuthPolicy_def)
    from delete_all[OF api this] Inr show ?thesis by (auto simp: distinct_map)
  qed
  note w2 = removeAuthSchemes_run[OF assms(1) schemes]
  have claimed: "retargeted AuthPolicyBackRefAnnotation (V w2) (V w')"
    by (rule back_reference_retargeted(2)[OF assms(1) release])
  note sel = retargeted_sel[OF claimed]
  have "target_annotations obj AuthPolicyBackRefAnnotation = None" if "target_at (V w') ?tr ?ns = Some obj" for obj
    using DeleteTargetBackReference_run[OF assms(1) release] that by (auto split: option.splits)
  moreover have "sn_AuthConfigs (V w1) = sn_AuthConfigs (V w)"
    using arg_cong[OF conjunct1[OF w1], of sn_AuthConfigs] by simp
  moreover have "retargeted AuthPolicyBackRefAnnotation (V w)
      (V w'\<lparr>sn_AuthorizationPolicies := sn_AuthorizationPolicies (V w), sn_AuthConfigs := sn_AuthConfigs (V w)\<rparr>)"
    using claimed w2 w1 by (cases "V w"; cases "V w1"; cases "V w2"; cases "V w'") (simp add: retargeted_def)
  ultimately show ?thesis using w1 w2 sel(6,7) found by (cases found) simp_all
qed

text \<open>
  C26: What a completed clean-up of an AuthPolicy leaves behind. The AuthConfig is gone, and so is
  the back reference of the target; no other annotation, no other object and no policy has changed.
  The AuthorizationPolicy of every gateway of the target was there and is gone: conversely, where
  one of them is missing already, or the target names a gateway twice, the clean-up does not
  succeed. (When the gateways of the target cannot be found, the AuthorizationPolicies stay.)
\<close>

theorem finalizeAP_correct:
  assumes "cluster_api c V" "finalizeAP c ap w = (Inr (), w')"
  shows "sn_AuthConfigs (V w') = (sn_AuthConfigs (V w))(authConfigKey ap := None) \<and>
    (\<forall>obj. target_at (V w') (ap_TargetRef ap) (obj_Namespace ap) = Some obj \<longrightarrow>
      target_annotations obj AuthPolicyBackRefAnnotation = None) \<and>
    (case fst (TargetedGatewayKeys c (ap_TargetRef ap) (obj_Namespace ap) w) of
       Inl _ \<Rightarrow> sn_AuthorizationPolicies (V w') = sn_AuthorizationPolicies (V w)
     | Inr keys \<Rightarrow> distinct keys \<and>
         (\<forall>k \<in> set keys. sn_AuthorizationPolicies (V w) (authorizationPolicyKey ap k) \<noteq> None) \<and>
         (\<forall>k. sn_AuthorizationPolicies (V w') k =
            (if k \<in> authorizationPolicyKey ap ` set keys then None else sn_AuthorizationPolicies (V w) k))) \<and>
    retargeted AuthPolicyBackRefAnnotation (V w)
      (V w'\<lparr>sn_AuthorizationPolicies := sn_AuthorizationPolicies (V w), sn_AuthConfigs := sn_AuthConfigs (V w)\<rparr>)"
  by (rule finalizeAP_run[OF assms])

definition guarded_cluster :: cluster where
  "guarded_cluster = example_cluster\<lparr>cs_AuthorizationPolicies :=
     [authorization_policy_object cluster_env example_ap [] (ObjectKey ''istio'' ''gw'')]\<rparr>"

lemma guarded_cluster_sel [go_eval]:
  "cs_HTTPRoutes guarded_cluster = [example_route]" "cs_AuthConfigs guarded_cluster = []"
  "cs_AuthorizationPolicies guarded_cluster =
     [authorization_policy_object cluster_env example_ap [] (ObjectKey ''istio'' ''gw'')]"
  by (simp_all add: guarded_cluster_def example_cluster_def empty_cluster_def)

lemma guarded_gateways:
  "TargetedGatewayKeys cluster_env example_target ''default'' guarded_cluster
     = (Inr [ObjectKey ''istio'' ''gw''], guarded_cluster)"
  by (cases rule: FetchValidHTTPRoute_run[OF cluster_store(4)[OF cluster_env_api],
        of guarded_cluster "ObjectKey ''default'' ''toystore''"])
    (simp_all add: TargetedGatewayKeys_def go_eval list_view_def)

lemma list_api_Delete [go_eval]:
  "api_Delete (list_api get put) obj w = (case find (\<lambda>x. ObjectKeyFromObject x = ObjectKeyFromObject obj) (get w) of
     None \<Rightarrow> (Inl (APIError NotFound ''not found''), w)
   | Some _ \<Rightarrow> (Inr (), put (filter (\<lambda>x. ObjectKeyFromObject x \<noteq> ObjectKeyFromObject obj) (get w)) w))"
  by (simp add: list_api_def list_view_def)

lemma finalizeAP_example:
  "finalizeAP cluster_env example_ap guarded_cluster = (Inr (), guarded_cluster\<lparr>cs_AuthorizationPolicies := []\<rparr>)"
proof -
  let ?w = "guarded_cluster\<lparr>cs_AuthorizationPolicies := []\<rparr>"
  have "removeIstioAuthPolicy cluster_env example_ap guarded_cluster = (Inr (), ?w)"
    by (simp add: removeIstioAuthPolicy_def guarded_gateways DeleteResource_def go_eval bindE_def attempt_def)
  moreover have "removeAuthSchemes cluster_env example_ap ?w = (Inr (), ?w)"
    by (simp add: removeAuthSchemes_def DeleteResource_def go_eval bindE_def attempt_def)
  moreover have "ap_deleteNetworkResourceBackReference cluster_env example_ap ?w = (Inr (), ?w)"
    by (rule FetchValidTargetRef_run[OF cluster_env_api, of ?w example_target "''default''"])
      (simp_all add: ap_deleteNetworkResourceBackReference_def DeleteTargetBackReference_def go_eval
        target_annotations_def AuthPolicyBackRefAnnotation_def RateLimitPolicyBackRefAnnotation_def Let_def)
  ultimately show ?thesis by (simp add: finalizeAP_def)
qed

theorem finalizeAP_correct_witness:
  "\<exists>w'. finalizeAP cluster_env example_ap guarded_cluster = (Inr (), w') \<and>
    sn_AuthorizationPolicies (cluster_view w') (ObjectKey ''istio'' ''on-gw-using-toystore'') = None"
proof -
  have "authorizationPolicyKey example_ap (ObjectKey ''istio'' ''gw'') = ObjectKey ''istio'' ''on-gw-using-toystore''"
    by (simp add: authorizationPolicyKey_def getAuthPolicyName_def targetObjectKind_def go_eval) (simp add: example_target_def)
  then show ?thesis
    using finalizeAP_correct[OF cluster_env_api finalizeAP_example] finalizeAP_example guarded_gateways
    by simp
qed

section \<open>Deletion of a policy\<close>

lemma preserves_APs_finalize:
  assumes "cluster_api c V"
  shows "preserves (\<lambda>w. sn_APs (V w) = R) (finalizeAP c ap)"
proof -
  have azp: "kind_api V sn_AuthorizationPolicies (sn_AuthorizationPolicies_update (\<lambda>_. Map.empty))
      (cl_AuthorizationPolicies c)"
    and ac: "kind_api V sn_AuthConfigs (sn_AuthConfigs_update (\<lambda>_. Map.empty)) (cl_AuthConfigs c)"
    using assms by (simp_all add: cluster_api_def)
  have "preserves (\<lambda>w. sn_APs (V w) = R) (DeleteResource (cl_AuthorizationPolicies c) x)" for x
    by (rule preserves_coarser[OF preserves_delete[OF azp], where h = sn_APs]) simp
  moreover have "preserves (\<lambda>w. sn_APs (V w) = R) (DeleteResource (cl_AuthConfigs c) x)" for x
    by (rule preserves_coarser[OF preserves_delete[OF ac], where h = sn_APs]) simp
  ultimately show ?thesis
    unfolding finalizeAP_def removeIstioAuthPolicy_def removeAuthSchemes_def ap_deleteNetworkResourceBackReference_def
    by (intro pres preserves_back_reference[OF assms, where h = sn_APs]
        preserves_pure[of "TargetedGatewayKeys c _ _"] TargetedGatewayKeys_pure[OF assms]) simp_all
qed

text \<open>
  What Reconcile does to a missing or deleted AuthPolicy. For a key without a policy, and for a
  deleted policy without the finalizer, it does nothing. For a deleted policy with the finalizer it
  runs the clean-up; an error of the clean-up is returned and the policy is left as it is. Only
  after the whole clean-up has succeeded is a policy written, and then only this one.
\<close>

theorem ap_Reconcile_deletion:
  assumes "cluster_api c V" "ap_Reconcile c req w = (r, w')"
  shows "(sn_APs (V w) req = None \<longrightarrow> r = Inr result_ok \<and> w' = w) \<and>
    (\<forall>ap. sn_APs (V w) req = Some ap \<longrightarrow> obj_DeletionTimestamp ap \<noteq> None \<longrightarrow>
       (if lib_ContainsFinalizer c (obj_Finalizers ap) authPolicyFinalizer then
          (\<forall>e w1. finalizeAP c ap w = (Inl e, w1) \<longrightarrow> \<not> is_panic e \<longrightarrow>
             r = Inr (result_error e) \<and> w' = w1) \<and>
          (sn_APs (V w') \<noteq> sn_APs (V w) \<longrightarrow>
             (\<exists>w1. finalizeAP c ap w = (Inr (), w1)) \<and>
             (\<forall>k. k \<noteq> req \<longrightarrow> sn_APs (V w') k = sn_APs (V w) k))
        else r = Inr result_ok \<and> w' = w))"
proof (rule store_Get_cases[OF cluster_store(2)[OF assms(1)], where w = w and k = req])
  fix e assume "(sn_APs \<circ> V) w req = None" "IsNotFound e" "api_Get (cl_APs c) req w = (Inl e, w)"
  with assms(2) show ?thesis by (simp add: ap_Reconcile_def)
next
  fix ap assume ap: "(sn_APs \<circ> V) w req = Some ap" and key: "ObjectKeyFromObject ap = req"
    and get: "api_Get (cl_APs c) req w = (Inr ap, w)"
  show ?thesis
  proof (cases "obj_DeletionTimestamp ap \<noteq> None \<and> lib_ContainsFinalizer c (obj_Finalizers ap) authPolicyFinalizer")
    case False
    with assms(2) ap get show ?thesis by (auto simp: ap_Reconcile_def)
  next
    case True
    have api: "kind_api V sn_APs (sn_APs_update (\<lambda>_. Map.empty)) (cl_APs c)"
      using assms(1) by (simp add: cluster_api_def)
    let ?ap = "ap\<lparr>obj_Finalizers := lib_RemoveFinalizer c (obj_Finalizers ap) authPolicyFinalizer\<rparr>"
    obtain f w1 where fin: "finalizeAP c ap w = (f, w1)" by fastforce
    have w1: "sn_APs (V w1) = sn_APs (V w)"
      using preservesD[OF preserves_APs_finalize[OF assms(1)] refl fin] .
    show ?thesis
    proof (cases f)
      case (Inl e)
      with True get fin[unfolded Inl] assms(2) have "w' = w1 \<and> (\<not> is_panic e \<longrightarrow> r = Inr (result_error e))"
        by (cases "is_panic e") (auto simp: ap_Reconcile_def)
      with True ap fin Inl w1 show ?thesis by auto
    next
      case (Inr u)
      obtain g w2 where upd: "api_Update (cl_APs c) ?ap w1 = (g, w2)" by fastforce
      have w': "w' = w2"
        using True get fin Inr upd assms(2)
        by (cases g; cases "\<exists>e. g = Inl e \<and> is_panic e")
          (auto simp: ap_Reconcile_def UpdateResource_def split: if_splits)
      have "sn_APs (V w2) k = sn_APs (V w) k" if "k \<noteq> req" for k
        using that kind_failure(2)[OF api, of ?ap w1 _ w2] kind_update(2)[OF api, of ?ap w1 _ w2] upd w1 key
        by (cases g) (auto simp: ObjectKeyFromObject_def)
      with True ap fin Inr w' show ?thesis by auto
    qed
  qed
qed

text \<open>A deleted policy whose AuthorizationPolicy is not there, or not there any more.\<close>

definition deleted_ap :: AuthPolicy where
  "deleted_ap = example_ap\<lparr>obj_DeletionTimestamp := Some ''now''\<rparr>"

lemma deleted_ap_sel [go_eval]:
  "ap_TargetRef deleted_ap = example_target" "obj_Namespace deleted_ap = ''default''"
  "ObjectKeyFromObject deleted_ap = ObjectKey ''default'' ''ap''"
  "obj_DeletionTimestamp deleted_ap = Some ''now''"
  "lib_ContainsFinalizer cluster_env (obj_Finalizers deleted_ap) authPolicyFinalizer"
  using example_ap_sel(3,4)
  by (simp_all add: deleted_ap_def ObjectKeyFromObject_def)
    (simp_all add: example_ap_def example_auth_policy_def example_scheme_def k8s_object.defs cluster_env_def)

theorem ap_Reconcile_deletion_witness:
  "\<exists>e. ap_Reconcile cluster_env (ObjectKey ''default'' ''ap'') (example_cluster\<lparr>cs_APs := [deleted_ap]\<rparr>) =
     (Inr (result_error e), example_cluster\<lparr>cs_APs := [deleted_ap]\<rparr>) \<and> IsNotFound e"
proof -
  let ?w = "example_cluster\<lparr>cs_APs := [deleted_ap]\<rparr>"
  have keys: "TargetedGatewayKeys cluster_env example_target ''default'' ?w = (Inr [ObjectKey ''istio'' ''gw''], ?w)"
    by (cases rule: FetchValidHTTPRoute_run[OF cluster_store(4)[OF cluster_env_api],
          of ?w "ObjectKey ''default'' ''toystore''"])
      (simp_all add: TargetedGatewayKeys_def go_eval list_view_def)
  have "cs_AuthorizationPolicies ?w = []" by (simp add: example_cluster_def empty_cluster_def)
  then have fin: "finalizeAP cluster_env deleted_ap ?w = (Inl (APIError NotFound ''not found''), ?w)"
    by (simp add: finalizeAP_def removeIstioAuthPolicy_def DeleteResource_def keys go_eval bindE_def attempt_def)
  have policy: "sn_APs (cluster_view ?w) (ObjectKey ''default'' ''ap'') = Some deleted_ap"
    by (simp add: cluster_view_def list_view_def deleted_ap_sel)
  obtain r w' where run: "ap_Reconcile cluster_env (ObjectKey ''default'' ''ap'') ?w = (r, w')" by fastforce
  have "r = Inr (result_error (APIError NotFound ''not found'')) \<and> w' = ?w"
    using ap_Reconcile_deletion[OF cluster_env_api run] policy fin by (simp add: deleted_ap_sel)
  with run show ?thesis by auto
qed

section \<open>When the status settles\<close>

text \<open>
  When the status of an AuthPolicy settles. Once the calculated status is stored, the next
  reconciliation with the same outcome (the same error of the spec; or none and an AuthConfig as
  ready as before) finds nothing to write. A policy without an error whose AuthConfig is missing
  gets no status: the not-found error is returned.
\<close>

theorem ap_status_settles:
  assumes "cluster_api c V" "sets_conditions c"
    and "ap_calculateStatus c ap specErr ready w = (Inr st, w1)"
  shows "case specErr of
      Some _ \<Rightarrow> ready \<longrightarrow> ap_reconcileStatus c (ap\<lparr>ap_Status := st\<rparr>) specErr w' = (Inr False, w')
    | None \<Rightarrow>
        (case sn_AuthConfigs (V w') (authConfigKey ap) of
           None \<Rightarrow> \<exists>e. IsNotFound e \<and> ap_reconcileStatus c ap None w' = (Inl e, w')
         | Some x \<Rightarrow> lib_AuthConfigReady c (ac_StatusReady x) = ready \<longrightarrow>
             ap_reconcileStatus c (ap\<lparr>ap_Status := st\<rparr>) None w' = (Inr False, w'))"
proof -
  let ?ap = "ap\<lparr>ap_Status := st\<rparr>"
  let ?cond = "ap_availableCondition (tr_Kind (ap_TargetRef ap)) specErr ready"
  have st: "apst_ObservedGeneration st = obj_Generation ap"
    "apst_Conditions st = lib_SetStatusCondition c w (Some (elems (apst_Conditions (ap_Status ap)))) ?cond"
    using assms(3) by (auto simp: ap_calculateStatus_def CopyConditions_elems Let_def askE_def bindE_def)
  have "lib_SetStatusCondition c w' (Some (elems (apst_Conditions st))) ?cond = apst_Conditions st"
    using assms(2) by (simp add: sets_conditions_def st(2))
  then have calc: "ap_calculateStatus c ?ap specErr ready w' = (Inr st, w')"
    using st(1) by (cases st) (simp add: ap_calculateStatus_def CopyConditions_elems Let_def askE_def bindE_def)
  have equal: "AuthPolicyStatus_Equals m st st" for m
    by (simp add: AuthPolicyStatus_Equals_def)
  have key: "authConfigKey ?ap = authConfigKey ap" by (simp add: authConfigKey_def ObjectKeyFromObject_def)
  show ?thesis
  proof (cases specErr)
    case (Some err)
    with calc st(1) equal show ?thesis
      by (auto simp: ap_reconcileStatus_def Let_def bindE_def)
  next
    case None
    show ?thesis
    proof (rule store_Get_cases[OF cluster_store(9)[OF assms(1)], where w = w' and k = "authConfigKey ap"])
      fix x assume "(sn_AuthConfigs \<circ> V) w' (authConfigKey ap) = Some x"
        "api_Get (cl_AuthConfigs c) (authConfigKey ap) w' = (Inr x, w')"
      with None calc st(1) equal key show ?thesis
        by (auto simp: ap_reconcileStatus_def GetResource_def Let_def bindE_def)
    next
      fix e assume "(sn_AuthConfigs \<circ> V) w' (authConfigKey ap) = None" "IsNotFound e"
        "api_Get (cl_AuthConfigs c) (authConfigKey ap) w' = (Inl e, w')"
      with None show ?thesis
        by (simp add: ap_reconcileStatus_def GetResource_def bindE_def)
    qed
  qed
qed

theorem ap_status_settles_witness:
  "\<exists>st. ap_calculateStatus cluster_env example_ap (Some nil_dereference) True example_cluster = (Inr st, example_cluster) \<and>
    ap_reconcileStatus cluster_env (example_ap\<lparr>ap_Status := st\<rparr>) (Some nil_dereference) guarded_cluster
      = (Inr False, guarded_cluster)"
proof -
  have "sets_conditions cluster_env"
    by (simp add: sets_conditions_def cluster_env_def set_condition_twice)
  moreover obtain st where
    "ap_calculateStatus cluster_env example_ap (Some nil_dereference) True example_cluster = (Inr st, example_cluster)"
    by (simp add: ap_calculateStatus_def Let_def bindE_def askE_def)
  ultimately show ?thesis
    using ap_status_settles[OF cluster_env_api, where ap = example_ap and specErr = "Some nil_dereference" and
        w' = guarded_cluster] by auto
qed

section \<open>The names of the objects of a policy\<close>

lemma split_at_first:
  fixes z :: char
  assumes "xs @ z # us = ys @ z # vs" "z \<notin> set xs" "z \<notin> set ys"
  shows "xs = ys \<and> us = vs"
proof -
  have "takeWhile (\<lambda>x. x \<noteq> z) (xs @ z # us) = xs" "takeWhile (\<lambda>x. x \<noteq> z) (ys @ z # vs) = ys"
    using assms(2,3) by (subst takeWhile_append2; auto)+
  with assms(1) have "xs = ys" by simp
  with assms(1) show ?thesis by simp
qed

text \<open>
  C38: Which objects two AuthPolicies share. The AuthConfigs of policies in namespaces without a
  hyphen have the same name only for the same policy. Each gateway of a policy has an
  AuthorizationPolicy of its own. But the name of an AuthorizationPolicy does not say where the
  target is: two policies for targets of the same kind and name, in different namespaces, share the
  AuthorizationPolicy of every gateway they have in common.
\<close>

theorem auth_object_names:
  shows "(CHR ''-'' \<notin> set (obj_Namespace a) \<longrightarrow> CHR ''-'' \<notin> set (obj_Namespace b) \<longrightarrow>
      authConfigKey a = authConfigKey b \<longrightarrow> ObjectKeyFromObject a = ObjectKeyFromObject b) \<and>
    (authorizationPolicyKey a k = authorizationPolicyKey a k' \<longleftrightarrow> k = k') \<and>
    (tr_Kind (ap_TargetRef a) = tr_Kind (ap_TargetRef b) \<longrightarrow> tr_Name (ap_TargetRef a) = tr_Name (ap_TargetRef b) \<longrightarrow>
      authorizationPolicyKey a k = authorizationPolicyKey b k)"
proof (intro conjI impI)
  assume "CHR ''-'' \<notin> set (obj_Namespace a)" "CHR ''-'' \<notin> set (obj_Namespace b)" "authConfigKey a = authConfigKey b"
  then show "ObjectKeyFromObject a = ObjectKeyFromObject b"
    using split_at_first[of "obj_Namespace a" "CHR ''-''" "obj_Name a" "obj_Namespace b" "obj_Name b"]
    by (simp add: authConfigKey_def authConfigName_def ObjectKeyFromObject_def)
next
  show "authorizationPolicyKey a k = authorizationPolicyKey a k' \<longleftrightarrow> k = k'" by (rule authorizationPolicyKey_eq)
next
  assume "tr_Kind (ap_TargetRef a) = tr_Kind (ap_TargetRef b)" "tr_Name (ap_TargetRef a) = tr_Name (ap_TargetRef b)"
  then show "authorizationPolicyKey a k = authorizationPolicyKey b k"
    by (simp add: authorizationPolicyKey_def targetObjectKind_def IsTargetRefHTTPRoute_def)
qed

text \<open>With a hyphen in the namespace, two policies can have the same AuthConfig.\<close>

lemma shared_auth_config:
  "authConfigName (ObjectKey ''a'' ''b-c'') = authConfigName (ObjectKey ''a-b'' ''c'')"
  by (simp add: authConfigName_def)

theorem auth_object_names_witness:
  "authorizationPolicyKey example_ap (ObjectKey ''istio'' ''gw'') =
     authorizationPolicyKey (example_ap\<lparr>obj_Namespace := ''elsewhere''\<rparr>) (ObjectKey ''istio'' ''gw'') \<and>
   authConfigKey example_ap \<noteq> authConfigKey (example_ap\<lparr>obj_Namespace := ''elsewhere''\<rparr>)"
  using auth_object_names[of example_ap "example_ap\<lparr>obj_Namespace := ''elsewhere''\<rparr>" "ObjectKey ''istio'' ''gw''"]
  by (auto simp: ObjectKeyFromObject_def)

end
