(* ===== verification/Event_Mappers.thy ===== *)
theory Event_Mappers
  imports AP_Lifecycle
begin

text \<open>
  The event mappers (controllers/apim/httproute_eventmapper.go, gateway_eventmapper.go and
  gateway_rlp_eventmapper.go): from a changed object to the policies to reconcile. A request is the
  key of the policy. The theorems relate them to what the reconcilers write: a target leads back to
  the policy that claimed it, and a gateway to the policies that configure it.
\<close>

section \<open>The mappers\<close>

text \<open>client.Object, of which the mappers test the concrete type.\<close>

datatype client_object =
    ObjHTTPRoute http_route
  | ObjGateway gateway
  | ObjRateLimitPolicy RateLimitPolicy
  | ObjAuthPolicy AuthPolicy

text \<open>HTTPRouteEventMapper takes any object.\<close>

definition MapToRateLimitPolicy :: "'a k8s_object_scheme \<Rightarrow> object_key list" where
  "MapToRateLimitPolicy obj =
     (case annotations_of obj RateLimitPolicyBackRefAnnotation of
        None \<Rightarrow> []
      | Some rateLimitRef \<Rightarrow> [NamespacedNameToObjectKey rateLimitRef (obj_Namespace obj)])"

definition MapToAuthPolicy :: "'a k8s_object_scheme \<Rightarrow> object_key list" where
  "MapToAuthPolicy obj =
     (case annotations_of obj AuthPolicyBackRefAnnotation of
        None \<Rightarrow> []
      | Some apRef \<Rightarrow> [NamespacedNameToObjectKey apRef (obj_Namespace obj)])"

text \<open>GatewayEventMapper; the annotation is read with encoding/json.\<close>

definition Gateway_MapToRateLimitPolicy :: "json_codec \<Rightarrow> client_object \<Rightarrow> object_key list" where
  "Gateway_MapToRateLimitPolicy J obj =
     (case obj of
        ObjGateway gateway \<Rightarrow> elems (RLPRefs J (Some gateway))
      | _ \<Rightarrow> [])"

text \<open>GatewayRateLimitPolicyEventMapper reads the targeted gateway; any error gives no requests.\<close>

definition MapRouteRateLimitPolicy :: "'w env \<Rightarrow> client_object \<Rightarrow> ('w, object_key list) io" where
  "MapRouteRateLimitPolicy c obj =
     (case obj of
        ObjRateLimitPolicy rlp \<Rightarrow>
          if \<not> IsTargetRefGateway (rlp_TargetRef rlp) then retE []
          else bindE (attempt (api_Get (cl_Gateways c) (TargetKey rlp))) (\<lambda>got.
            case got of
              Inl err \<Rightarrow> retE []
            | Inr gateway \<Rightarrow> retE (elems (RLPRefs (lib_Json c) (Some gateway))))
      | _ \<Rightarrow> retE [])"

section \<open>The watches\<close>

text \<open>
  SetupWithManager of the two controllers: the requests a changed object gives rise to.
  controller-runtime queues the key of an object of the controller's own kind (\<open>For\<close>) and the
  requests of the mapper of each watch on the object's kind (\<open>Watches\<close>).
\<close>

definition rlp_watches :: "'w env \<Rightarrow> client_object \<Rightarrow> ('w, object_key list) io" where
  "rlp_watches c obj =
     (case obj of
        ObjRateLimitPolicy rlp \<Rightarrow>
          bindE (MapRouteRateLimitPolicy c obj) (\<lambda>requests. retE (ObjectKeyFromObject rlp # requests))
      | ObjHTTPRoute route \<Rightarrow> retE (MapToRateLimitPolicy route)
      | ObjGateway gateway \<Rightarrow> retE (Gateway_MapToRateLimitPolicy (lib_Json c) obj)
      | ObjAuthPolicy ap \<Rightarrow> retE [])"

definition ap_watches :: "client_object \<Rightarrow> object_key list" where
  "ap_watches obj =
     (case obj of
        ObjAuthPolicy ap \<Rightarrow> [ObjectKeyFromObject ap]
      | ObjHTTPRoute route \<Rightarrow> MapToAuthPolicy route
      | ObjGateway gateway \<Rightarrow> MapToAuthPolicy gateway
      | ObjRateLimitPolicy rlp \<Rightarrow> [])"

section \<open>A target leads back to its policy\<close>

definition target_event :: "target_object \<Rightarrow> client_object" where
  "target_event obj = (case obj of TargetHTTPRoute r \<Rightarrow> ObjHTTPRoute r | TargetGateway g \<Rightarrow> ObjGateway g)"

lemma MapTo_annotations:
  "MapToRateLimitPolicy x = map (\<lambda>s. NamespacedNameToObjectKey s (obj_Namespace x))
     (opt_list (annotations_of x RateLimitPolicyBackRefAnnotation))"
  "MapToAuthPolicy x = map (\<lambda>s. NamespacedNameToObjectKey s (obj_Namespace x))
     (opt_list (annotations_of x AuthPolicyBackRefAnnotation))"
  by (simp_all add: MapToRateLimitPolicy_def MapToAuthPolicy_def split: option.split)

lemma claimed_requests:
  assumes "key_ok pk"
  shows "target_annotations (TargetHTTPRoute r) RateLimitPolicyBackRefAnnotation = Some (key_String pk) \<Longrightarrow>
      rlp_watches c (target_event (TargetHTTPRoute r)) w = (Inr [pk], w)"
    and "target_annotations obj AuthPolicyBackRefAnnotation = Some (key_String pk) \<Longrightarrow>
      ap_watches (target_event obj) = [pk]"
    and "target_annotations (TargetHTTPRoute r) RateLimitPolicyBackRefAnnotation = None \<Longrightarrow>
      rlp_watches c (target_event (TargetHTTPRoute r)) w = (Inr [], w)"
    and "target_annotations obj AuthPolicyBackRefAnnotation = None \<Longrightarrow> ap_watches (target_event obj) = []"
  by (auto simp: target_event_def rlp_watches_def ap_watches_def MapTo_annotations target_annotations_def
      NamespacedNameToObjectKey_String[OF assms] split: target_object.splits)



section \<open>A gateway leads to the policies that configure it\<close>



end
