(* ===== verification/Footprint.thy ===== *)
theory Footprint
  imports Event_Mappers
begin

text \<open>
  What the two reconcilers may write, whatever the outcome of a run: the footprint of a
  reconciliation of an AuthPolicy and of one of a RateLimitPolicy. A run that stops half-way with an
  error, a conflict or a panic has the same footprint.
\<close>

section \<open>Changing one annotation, again and again\<close>

lemma reannotated_trans:
  assumes "reannotated ann x y" "reannotated ann y z"
  shows "reannotated ann x z"
  using assms by (cases x; cases y; cases z) (auto simp: reannotated_def)

lemma rel_option_reannotated_trans:
  "rel_option (reannotated ann) x y \<Longrightarrow> rel_option (reannotated ann) y z \<Longrightarrow> rel_option (reannotated ann) x z"
  by (auto elim!: option.rel_cases intro: reannotated_trans)

lemma retargeted_trans:
  assumes "retargeted ann s t" "retargeted ann t u"
  shows "retargeted ann s u"
  using assms by (auto simp: retargeted_def intro: rel_option_reannotated_trans)

section \<open>A reconciliation of an AuthPolicy\<close>

text \<open>The cluster \<open>s\<close> has become \<open>t\<close>, AuthPolicies and their objects aside.\<close>

definition ap_footprint :: "snapshot \<Rightarrow> snapshot \<Rightarrow> bool" where
  "ap_footprint s t \<longleftrightarrow> retargeted AuthPolicyBackRefAnnotation s
     (t\<lparr>sn_APs := sn_APs s, sn_AuthorizationPolicies := sn_AuthorizationPolicies s, sn_AuthConfigs := sn_AuthConfigs s\<rparr>)"

lemma ap_footprint_refl [simp]: "ap_footprint s s"
  by (simp add: ap_footprint_def)

lemma ap_footprint_retargeted:
  assumes "ap_footprint s t" "retargeted AuthPolicyBackRefAnnotation t u"
  shows "ap_footprint s u"
proof -
  have "retargeted AuthPolicyBackRefAnnotation
      (t\<lparr>sn_APs := sn_APs s, sn_AuthorizationPolicies := sn_AuthorizationPolicies s, sn_AuthConfigs := sn_AuthConfigs s\<rparr>)
      (u\<lparr>sn_APs := sn_APs s, sn_AuthorizationPolicies := sn_AuthorizationPolicies s, sn_AuthConfigs := sn_AuthConfigs s\<rparr>)"
    using assms(2) by (cases t; cases u) (simp add: retargeted_def)
  with assms(1) show ?thesis unfolding ap_footprint_def by (rule retargeted_trans)
qed

text \<open>Writes of the three kinds of AuthPolicies stay in the footprint.\<close>

lemma ap_footprint_kinds:
  assumes "cluster_api c V"
  shows "preserves (\<lambda>w. ap_footprint s (V w)) (ReconcileResource (cl_AuthorizationPolicies c) d f)"
    and "preserves (\<lambda>w. ap_footprint s (V w)) (ReconcileResource (cl_AuthConfigs c) e g)"
    and "preserves (\<lambda>w. ap_footprint s (V w)) (DeleteResource (cl_AuthorizationPolicies c) d)"
    and "preserves (\<lambda>w. ap_footprint s (V w)) (DeleteResource (cl_AuthConfigs c) e)"
    and "preserves (\<lambda>w. ap_footprint s (V w)) (UpdateResource (cl_APs c) ap)"
    and "preserves (\<lambda>w. ap_footprint s (V w)) (api_StatusUpdate (cl_APs c) ap)"
proof -
  have azp: "kind_api V sn_AuthorizationPolicies (sn_AuthorizationPolicies_update (\<lambda>_. Map.empty)) (cl_AuthorizationPolicies c)"
    and ac: "kind_api V sn_AuthConfigs (sn_AuthConfigs_update (\<lambda>_. Map.empty)) (cl_AuthConfigs c)"
    and aps: "kind_api V sn_APs (sn_APs_update (\<lambda>_. Map.empty)) (cl_APs c)"
    using assms by (simp_all add: cluster_api_def)
  have apf: "frame (sn_APs_update (\<lambda>_. Map.empty) \<circ> V) (cl_APs c)"
    and azf: "frame (sn_AuthorizationPolicies_update (\<lambda>_. Map.empty) \<circ> V) (cl_AuthorizationPolicies c)"
    and acf: "frame (sn_AuthConfigs_update (\<lambda>_. Map.empty) \<circ> V) (cl_AuthConfigs c)"
    using aps azp ac by (simp_all add: kind_api_def)
  have keep: "(sn_APs_update (\<lambda>_. Map.empty) \<circ> V) w' = (sn_APs_update (\<lambda>_. Map.empty) \<circ> V) w \<Longrightarrow>
      ap_footprint s (V w) \<Longrightarrow> ap_footprint s (V w')"
    "(sn_AuthorizationPolicies_update (\<lambda>_. Map.empty) \<circ> V) w' = (sn_AuthorizationPolicies_update (\<lambda>_. Map.empty) \<circ> V) w \<Longrightarrow>
      ap_footprint s (V w) \<Longrightarrow> ap_footprint s (V w')"
    "(sn_AuthConfigs_update (\<lambda>_. Map.empty) \<circ> V) w' = (sn_AuthConfigs_update (\<lambda>_. Map.empty) \<circ> V) w \<Longrightarrow>
      ap_footprint s (V w) \<Longrightarrow> ap_footprint s (V w')" for w w'
    by (cases "V w"; cases "V w'"; simp add: ap_footprint_def)+
  note azk = frame_preserves[OF azf keep(2)] and ack = frame_preserves[OF acf keep(3)]
  show "preserves (\<lambda>w. ap_footprint s (V w)) (UpdateResource (cl_APs c) ap)"
    "preserves (\<lambda>w. ap_footprint s (V w)) (api_StatusUpdate (cl_APs c) ap)"
    unfolding UpdateResource_def by (rule frame_preserves(3,5)[OF apf keep(1)], assumption+)+
  show "preserves (\<lambda>w. ap_footprint s (V w)) (DeleteResource (cl_AuthorizationPolicies c) d)"
    "preserves (\<lambda>w. ap_footprint s (V w)) (DeleteResource (cl_AuthConfigs c) e)"
    unfolding DeleteResource_def by (rule azk(4) ack(4), assumption+)+
  show "preserves (\<lambda>w. ap_footprint s (V w)) (ReconcileResource (cl_AuthorizationPolicies c) d f)"
    by (rule preserves_ReconcileResource; rule azk; assumption)
  show "preserves (\<lambda>w. ap_footprint s (V w)) (ReconcileResource (cl_AuthConfigs c) e g)"
    by (rule preserves_ReconcileResource; rule ack; assumption)
qed

lemma ap_footprint_back_reference:
  assumes "cluster_api c V"
  shows "preserves (\<lambda>w. ap_footprint s (V w)) (ReconcileTargetBackReference c pk tr ns AuthPolicyBackRefAnnotation)"
    and "preserves (\<lambda>w. ap_footprint s (V w)) (DeleteTargetBackReference c pk tr ns AuthPolicyBackRefAnnotation)"
  using back_reference_retargeted[OF assms] ap_footprint_retargeted by (blast intro: preservesI)+

lemma preserves_case_target:
  "(\<And>r. preserves P (f r)) \<Longrightarrow> (\<And>g. preserves P (h g)) \<Longrightarrow>
   preserves P (case obj of TargetHTTPRoute r \<Rightarrow> f r | TargetGateway g \<Rightarrow> h g)"
  by (cases obj) simp_all

lemma ap_footprint_steps:
  assumes "cluster_api c V"
  shows "preserves (\<lambda>w. ap_footprint s (V w)) (ap_reconcileSpec c ap)"
    and "preserves (\<lambda>w. ap_footprint s (V w)) (ap_reconcileStatus c ap specErr)"
    and "preserves (\<lambda>w. ap_footprint s (V w)) (finalizeAP c ap)"
proof -
  note reads = preserves_pure[of "TargetHostnames c _ _"] TargetHostnames_pure[OF assms]
    preserves_pure[of "TargetedGatewayKeys c _ _"] TargetedGatewayKeys_pure[OF assms]
    preserves_pure[of "FetchValidTargetRef c _ _"] FetchValidTargetRef_pure[OF assms]
    preserves_store_Get[OF cluster_store(9)[OF assms]]
  note writes = ap_footprint_kinds[OF assms] ap_footprint_back_reference[OF assms]
  have "preserves (\<lambda>w. ap_footprint s (V w)) (enforceHierarchicalConstraints c ap)"
    unfolding enforceHierarchicalConstraints_def Let_def by (intro pres reads)
  moreover have "preserves (\<lambda>w. ap_footprint s (V w)) (reconcileAuthRules c ap)"
    unfolding reconcileAuthRules_def to_rules_def unless_exists_def Let_def
    by (intro pres preserves_case_target reads writes)
  moreover have "preserves (\<lambda>w. ap_footprint s (V w)) (reconcileAuthSchemes c ap)"
    unfolding reconcileAuthSchemes_def unless_exists_def by (intro pres writes)
  ultimately show "preserves (\<lambda>w. ap_footprint s (V w)) (ap_reconcileSpec c ap)"
    unfolding ap_reconcileSpec_def reconcileNetworkResourceBackReference_def by (intro pres writes)
  show "preserves (\<lambda>w. ap_footprint s (V w)) (ap_reconcileStatus c ap specErr)"
    unfolding ap_reconcileStatus_def ap_calculateStatus_def GetResource_def Let_def by (intro pres reads writes)
  show "preserves (\<lambda>w. ap_footprint s (V w)) (finalizeAP c ap)"
    unfolding finalizeAP_def removeIstioAuthPolicy_def removeAuthSchemes_def ap_deleteNetworkResourceBackReference_def
    by (intro pres reads writes)
qed

lemma ap_Reconcile_footprint:
  assumes "cluster_api c V" "ap_Reconcile c req w = (r, w')"
  shows "ap_footprint (V w) (V w')"
proof -
  note steps = ap_footprint_steps[OF assms(1)] ap_footprint_kinds(5)[OF assms(1)]
    preserves_store_Get[OF cluster_store(2)[OF assms(1)]]
  have live: "preserves (\<lambda>w'. ap_footprint (V w) (V w')) (ap_reconcile_live c ap)" for ap
    unfolding ap_reconcile_live_def Let_def by (intro pres steps)
  have "preserves (\<lambda>w'. ap_footprint (V w) (V w')) (ap_Reconcile c req)"
    unfolding ap_Reconcile_def Let_def by (intro pres steps live)
  from preservesD[OF this _ assms(2)] show ?thesis by simp
qed

section \<open>A reconciliation of a RateLimitPolicy\<close>

text \<open>It writes no AuthPolicy and no object of one.\<close>

definition auth_side :: "snapshot \<Rightarrow> (object_key \<rightharpoonup> AuthPolicy) \<times> (object_key \<rightharpoonup> authorization_policy) \<times> (object_key \<rightharpoonup> auth_config)" where
  "auth_side s = (sn_APs s, sn_AuthorizationPolicies s, sn_AuthConfigs s)"

lemma auth_side_forget [simp]:
  "auth_side (s\<lparr>sn_RLPs := a\<rparr>) = auth_side s" "auth_side (s\<lparr>sn_Gateways := g\<rparr>) = auth_side s"
  "auth_side (s\<lparr>sn_HTTPRoutes := h\<rparr>) = auth_side s" "auth_side (s\<lparr>sn_Limitadors := l\<rparr>) = auth_side s"
  "auth_side (s\<lparr>sn_WasmPlugins := p\<rparr>) = auth_side s" "auth_side (s\<lparr>sn_EnvoyFilters := e\<rparr>) = auth_side s"
  by (simp_all add: auth_side_def)

lemma auth_side_steps:
  assumes "cluster_api c V"
  shows "preserves (\<lambda>w. auth_side (V w) = R) (reconcileLimits c rlp diff)"
    and "preserves (\<lambda>w. auth_side (V w) = R) (reconcileRateLimitingClusterEnvoyFilter c rlp diff)"
    and "preserves (\<lambda>w. auth_side (V w) = R) (reconcileWASMPluginConf c rlp diff)"
    and "preserves (\<lambda>w. auth_side (V w) = R) (reconcileGatewayRLPReferences c rlp diff)"
    and "preserves (\<lambda>w. auth_side (V w) = R) (ReconcileTargetBackReference c pk tr ns ann)"
    and "preserves (\<lambda>w. auth_side (V w) = R) (DeleteTargetBackReference c pk tr ns ann)"
    and "preserves (\<lambda>w. auth_side (V w) = R) (rlp_reconcileStatus c rlp specErr)"
    and "preserves (\<lambda>w. auth_side (V w) = R) (UpdateResource (cl_RLPs c) rlp)"
  subgoal by (rule preserves_coarser[OF preserves_Limits[OF assms], where h = auth_side]) simp
  subgoal by (rule preserves_coarser[OF preserves_EnvoyFilter[OF assms], where h = auth_side]) simp
  subgoal by (rule preserves_coarser[OF preserves_WASMPluginConf[OF assms], where h = auth_side]) simp
  subgoal by (rule preserves_coarser[OF preserves_References[OF assms], where h = auth_side]) simp
  subgoal by (rule preserves_back_reference(1)[OF assms, where h = auth_side]) simp_all
  subgoal by (rule preserves_back_reference(2)[OF assms, where h = auth_side]) simp_all
  subgoal by (rule preserves_coarser[OF preserves_reconcileStatus[OF assms], where h = auth_side]) simp
  subgoal
  proof -
    have "kind_api V sn_RLPs (sn_RLPs_update (\<lambda>_. Map.empty)) (cl_RLPs c)"
      using assms by (simp add: cluster_api_def)
    then show ?thesis
      unfolding UpdateResource_def
      by (rule preserves_coarser[OF preserves_kind(2), where h = auth_side]) simp
  qed
  done

lemma computeGatewayDiffs_pure:
  assumes "cluster_api c V"
  shows "preserves P (computeGatewayDiffs c rlp)"
proof -
  have "snd (cl_ListGateways c w) = w" for w
  proof -
    have "lists_gateways c V" using assms by (simp add: cluster_api_def)
    then show ?thesis
      unfolding lists_gateways_def by (elim allE[of _ w]) (auto split: prod.splits sum.splits)
  qed
  then show ?thesis
    unfolding computeGatewayDiffs_def
    by (intro pres preserves_pure[of "TargetedGatewayKeys c _ _"] preserves_pure[of "cl_ListGateways c"]
        TargetedGatewayKeys_pure[OF assms])
qed

lemma rlp_Reconcile_auth_side:
  assumes "cluster_api c V" "rlp_Reconcile c req w = (r, w')"
  shows "auth_side (V w') = auth_side (V w)"
proof -
  note steps = auth_side_steps[OF assms(1)] preserves_store_Get[OF cluster_store(1)[OF assms(1)]]
    computeGatewayDiffs_pure[OF assms(1)]
    preserves_pure[of "TargetHostnames c _ _"] TargetHostnames_pure[OF assms(1)]
    preserves_pure[of "computeFinalizeGatewayDiff c _"] computeFinalizeGatewayDiff_pure[OF assms(1)]
  have spec: "preserves (\<lambda>w'. auth_side (V w') = R) (reconcileSpec c rlp)" for rlp R
    unfolding reconcileSpec_def validateRuleHosts_def reconcileDirectBackReference_def reconcileGatewayDiffs_def Let_def
    by (intro pres steps)
  have live: "preserves (\<lambda>w'. auth_side (V w') = R) (rlp_reconcile_live c rlp)" for rlp R
    unfolding rlp_reconcile_live_def Let_def by (intro pres steps spec)
  have clean: "preserves (\<lambda>w'. auth_side (V w') = R) (finalizeRLP c rlp)" for rlp R
    unfolding finalizeRLP_def rlp_deleteNetworkResourceBackReference_def by (intro pres steps)
  have "preserves (\<lambda>w'. auth_side (V w') = auth_side (V w)) (rlp_Reconcile c req)"
    unfolding rlp_Reconcile_def Let_def by (intro pres steps live clean)
  from preservesD[OF this _ assms(2)] show ?thesis by simp
qed

text \<open>What the footprint of an AuthPolicy leaves of the gateways and routes.\<close>

lemma ap_footprint_sel:
  assumes "ap_footprint s t"
  shows "sn_RLPs t = sn_RLPs s" "sn_Limitadors t = sn_Limitadors s" "sn_WasmPlugins t = sn_WasmPlugins s"
    "sn_EnvoyFilters t = sn_EnvoyFilters s"
    "rel_option (reannotated AuthPolicyBackRefAnnotation) (sn_Gateways s k) (sn_Gateways t k)"
    "rel_option (reannotated AuthPolicyBackRefAnnotation) (sn_HTTPRoutes s k) (sn_HTTPRoutes t k)"
  using assms by (cases s; cases t; simp add: ap_footprint_def retargeted_def)+

lemma auth_annotation_neq:
  "AuthPolicyBackRefAnnotation \<noteq> KuadrantRateLimitPolicyRefAnnotation"
  "RateLimitPolicyBackRefAnnotation \<noteq> AuthPolicyBackRefAnnotation"
  by (simp_all add: AuthPolicyBackRefAnnotation_def KuadrantRateLimitPolicyRefAnnotation_def
      RateLimitPolicyBackRefAnnotation_def)

section \<open>A reconciliation that deletes a RateLimitPolicy\<close>

lemma Reconcile_deleted_steps:
  assumes "cluster_api c V" "sn_RLPs (V w) req = Some rlp" "obj_DeletionTimestamp rlp \<noteq> None"
    and "lib_ContainsFinalizer c (obj_Finalizers rlp) rateLimitPolicyFinalizer"
    and "rlp_Reconcile c req w = (Inr result_ok, w')"
  obtains w1 where "ObjectKeyFromObject rlp = req" "finalizeRLP c rlp w = (Inr (), w1)"
    "V w'\<lparr>sn_RLPs := Map.empty\<rparr> = V w1\<lparr>sn_RLPs := Map.empty\<rparr>"
proof -
  have get: "ObjectKeyFromObject rlp = req" "api_Get (cl_RLPs c) req w = (Inr rlp, w)"
    using store_Get_Some[OF cluster_store(1)[OF assms(1)], where w = w and k = req and obj = rlp] assms(2) by simp_all
  have api: "kind_api V sn_RLPs (sn_RLPs_update (\<lambda>_. Map.empty)) (cl_RLPs c)"
    using assms(1) by (simp add: cluster_api_def)
  let ?rlp = "rlp\<lparr>obj_Finalizers := lib_RemoveFinalizer c (obj_Finalizers rlp) rateLimitPolicyFinalizer\<rparr>"
  obtain f w1 where fin: "finalizeRLP c rlp w = (f, w1)" by fastforce
  show thesis
  proof (cases f)
    case (Inl e)
    with assms(3-5) get(2) fin have False
      by (cases "is_panic e") (auto simp: rlp_Reconcile_def result_error_def result_ok_def)
    then show thesis ..
  next
    case (Inr u)
    obtain g w2 where upd: "api_Update (cl_RLPs c) ?rlp w1 = (g, w2)" by fastforce
    have "w' = w2"
      using assms(3-5) get(2) fin Inr upd
      by (cases g; cases "\<exists>e. g = Inl e \<and> is_panic e")
        (auto simp: rlp_Reconcile_def UpdateResource_def split: if_splits)
    moreover have "V w2\<lparr>sn_RLPs := Map.empty\<rparr> = V w1\<lparr>sn_RLPs := Map.empty\<rparr>"
      using kind_failure(1)[OF api, of ?rlp w1 _ w2] kind_update(3)[OF api, of ?rlp w1 _ w2] upd by (cases g) auto
    ultimately show thesis using that get(1) fin Inr by simp
  qed
qed

section \<open>The finalizer first\<close>

text \<open>What becomes of an update with the finalizer, of a policy that is in the cluster.\<close>

lemma finalizer_update:
  assumes "kind_api V get forget A" "get (V w) (ObjectKeyFromObject p) = Some p"
    and "ObjectKeyFromObject p' = ObjectKeyFromObject p"
  obtains (failed) e w1 where "attempt (UpdateResource A p') w = (if is_panic e then Inl e else Inr (Inl e), w1)"
      "\<not> IsNotFound e" "forget (V w1) = forget (V w)" "get (V w1) = get (V w)"
    | (stored) p1 w1 where "attempt (UpdateResource A p') w = (Inr (Inr p1), w1)" "content_eq p1 p'"
      "get (V w1) = (get (V w))(ObjectKeyFromObject p \<mapsto> p1)" "forget (V w1) = forget (V w)"
proof (cases "api_Update A p' w")
  case (Pair r w1)
  show thesis
  proof (cases r)
    case (Inl e)
    have store: "store_api A (get \<circ> V) content_eq" using assms(1) by (simp add: kind_api_def)
    have "\<not> IsNotFound e"
    proof
      assume "IsNotFound e"
      with store_failure(4)[OF store, of p' w e w1] Pair Inl assms(2,3) show False by simp
    qed
    with Pair Inl kind_failure[OF assms(1), of p' w e w1] show thesis
      by (intro failed[of e w1]) (simp_all add: UpdateResource_def attempt_def)
  next
    case (Inr p1)
    with Pair kind_update[OF assms(1), of p' w p1 w1] assms(3) show thesis
      by (intro stored[of p1 w1]) (simp_all add: UpdateResource_def attempt_def)
  qed
qed

text \<open>
  The finalizer comes first. When a reconciler meets a live policy without its finalizer,
  either the update that adds the finalizer failed, and then the cluster is as it was and the
  request is queued again with the error (or the update panicked), or the whole rest of the run
  starts from a cluster in which the stored policy has the finalizer and that is otherwise as it
  was. So a policy leaves traces in the cluster only once its deletion will be held back for
  the clean-up. This holds for both kinds of policy.
\<close>

theorem finalizer_first:
  assumes "cluster_api c V"
  shows "(\<forall>rlp r w'. sn_RLPs (V w) req = Some rlp \<longrightarrow> obj_DeletionTimestamp rlp = None \<longrightarrow>
      \<not> lib_ContainsFinalizer c (obj_Finalizers rlp) rateLimitPolicyFinalizer \<longrightarrow> rlp_Reconcile c req w = (r, w') \<longrightarrow>
      V w' = V w \<and> (\<exists>e. r = Inl e \<or> r = Inr \<lparr>res_Requeue = True, res_Err = Some e\<rparr>) \<or>
      (\<exists>rlp1 w1. content_eq rlp1 (rlp\<lparr>obj_Finalizers := lib_AddFinalizer c (obj_Finalizers rlp) rateLimitPolicyFinalizer\<rparr>) \<and>
         V w1 = V w\<lparr>sn_RLPs := (sn_RLPs (V w))(req \<mapsto> rlp1)\<rparr> \<and> rlp_reconcile_live c rlp1 w1 = (r, w'))) \<and>
    (\<forall>ap r w'. sn_APs (V w) req = Some ap \<longrightarrow> obj_DeletionTimestamp ap = None \<longrightarrow>
      \<not> lib_ContainsFinalizer c (obj_Finalizers ap) authPolicyFinalizer \<longrightarrow> ap_Reconcile c req w = (r, w') \<longrightarrow>
      V w' = V w \<and> (\<exists>e. r = Inl e \<or> r = Inr \<lparr>res_Requeue = True, res_Err = Some e\<rparr>) \<or>
      (\<exists>ap1 w1. content_eq ap1 (ap\<lparr>obj_Finalizers := lib_AddFinalizer c (obj_Finalizers ap) authPolicyFinalizer\<rparr>) \<and>
         V w1 = V w\<lparr>sn_APs := (sn_APs (V w))(req \<mapsto> ap1)\<rparr> \<and> ap_reconcile_live c ap1 w1 = (r, w')))"
    (is "(\<forall>rlp r w'. ?A rlp \<longrightarrow> ?B rlp \<longrightarrow> ?C rlp \<longrightarrow> ?R r w' \<longrightarrow> ?P rlp r w') \<and>
      (\<forall>ap r w'. ?A' ap \<longrightarrow> ?B' ap \<longrightarrow> ?C' ap \<longrightarrow> ?R' r w' \<longrightarrow> ?P' ap r w')")
proof (intro conjI allI impI)
  fix rlp r w' assume A: "?A rlp" "?B rlp" "?C rlp" "?R r w'"
  have api: "kind_api V sn_RLPs (sn_RLPs_update (\<lambda>_. Map.empty)) (cl_RLPs c)"
    using assms by (simp add: cluster_api_def)
  from A(1) store_Get_Some[OF cluster_store(1)[OF assms], where w = w and k = req and obj = rlp]
  have get: "ObjectKeyFromObject rlp = req" "api_Get (cl_RLPs c) req w = (Inr rlp, w)" by simp_all
  let ?p = "rlp\<lparr>obj_Finalizers := lib_AddFinalizer c (obj_Finalizers rlp) rateLimitPolicyFinalizer\<rparr>"
  note run = A(4)[unfolded rlp_Reconcile_def] get(2) A(2,3)
  have keys: "sn_RLPs (V w) (ObjectKeyFromObject rlp) = Some rlp" "ObjectKeyFromObject ?p = ObjectKeyFromObject rlp"
    using A(1) get(1) by (simp_all add: ObjectKeyFromObject_def)
  show "?P rlp r w'"
    using api keys
  proof (cases rule: finalizer_update)
    case (failed e w1)
    then have "V w1 = V w" by (blast intro: snapshot_eqI)
    with failed run show ?thesis by (auto simp: bindE_def Let_def split: if_splits)
  next
    case (stored rlp1 w1)
    have "V w1 = V w\<lparr>sn_RLPs := (sn_RLPs (V w))(req \<mapsto> rlp1)\<rparr>"
      by (rule snapshot_eqI(1)) (simp_all add: stored(3,4) get(1))
    moreover have "rlp_reconcile_live c rlp1 w1 = (r, w')"
      using run stored(1) by (simp add: bindE_def Let_def)
    ultimately show ?thesis using stored(2) by blast
  qed
next
  fix ap r w' assume A: "?A' ap" "?B' ap" "?C' ap" "?R' r w'"
  have api: "kind_api V sn_APs (sn_APs_update (\<lambda>_. Map.empty)) (cl_APs c)"
    using assms by (simp add: cluster_api_def)
  from A(1) store_Get_Some[OF cluster_store(2)[OF assms], where w = w and k = req and obj = ap]
  have get: "ObjectKeyFromObject ap = req" "api_Get (cl_APs c) req w = (Inr ap, w)" by simp_all
  let ?p = "ap\<lparr>obj_Finalizers := lib_AddFinalizer c (obj_Finalizers ap) authPolicyFinalizer\<rparr>"
  note run = A(4)[unfolded ap_Reconcile_def] get(2) A(2,3)
  have keys: "sn_APs (V w) (ObjectKeyFromObject ap) = Some ap" "ObjectKeyFromObject ?p = ObjectKeyFromObject ap"
    using A(1) get(1) by (simp_all add: ObjectKeyFromObject_def)
  show "?P' ap r w'"
    using api keys
  proof (cases rule: finalizer_update)
    case (failed e w1)
    then have "V w1 = V w" by (blast intro: snapshot_eqI)
    with failed run show ?thesis by (auto simp: bindE_def Let_def split: if_splits)
  next
    case (stored ap1 w1)
    have "V w1 = V w\<lparr>sn_APs := (sn_APs (V w))(req \<mapsto> ap1)\<rparr>"
      by (rule snapshot_eqI(2)) (simp_all add: stored(3,4) get(1))
    moreover have "ap_reconcile_live c ap1 w1 = (r, w')"
      using run stored(1) by (simp add: bindE_def Let_def)
    ultimately show ?thesis using stored(2) by blast
  qed
qed

text \<open>A new policy, for a kind of target that is not supported.\<close>

definition new_policy :: RateLimitPolicy where
  "new_policy = example_policy ''default'' ''rlp'' (example_target\<lparr>tr_Kind := ''Service''\<rparr>) []\<lparr>obj_Finalizers := []\<rparr>"

definition new_cluster :: cluster where
  "new_cluster = example_cluster\<lparr>cs_RLPs := [new_policy]\<rparr>"

lemma new_policy_sel [go_eval]:
  "ObjectKeyFromObject new_policy = ObjectKey ''default'' ''rlp''" "obj_DeletionTimestamp new_policy = None"
  "obj_Finalizers new_policy = []"
  "rlp_TargetRef new_policy = example_target\<lparr>tr_Kind := ''Service''\<rparr>"
  by (simp_all add: new_policy_def example_policy_def new_object_def k8s_object.defs ObjectKeyFromObject_def)

theorem finalizer_first_witness:
  "\<exists>rlp1 w1 r w'. obj_Finalizers rlp1 = [rateLimitPolicyFinalizer] \<and>
     sn_RLPs (cluster_view w1) (ObjectKey ''default'' ''rlp'') = Some rlp1 \<and>
     rlp_Reconcile cluster_env (ObjectKey ''default'' ''rlp'') new_cluster = (r, w') \<and>
     rlp_reconcile_live cluster_env rlp1 w1 = (r, w')"
proof -
  let ?p = "new_policy\<lparr>obj_Finalizers := [rateLimitPolicyFinalizer]\<rparr>"
  let ?w = "new_cluster\<lparr>cs_RLPs := [?p]\<rparr>"
  have policy: "sn_RLPs (cluster_view new_cluster) (ObjectKey ''default'' ''rlp'') = Some new_policy"
    by (simp add: go_eval list_view_def new_cluster_def)
  have fin: "\<not> lib_ContainsFinalizer cluster_env (obj_Finalizers new_policy) rateLimitPolicyFinalizer"
    by (simp add: go_eval cluster_env_def)
  let ?e = "Errorf ''invalid targetRef.Kind %s. The only supported kind types are HTTPRoute and Gateway'' [''Service'']"
  have spec: "attempt (reconcileSpec cluster_env ?p) v = (Inr (Inl ?e), v)" for v
    by (simp add: reconcileSpec_def attempt_def Validate_def new_policy_sel example_target_def gateway_api_group_def)
  have "\<not> IsTargetRefHTTPRoute (rlp_TargetRef ?p)"
    by (simp add: new_policy_sel IsTargetRefHTTPRoute_def)
  then have "\<exists>b w2. attempt (rlp_reconcileStatus cluster_env ?p se) v = (Inr b, w2)" for se v
    by (auto simp: rlp_reconcileStatus_def rlp_calculateStatus_def Let_def bindE_def askE_def attempt_def
        cluster_env_sel list_api_def split: option.splits)
  then obtain b w' where status: "attempt (rlp_reconcileStatus cluster_env ?p (Some ?e)) ?w = (Inr b, w')"
    by blast
  have live: "rlp_reconcile_live cluster_env ?p ?w = (Inr (result_error ?e), w')"
    by (simp add: rlp_reconcile_live_def bindE_def Let_def spec status)
  have add: "lib_AddFinalizer cluster_env (obj_Finalizers new_policy) rateLimitPolicyFinalizer = [rateLimitPolicyFinalizer]"
    by (simp add: cluster_env_def new_policy_sel)
  have upd: "attempt (UpdateResource (cl_RLPs cluster_env) ?p) new_cluster = (Inr (Inr ?p), ?w)"
    using new_policy_sel(1)
    by (simp add: UpdateResource_def attempt_def go_eval new_cluster_def list_store_def ObjectKeyFromObject_def)
  have get: "attempt (api_Get (cl_RLPs cluster_env) (ObjectKey ''default'' ''rlp'')) new_cluster = (Inr (Inr new_policy), new_cluster)"
    by (simp add: attempt_def go_eval new_cluster_def)
  have run: "rlp_Reconcile cluster_env (ObjectKey ''default'' ''rlp'') new_cluster = (Inr (result_error ?e), w')"
    using fin by (simp add: rlp_Reconcile_def bindE_def Let_def get new_policy_sel(2) add upd live)
  obtain rlp1 w1 where "content_eq rlp1 ?p" "rlp_reconcile_live cluster_env rlp1 w1 = (Inr (result_error ?e), w')"
    "cluster_view w1 = cluster_view new_cluster\<lparr>sn_RLPs := (sn_RLPs (cluster_view new_cluster))(ObjectKey ''default'' ''rlp'' \<mapsto> rlp1)\<rparr>"
    using finalizer_first[OF cluster_env_api, THEN conjunct1, rule_format, OF policy new_policy_sel(2) fin run]
    by (auto simp: result_error_def add)
  moreover have "obj_Finalizers rlp1 = [rateLimitPolicyFinalizer]"
    using arg_cong[OF calculation(1)[unfolded content_eq_def], of obj_Finalizers] by simp
  moreover have "sn_RLPs (cluster_view w1) (ObjectKey ''default'' ''rlp'') = Some rlp1"
    using calculation(3) by simp
  ultimately show ?thesis using run by blast
qed

end
