(* ===== verification/Progress.thy ===== *)
theory Progress
  imports Footprint
begin

text \<open>
  When the reconciliation of a RateLimitPolicy succeeds. The other theories say what a run that
  succeeds has done; here is that it does succeed: where the API server answers no write with an
  error, nothing in the code itself stops the spec of a valid policy, for a target that is free,
  with the Limitador there and ready and the policies of the gateways resolvable.
\<close>

section \<open>A server that answers\<close>

text \<open>No write fails but one that cannot be done: creating what exists, writing what does not.\<close>

definition responds :: "('w, 'a k8s_object_scheme) resource_api \<Rightarrow> ('w \<Rightarrow> object_key \<rightharpoonup> 'a k8s_object_scheme) \<Rightarrow> bool" where
  "responds A view \<longleftrightarrow>
     (\<forall>w obj. if view w (ObjectKeyFromObject obj) = None then \<exists>w'. api_Create A obj w = (Inr (), w')
        else (\<exists>obj' w'. api_Update A obj w = (Inr obj', w')) \<and> (\<exists>w'. api_Delete A obj w = (Inr (), w')) \<and>
          (\<exists>w'. api_StatusUpdate A obj w = (Inr (), w')))"

definition cluster_responds :: "'w env \<Rightarrow> ('w \<Rightarrow> snapshot) \<Rightarrow> bool" where
  "cluster_responds c V \<longleftrightarrow> responds (cl_RLPs c) (sn_RLPs \<circ> V) \<and>
     responds (cl_Gateways c) (sn_Gateways \<circ> V) \<and> responds (cl_HTTPRoutes c) (sn_HTTPRoutes \<circ> V) \<and>
     responds (cl_Limitadors c) (sn_Limitadors \<circ> V) \<and> responds (cl_WasmPlugins c) (sn_WasmPlugins \<circ> V) \<and>
     responds (cl_EnvoyFilters c) (sn_EnvoyFilters \<circ> V) \<and>
     (\<forall>w. \<exists>gws. cl_ListGateways c w = (Inr gws, w))"

lemma respondsD:
  assumes "responds A view"
  shows "view w (ObjectKeyFromObject obj) = None \<Longrightarrow> \<exists>w'. api_Create A obj w = (Inr (), w')"
    and "view w (ObjectKeyFromObject obj) \<noteq> None \<Longrightarrow> \<exists>obj' w'. api_Update A obj w = (Inr obj', w')"
    and "view w (ObjectKeyFromObject obj) \<noteq> None \<Longrightarrow> \<exists>w'. api_Delete A obj w = (Inr (), w')"
    and "view w (ObjectKeyFromObject obj) \<noteq> None \<Longrightarrow> \<exists>w'. api_StatusUpdate A obj w = (Inr (), w')"
  using assms unfolding responds_def by (elim allE[of _ w] allE[of _ obj], simp)+

lemma list_api_responds: "responds (list_api get put) (list_view get)"
  by (auto simp: responds_def list_api_def split: option.splits)

lemma cluster_env_responds: "cluster_responds cluster_env cluster_view"
  by (simp add: cluster_responds_def cluster_env_sel list_api_responds) (simp add: cluster_env_def)

lemma ReconcileResource_succeeds:
  assumes "store_api A view same" "responds A view" "keeps_key f"
    and "\<And>obj. view w (ObjectKeyFromObject desired) = Some obj \<Longrightarrow> \<not> IsObjectTaggedToDelete desired \<Longrightarrow>
      \<exists>r. f obj desired = Inr r"
  shows "\<exists>w'. ReconcileResource A desired f w = (Inr (), w')"
proof (cases "view w (ObjectKeyFromObject desired)")
  case None
  then obtain e where "IsNotFound e" "api_Get A (ObjectKeyFromObject desired) w = (Inl e, w)"
    using store_Get_None[OF assms(1)] by blast
  with respondsD(1)[OF assms(2) None] show ?thesis by (simp add: ReconcileResource_absent)
next
  case (Some obj)
  then have key: "ObjectKeyFromObject obj = ObjectKeyFromObject desired"
    and get: "api_Get A (ObjectKeyFromObject desired) w = (Inr obj, w)"
    using store_Get_Some[OF assms(1)] by blast+
  show ?thesis
  proof (cases "IsObjectTaggedToDelete desired")
    case True
    with Some respondsD(3)[OF assms(2), of w desired] show ?thesis
      by (simp add: ReconcileResource_present[OF get])
  next
    case False
    with Some assms(4) obtain upd new where f: "f obj desired = Inr (upd, new)" by fastforce
    with Some key keeps_keyD[OF assms(3) f] obtain obj' w' where "api_Update A new w = (Inr obj', w')"
      using respondsD(2)[OF assms(2), of w new] by auto
    with False f show ?thesis by (simp add: ReconcileResource_present[OF get])
  qed
qed

text \<open>A loop whose rounds succeed and keep what they need.\<close>

lemma forE_progress:
  assumes "\<And>x w. x \<in> set xs \<Longrightarrow> I w \<Longrightarrow> \<exists>w'. f x w = (Inr (), w') \<and> I w'" "I w"
  shows "\<exists>w'. forE f xs w = (Inr (), w') \<and> I w'"
  using assms
proof (induction xs arbitrary: w)
  case (Cons x xs)
  then obtain w1 where "f x w = (Inr (), w1)" "I w1" by (meson list.set_intros(1))
  with Cons show ?case by simp
qed simp

lemma mapE_progress:
  assumes "\<And>x w. x \<in> set xs \<Longrightarrow> I w \<Longrightarrow> \<exists>y w'. f x w = (Inr y, w') \<and> I w'" "I w"
  shows "\<exists>ys w'. mapE f xs w = (Inr ys, w') \<and> I w'"
  using assms
proof (induction xs arbitrary: w)
  case (Cons x xs)
  then obtain y w1 where 1: "f x w = (Inr y, w1)" "I w1" by (meson list.set_intros(1))
  from Cons.IH[OF Cons.prems(1) 1(2)] obtain ys w' where "mapE f xs w1 = (Inr ys, w')" "I w'" by auto
  with 1 show ?case by simp
qed simp

section \<open>The steps of a reconciliation\<close>

text \<open>The encodings of the generated code answer: every configuration is encoded and decoded again.\<close>

definition codecs_total :: "'w env \<Rightarrow> bool" where
  "codecs_total c \<longleftrightarrow>
     (\<forall>config. \<exists>st x. ToStruct (lib_Wasm c) config = Inr st \<and> WASMPluginFromStruct (lib_Wasm c) (Some st) = Inr x) \<and>
     (\<forall>v. \<exists>p. lib_PatchUnmarshal c v = Inr p)"

definition plugins_readable :: "'w env \<Rightarrow> snapshot \<Rightarrow> bool" where
  "plugins_readable c s \<longleftrightarrow> (\<forall>k obj. sn_WasmPlugins s k = Some obj \<longrightarrow>
     (\<exists>x. WASMPluginFromStruct (lib_Wasm c) (wp_PluginConfig obj) = Inr x))"

definition limitador_ready :: "'w env \<Rightarrow> snapshot \<Rightarrow> bool" where
  "limitador_ready c s \<longleftrightarrow>
     (\<exists>lim. sn_Limitadors s (limitadorKey c) = Some lim \<and> lib_LimitadorReady c (lim_Status lim))"

lemma responds_sel:
  assumes "cluster_responds c V"
  shows "responds (cl_Gateways c) (sn_Gateways \<circ> V)" "responds (cl_HTTPRoutes c) (sn_HTTPRoutes \<circ> V)"
    "responds (cl_Limitadors c) (sn_Limitadors \<circ> V)" "responds (cl_WasmPlugins c) (sn_WasmPlugins \<circ> V)"
    "responds (cl_EnvoyFilters c) (sn_EnvoyFilters \<circ> V)" "\<exists>gws. cl_ListGateways c w = (Inr gws, w)"
    "responds (cl_RLPs c) (sn_RLPs \<circ> V)"
  using assms by (simp_all add: cluster_responds_def)

lemma reconcileLimits_succeeds:
  assumes "cluster_api c V" "cluster_responds c V" "limitador_ready c (V w)"
    and "distinct (map ObjectKeyFromObject (gd_SameGateways diff @ gd_NewGateways diff))"
    and "list_all (\<lambda>gr. resolve c (V w) (snd gr) \<noteq> None) (recomputed (lib_Json c) rlp diff)"
  shows "\<exists>w'. reconcileLimits c rlp diff w = (Inr (), w') \<and> limitador_ready c (V w') \<and>
    V w'\<lparr>sn_Limitadors := Map.empty\<rparr> = V w\<lparr>sn_Limitadors := Map.empty\<rparr>"
proof -
  obtain lim where lim: "sn_Limitadors (V w) (limitadorKey c) = Some lim" "lib_LimitadorReady c (lim_Status lim)"
    using assms(3) by (auto simp: limitador_ready_def)
  then have key: "ObjectKeyFromObject lim = limitadorKey c"
    and get: "api_Get (cl_Limitadors c) (limitadorKey c) w = (Inr lim, w)"
    using store_Get_Some[OF cluster_store(5)[OF assms(1)], of w "limitadorKey c" lim] by simp_all
  obtain idx where idx: "recompute_index c rlp diff lim w = (Inr idx, w)"
    using recompute_index_run[OF assms(1,4), where w = w and rlp = rlp and lim = lim] assms(5) by auto
  let ?new = "lim\<lparr>lim_Limits := ToLimits (rt_Range c w) idx\<rparr>"
  have keyn: "ObjectKeyFromObject ?new = limitadorKey c" using key by (simp add: ObjectKeyFromObject_def)
  obtain lim' w' where upd: "api_Update (cl_Limitadors c) ?new w = (Inr lim', w')"
    using respondsD(2)[OF responds_sel(3)[OF assms(2)], of w ?new] lim(1) keyn by auto
  have api: "kind_api V sn_Limitadors (sn_Limitadors_update (\<lambda>_. Map.empty)) (cl_Limitadors c)"
    using assms(1) by (simp add: cluster_api_def)
  note u = kind_update[OF api upd]
  have "lim_Status lim' = lim_Status lim"
    using arg_cong[OF u(1)[unfolded content_eq_def], of lim_Status] by simp
  then have "limitador_ready c (V w')" using u(2) lim(2) keyn by (simp add: limitador_ready_def)
  with u(3) upd idx get assms(3) show ?thesis
    by (auto simp: reconcileLimits_alt UpdateResource_def bindE_def askE_def)
qed

lemma LimitadorClusterPatch_total:
  assumes "\<forall>v. \<exists>p. unmarshal v = Inr p"
  shows "\<exists>patches. LimitadorClusterPatch unmarshal host port = Inr patches"
proof -
  from assms obtain f where "\<And>v. unmarshal v = Inr (f v)" by metis
  then show ?thesis by (simp add: LimitadorClusterPatch_def Let_def)
qed

lemma reconcile_filter_succeeds:
  assumes "cluster_api c V" "cluster_responds c V" "codecs_total c" "limitador_ready c (V w)"
  shows "\<exists>w'. reconcile_filter c gw refs w = (Inr (), w')"
proof -
  note rec = ReconcileResource_succeeds[OF cluster_store(7)[OF assms(1)] responds_sel(5)[OF assms(2)]
      keeps_key_AlwaysUpdateEnvoyFilter]
  have always: "\<exists>r. AlwaysUpdateEnvoyFilter obj d = Inr r" for obj d
    by (auto simp: AlwaysUpdateEnvoyFilter_def)
  obtain lim where lim: "api_Get (cl_Limitadors c) (limitadorKey c) w = (Inr lim, w)" "lib_LimitadorReady c (lim_Status lim)"
    using assms(4) store_Get_Some[OF cluster_store(5)[OF assms(1)], of w "limitadorKey c"]
    by (auto simp: limitador_ready_def)
  obtain patches where "LimitadorClusterPatch (lib_PatchUnmarshal c) (ls_ServiceHost (lim_Status lim))
      (ls_ServiceGRPC (lim_Status lim)) = Inr patches"
    using assms(3) LimitadorClusterPatch_total unfolding codecs_total_def by blast
  with lim rec[OF always] show ?thesis
    by (cases "refs = []") (simp_all add: reconcile_filter_def gatewayEnvoyFilter_alt)
qed

lemma reconcile_plugin_succeeds:
  assumes "cluster_api c V" "cluster_responds c V" "codecs_total c" "plugins_readable c (V w)"
    and "resolve c (V w) refs \<noteq> None"
  shows "\<exists>w'. reconcile_plugin c gw refs w = (Inr (), w')"
proof -
  note rec = ReconcileResource_succeeds[OF cluster_store(6)[OF assms(1)] responds_sel(4)[OF assms(2)]
      keeps_key_WASMPluginMutator[of "lib_Wasm c"]]
  note run = gatewayWASMPlugin_run[OF assms(1), where w = w and refs = refs and gw = gw]
  show ?thesis
  proof (cases "refs = []")
    case True
    with run rec[of w "TagObjectToDelete (plugin_object c gw None)"] show ?thesis
      by (simp add: reconcile_plugin_def)
  next
    case False
    with run assms(5) obtain config where config: "gatewayWASMPlugin c gw refs w = (case ToStruct (lib_Wasm c) config of
        Inl e \<Rightarrow> (Inl e, w) | Inr st \<Rightarrow> (Inr (plugin_object c gw (Some st)), w))"
      by auto
    obtain st x where st: "ToStruct (lib_Wasm c) config = Inr st" "WASMPluginFromStruct (lib_Wasm c) (Some st) = Inr x"
      using assms(3) unfolding codecs_total_def by blast
    have "\<exists>r. WASMPluginMutator (lib_Wasm c) obj (plugin_object c gw (Some st)) = Inr r"
      if "(sn_WasmPlugins \<circ> V) w (ObjectKeyFromObject (plugin_object c gw (Some st))) = Some obj" for obj
      using that assms(4) st(2) by (fastforce simp: plugins_readable_def WASMPluginMutator_def)
    from rec[OF this] config st(1) show ?thesis by (simp add: reconcile_plugin_def)
  qed
qed

lemma reconcile_plugin_readable:
  assumes "cluster_api c V" "codecs_total c" "plugins_readable c (V w)" "reconcile_plugin c gw refs w = (Inr (), w')"
  shows "plugins_readable c (V w')"
  unfolding plugins_readable_def
proof (intro allI impI)
  fix k obj assume obj: "sn_WasmPlugins (V w') k = Some obj"
  note run = reconcile_plugin_run[OF assms(1,4)]
  show "\<exists>x. WASMPluginFromStruct (lib_Wasm c) (wp_PluginConfig obj) = Inr x"
  proof (cases "k = plugin_key gw")
    case True
    with run obj obtain config st where "ToStruct (lib_Wasm c) config = Inr st"
      "WASMPluginFromStruct (lib_Wasm c) (wp_PluginConfig obj) = WASMPluginFromStruct (lib_Wasm c) (Some st)"
      by (auto simp: plugin_as_wanted_def split: if_splits)
    then show ?thesis using assms(2) unfolding codecs_total_def by (metis sum.inject(2))
  next
    case False
    with run obj assms(3) show ?thesis by (simp add: plugins_readable_def)
  qed
qed

section \<open>The references\<close>

lemma update_if_changed_succeeds:
  assumes "cluster_api c V" "cluster_responds c V" "job_ok (gw, r)" "sn_Gateways (V w) (ObjectKeyFromObject gw) \<noteq> None"
  shows "\<exists>gw' w'. update_if_changed c gw r w = (Inr gw', w') \<and>
    (\<forall>k. sn_Gateways (V w) k \<noteq> None \<longrightarrow> sn_Gateways (V w') k \<noteq> None)"
proof -
  obtain changed y where r: "r = (changed, Some y)" and y: "ObjectKeyFromObject y = ObjectKeyFromObject gw"
    using assms(3) by (cases r) (auto simp: job_ok_def)
  have api: "kind_api V sn_Gateways (sn_Gateways_update (\<lambda>_. Map.empty)) (cl_Gateways c)"
    using assms(1) by (simp add: cluster_api_def)
  obtain gw' w' where upd: "api_Update (cl_Gateways c) y w = (Inr gw', w')"
    using respondsD(2)[OF responds_sel(1)[OF assms(2)], of w y] assms(4) y by auto
  show ?thesis
    using kind_update(2)[OF api upd] upd by (cases changed) (simp_all add: r update_if_changed_def UpdateResource_def)
qed

lemma reconcileReferences_succeeds:
  assumes "cluster_api c V" "cluster_responds c V"
    and "\<And>gw. gw \<in> set (gd_LeftGateways diff @ gd_NewGateways diff) \<Longrightarrow> sn_Gateways (V w) (ObjectKeyFromObject gw) \<noteq> None"
  shows "\<exists>diff' w'. reconcileGatewayRLPReferences c rlp diff w = (Inr diff', w')"
proof -
  let ?I = "\<lambda>w1. \<forall>k. sn_Gateways (V w) k \<noteq> None \<longrightarrow> sn_Gateways (V w1) k \<noteq> None"
  have loop: "\<exists>ys w2. mapE (\<lambda>gw. update_if_changed c gw (f gw)) gws w1 = (Inr ys, w2) \<and> ?I w2"
    if "\<And>gw. job_ok (gw, f gw)" "set gws \<subseteq> set (gd_LeftGateways diff @ gd_NewGateways diff)" "?I w1" for f gws w1
  proof (rule mapE_progress[where I = ?I, OF _ that(3)])
    fix gw w3 assume "gw \<in> set gws" and I: "?I w3"
    with that(2) assms(3)[of gw] have "sn_Gateways (V w3) (ObjectKeyFromObject gw) \<noteq> None" by blast
    from update_if_changed_succeeds[OF assms(1,2) that(1) this] I
    show "\<exists>y w4. update_if_changed c gw (f gw) w3 = (Inr y, w4) \<and> ?I w4" by metis
  qed
  from loop[of "\<lambda>gw. DeleteRLP (lib_Json c) (ObjectKeyFromObject rlp) (Some gw)" "gd_LeftGateways diff" w]
  obtain lefts w1 where "mapE (\<lambda>gw. update_if_changed c gw
      (DeleteRLP (lib_Json c) (ObjectKeyFromObject rlp) (Some gw))) (gd_LeftGateways diff) w = (Inr lefts, w1)" "?I w1"
    using DeleteRLP_job by auto
  moreover from this loop[of "\<lambda>gw. AddRLP (lib_Json c) (ObjectKeyFromObject rlp) (Some gw)" "gd_NewGateways diff" w1]
  obtain news w2 where "mapE (\<lambda>gw. update_if_changed c gw
      (AddRLP (lib_Json c) (ObjectKeyFromObject rlp) (Some gw))) (gd_NewGateways diff) w1 = (Inr news, w2)"
    using AddRLP_job by auto
  ultimately show ?thesis by (simp add: reconcileGatewayRLPReferences_def)
qed

section \<open>The four steps\<close>

text \<open>
  The references that count for the gateways concerned, with the policy for those it targets and
  without it for the others that refer to it, all resolve.
\<close>

definition refs_resolve :: "'w env \<Rightarrow> snapshot \<Rightarrow> RateLimitPolicy \<Rightarrow> object_key list \<Rightarrow> bool" where
  "refs_resolve c s rlp keys \<longleftrightarrow> (\<forall>k gw. sn_Gateways s k = Some gw \<longrightarrow>
     (let refs = refs_of (lib_Json c) (Some gw); rlpKey = ObjectKeyFromObject rlp in
      if k \<in> set keys then resolve c s (refs_with refs rlpKey) \<noteq> None
      else rlpKey \<in> set refs \<longrightarrow> resolve c s (refs_without refs rlpKey) \<noteq> None))"

lemma refs_with_alt: "refs_with refs k = (if k \<in> set refs then refs else refs @ [k])"
  by (simp add: refs_with_def ContainsObjectKey_iff)

lemma work_resolves:
  assumes "cluster_api c V" "computeGatewayDiffs c rlp w = (Inr diff, w)"
    and "TargetedGatewayKeys c (rlp_TargetRef rlp) (obj_Namespace rlp) w = (Inr keys, w)" "refs_resolve c (V w) rlp keys"
  shows "\<forall>gr \<in> set (plugin_work (lib_Json c) rlp diff). resolve c (V w) (snd gr) \<noteq> None"
    and "list_all (\<lambda>gr. resolve c (V w) (snd gr) \<noteq> None) (recomputed (lib_Json c) rlp diff)"
    and "\<And>gw. gw \<in> set (gd_LeftGateways diff @ gd_NewGateways diff) \<Longrightarrow> sn_Gateways (V w) (ObjectKeyFromObject gw) \<noteq> None"
    and "distinct (map ObjectKeyFromObject (gd_SameGateways diff @ gd_NewGateways diff))"
proof -
  let ?J = "lib_Json c" and ?rk = "ObjectKeyFromObject rlp"
  from computeGatewayDiffs_run(2)[OF assms(1,2) refl] assms(3) obtain gws where
    gws: "distinct (map ObjectKeyFromObject gws)" "\<And>k. sn_Gateways (V w) k = find (\<lambda>g. ObjectKeyFromObject g = k) gws"
    and diff: "diff = \<lparr>gd_NewGateways = NewGateways ?J gws ?rk keys, gd_SameGateways = SameGateways ?J gws ?rk keys,
       gd_LeftGateways = LeftGateways ?J gws ?rk keys\<rparr>"
    by auto
  have at: "sn_Gateways (V w) (ObjectKeyFromObject gw) = Some gw" if "gw \<in> set gws" for gw
    using gws(2) find_distinct_key[OF gws(1) that] by simp
  have res: "if ObjectKeyFromObject gw \<in> set keys then resolve c (V w) (refs_with (refs_of ?J (Some gw)) ?rk) \<noteq> None
      else ?rk \<in> set (refs_of ?J (Some gw)) \<longrightarrow> resolve c (V w) (refs_without (refs_of ?J (Some gw)) ?rk) \<noteq> None"
    if "gw \<in> set gws" for gw
    using assms(4) at[OF that] unfolding refs_resolve_def Let_def by blast
  have new: "gw \<in> set gws \<and> ObjectKeyFromObject gw \<in> set keys \<and> ?rk \<notin> set (refs_of ?J (Some gw))"
    if "gw \<in> set (gd_NewGateways diff)" for gw
    using that by (simp add: diff NewGateways_def ContainsRLP_refs ContainsObjectKey_iff)
  have same: "gw \<in> set gws \<and> ObjectKeyFromObject gw \<in> set keys \<and> ?rk \<in> set (refs_of ?J (Some gw))"
    if "gw \<in> set (gd_SameGateways diff)" for gw
    using that by (simp add: diff SameGateways_def ContainsRLP_refs ContainsObjectKey_iff)
  have left: "gw \<in> set gws \<and> ObjectKeyFromObject gw \<notin> set keys \<and> ?rk \<in> set (refs_of ?J (Some gw))"
    if "gw \<in> set (gd_LeftGateways diff)" for gw
    using that by (simp add: diff LeftGateways_def ContainsRLP_refs ContainsObjectKey_iff)
  have news: "resolve c (V w) (refs_with (refs_of ?J (Some gw)) ?rk) \<noteq> None"
    "resolve c (V w) (refs_of ?J (Some gw) @ [?rk]) \<noteq> None" if "gw \<in> set (gd_NewGateways diff)" for gw
    using res[of gw] new[OF that] by (simp_all add: refs_with_alt)
  have sames: "resolve c (V w) (refs_of ?J (Some gw)) \<noteq> None" if "gw \<in> set (gd_SameGateways diff)" for gw
    using res[of gw] same[OF that] by (simp add: refs_with_alt)
  have lefts: "resolve c (V w) (refs_without (refs_of ?J (Some gw)) ?rk) \<noteq> None" if "gw \<in> set (gd_LeftGateways diff)" for gw
    using res[of gw] left[OF that] by simp
  show "\<forall>gr \<in> set (plugin_work ?J rlp diff). resolve c (V w) (snd gr) \<noteq> None"
    using news(1) sames lefts unfolding plugin_work_def by auto
  show "list_all (\<lambda>gr. resolve c (V w) (snd gr) \<noteq> None) (recomputed ?J rlp diff)"
    using news(2) sames unfolding recomputed_def by (auto simp: list_all_iff)
  show "sn_Gateways (V w) (ObjectKeyFromObject gw) \<noteq> None"
    if "gw \<in> set (gd_LeftGateways diff @ gd_NewGateways diff)" for gw
    using that at by (auto simp: diff LeftGateways_def NewGateways_def)
  show "distinct (map ObjectKeyFromObject (gd_SameGateways diff @ gd_NewGateways diff))"
    using groups_distinct[OF gws(1), of ?J ?rk keys] by (auto simp: diff)
qed

text \<open>The loops over the gateways; the resolved references are those of the policies and routes.\<close>

lemma filters_succeed:
  assumes "cluster_api c V" "cluster_responds c V" "codecs_total c" "limitador_ready c (V w)"
  shows "\<exists>w'. reconcileRateLimitingClusterEnvoyFilter c rlp diff w = (Inr (), w') \<and>
    V w'\<lparr>sn_EnvoyFilters := Map.empty\<rparr> = V w\<lparr>sn_EnvoyFilters := Map.empty\<rparr>"
  unfolding reconcileEnvoyFilter_alt
proof (rule forE_progress)
  fix gr w2 assume I: "V w2\<lparr>sn_EnvoyFilters := Map.empty\<rparr> = V w\<lparr>sn_EnvoyFilters := Map.empty\<rparr>"
  have "limitador_ready c (V w2)"
    using assms(4) arg_cong[OF I, of sn_Limitadors] by (simp add: limitador_ready_def)
  from reconcile_filter_succeeds[OF assms(1-3) this, of "fst gr" "snd gr"] reconcile_filter_run[OF assms(1)] I
  show "\<exists>w3. reconcile_filter c (fst gr) (snd gr) w2 = (Inr (), w3) \<and>
      V w3\<lparr>sn_EnvoyFilters := Map.empty\<rparr> = V w\<lparr>sn_EnvoyFilters := Map.empty\<rparr>" by metis
qed simp

lemma plugins_succeed:
  assumes "cluster_api c V" "cluster_responds c V" "codecs_total c" "plugins_readable c (V w)"
    and "\<forall>gr \<in> set (plugin_work (lib_Json c) rlp diff). resolve c (V w) (snd gr) \<noteq> None"
  shows "\<exists>w'. reconcileWASMPluginConf c rlp diff w = (Inr (), w') \<and>
    V w'\<lparr>sn_WasmPlugins := Map.empty\<rparr> = V w\<lparr>sn_WasmPlugins := Map.empty\<rparr>"
proof -
  let ?I = "\<lambda>w3. plugins_readable c (V w3) \<and> V w3\<lparr>sn_WasmPlugins := Map.empty\<rparr> = V w\<lparr>sn_WasmPlugins := Map.empty\<rparr>"
  have "\<exists>w3. reconcileWASMPluginConf c rlp diff w = (Inr (), w3) \<and> ?I w3"
    unfolding reconcileWASMPluginConf_alt
  proof (rule forE_progress)
    fix gr w3 assume gr: "gr \<in> set (plugin_work (lib_Json c) rlp diff)" and I: "?I w3"
    from I have "V w3\<lparr>sn_WasmPlugins := Map.empty\<rparr> = V w\<lparr>sn_WasmPlugins := Map.empty\<rparr>" ..
    note frame = arg_cong[OF this]
    have "sn_RLPs (V w3) = sn_RLPs (V w)" "sn_HTTPRoutes (V w3) = sn_HTTPRoutes (V w)"
      using frame[of sn_RLPs] frame[of sn_HTTPRoutes] by simp_all
    from resolve_cong[OF this, of c] bspec[OF assms(5) gr] have "resolve c (V w3) (snd gr) \<noteq> None" by simp
    then obtain w4 where w4: "reconcile_plugin c (fst gr) (snd gr) w3 = (Inr (), w4)"
      using reconcile_plugin_succeeds[OF assms(1-3)] I by blast
    with reconcile_plugin_run[OF assms(1) w4] reconcile_plugin_readable[OF assms(1,3) _ w4] I
    show "\<exists>w4. reconcile_plugin c (fst gr) (snd gr) w3 = (Inr (), w4) \<and> ?I w4" by auto
  qed (use assms(4) in simp)
  then show ?thesis by blast
qed

lemma reconcileGatewayDiffs_succeeds:
  assumes "cluster_api c V" "cluster_responds c V" "codecs_total c"
    and "limitador_ready c (V w)" "plugins_readable c (V w)"
    and keys: "TargetedGatewayKeys c (rlp_TargetRef rlp) (obj_Namespace rlp) w = (Inr keys, w)"
    and "refs_resolve c (V w) rlp keys"
  shows "\<exists>w'. reconcileGatewayDiffs c rlp w = (Inr (), w') \<and>
    sn_RLPs (V w') = sn_RLPs (V w) \<and> sn_HTTPRoutes (V w') = sn_HTTPRoutes (V w)"
proof -
  obtain diff where diff: "computeGatewayDiffs c rlp w = (Inr diff, w)"
    using keys responds_sel(6)[OF assms(2), of w] by (auto simp: computeGatewayDiffs_def bindE_def)
  note work = work_resolves[OF assms(1) diff keys assms(7)]
  obtain w1 where limits: "reconcileLimits c rlp diff w = (Inr (), w1)" "limitador_ready c (V w1)"
    "V w1\<lparr>sn_Limitadors := Map.empty\<rparr> = V w\<lparr>sn_Limitadors := Map.empty\<rparr>"
    using reconcileLimits_succeeds[OF assms(1,2,4) work(4,2)] by blast
  obtain w2 where filters: "reconcileRateLimitingClusterEnvoyFilter c rlp diff w1 = (Inr (), w2)"
    "V w2\<lparr>sn_EnvoyFilters := Map.empty\<rparr> = V w1\<lparr>sn_EnvoyFilters := Map.empty\<rparr>"
    using filters_succeed[OF assms(1-3) limits(2)] by blast
  have same2: "sn_RLPs (V w2) = sn_RLPs (V w)" "sn_HTTPRoutes (V w2) = sn_HTTPRoutes (V w)"
    "sn_Gateways (V w2) = sn_Gateways (V w)" "sn_WasmPlugins (V w2) = sn_WasmPlugins (V w)"
    using limits(3) filters(2) by (cases "V w"; cases "V w1"; cases "V w2"; simp)+
  have "plugins_readable c (V w2)" "\<forall>gr \<in> set (plugin_work (lib_Json c) rlp diff). resolve c (V w2) (snd gr) \<noteq> None"
    using assms(5) same2(4) work(1) resolve_cong[OF same2(1,2), of c] by (simp_all add: plugins_readable_def)
  from plugins_succeed[OF assms(1-3) this] obtain w3 where plugins: "reconcileWASMPluginConf c rlp diff w2 = (Inr (), w3)"
    "V w3\<lparr>sn_WasmPlugins := Map.empty\<rparr> = V w2\<lparr>sn_WasmPlugins := Map.empty\<rparr>" by blast
  have same3: "sn_RLPs (V w3) = sn_RLPs (V w)" "sn_HTTPRoutes (V w3) = sn_HTTPRoutes (V w)"
    "sn_Gateways (V w3) = sn_Gateways (V w)"
    using plugins(2) same2 by (cases "V w2"; cases "V w3"; simp)+
  obtain diff' w' where refs: "reconcileGatewayRLPReferences c rlp diff w3 = (Inr diff', w')"
    using reconcileReferences_succeeds[OF assms(1,2), of diff w3] work(3) same3(3) by metis
  have "V w'\<lparr>sn_Gateways := Map.empty\<rparr> = V w3\<lparr>sn_Gateways := Map.empty\<rparr>"
    using preservesD[OF preserves_References[OF assms(1)] refl refs] .
  then have "sn_RLPs (V w') = sn_RLPs (V w) \<and> sn_HTTPRoutes (V w') = sn_HTTPRoutes (V w)"
    using same3 by (cases "V w3"; cases "V w'"; simp)
  with diff limits(1) filters(1) plugins(1) refs show ?thesis
    by (simp add: reconcileGatewayDiffs_def)
qed

section \<open>The whole reconciliation\<close>

text \<open>A stored target can be annotated; one that is free, or already claimed by the policy, is claimed.\<close>

lemma update_target_succeeds:
  assumes "cluster_responds c V" "target_at (V w) tr ns = Some obj" "target_object_key obj = target_key tr ns"
  shows "\<exists>w'. update_target c (target_SetAnnotations obj m) w = (Inr (), w')"
proof (cases obj)
  case (TargetHTTPRoute r)
  with assms(2,3) have "(sn_HTTPRoutes \<circ> V) w (ObjectKeyFromObject (r\<lparr>obj_Annotations := Some m\<rparr>)) \<noteq> None"
    by (auto simp: target_at_def Let_def target_object_key_def ObjectKeyFromObject_def split: if_splits)
  from respondsD(2)[OF responds_sel(2)[OF assms(1)] this] TargetHTTPRoute show ?thesis
    by (auto simp: update_target_def target_SetAnnotations_def UpdateResource_def)
next
  case (TargetGateway g)
  with assms(2,3) have "(sn_Gateways \<circ> V) w (ObjectKeyFromObject (g\<lparr>obj_Annotations := Some m\<rparr>)) \<noteq> None"
    by (auto simp: target_at_def Let_def target_object_key_def ObjectKeyFromObject_def split: if_splits)
  from respondsD(2)[OF responds_sel(1)[OF assms(1)] this] TargetGateway show ?thesis
    by (auto simp: update_target_def target_SetAnnotations_def UpdateResource_def)
qed

lemma back_reference_succeeds:
  assumes "cluster_api c V" "cluster_responds c V"
    and "target_at (V w) tr ns = Some obj" "usable_target c obj"
    and "target_annotations obj ann \<in> {None, Some (key_String pk)}"
  shows "\<exists>w'. ReconcileTargetBackReference c pk tr ns ann w = (Inr (), w')"
proof -
  have fetch: "FetchValidTargetRef c tr ns w = (Inr obj, w)" and key: "target_object_key obj = target_key tr ns"
    by (rule FetchValidTargetRef_run[OF assms(1), of w tr ns]; use assms(3,4) in auto)+
  with update_target_succeeds[OF assms(2,3) key] assms(5) show ?thesis
    by (auto simp: ReconcileTargetBackReference_def Let_def)
qed

text \<open>Annotations do not matter for the use of a target.\<close>

lemma target_moved:
  assumes "\<And>k. rel_option (reannotated a) (sn_HTTPRoutes s k) (sn_HTTPRoutes s' k)"
    and "\<And>k. rel_option (reannotated b) (sn_Gateways s k) (sn_Gateways s' k)"
    and "target_at s tr ns = Some obj"
  obtains obj' where "target_at s' tr ns = Some obj'" "usable_target c obj' = usable_target c obj"
    "target_hosts obj' = target_hosts obj"
proof (cases obj)
  case (TargetHTTPRoute r)
  with assms(3) have "tr_Kind tr = ''HTTPRoute''" "sn_HTTPRoutes s (target_key tr ns) = Some r"
    by (auto simp: target_at_def Let_def split: if_splits)
  moreover from this(2) assms(1)[of "target_key tr ns"] obtain r' where
    "sn_HTTPRoutes s' (target_key tr ns) = Some r'" "reannotated a r r'" by (auto elim: option.rel_cases)
  ultimately show thesis
    using that[of "TargetHTTPRoute r'"] TargetHTTPRoute
    by (simp add: target_at_def Let_def usable_target_def routeParentStatus_def target_hosts_def reannotated_route)
next
  case (TargetGateway g)
  with assms(3) have "tr_Kind tr = ''Gateway''" "sn_Gateways s (target_key tr ns) = Some g"
    by (auto simp: target_at_def Let_def split: if_splits)
  moreover from this(2) assms(2)[of "target_key tr ns"] obtain g' where
    g': "sn_Gateways s' (target_key tr ns) = Some g'" "reannotated b g g'" by (auto elim: option.rel_cases)
  moreover have "gw_Conditions g' = gw_Conditions g" "gw_Listeners g' = gw_Listeners g"
    using g'(2) by (cases g; cases g'; simp add: reannotated_def)+
  ultimately show thesis
    using that[of "TargetGateway g'"] TargetGateway
    by (simp add: target_at_def Let_def usable_target_def target_hosts_def)
qed

text \<open>Claiming a target changes neither its gateways nor what their references resolve to.\<close>

lemma gateway_keys_retargeted:
  assumes "cluster_api c V" "retargeted ann (V w) (V w')" "TargetedGatewayKeys c tr ns w = (Inr keys, w)"
  shows "TargetedGatewayKeys c tr ns w' = (Inr keys, w')"
proof (cases "IsTargetRefHTTPRoute tr")
  case True
  note fetch = FetchValidHTTPRoute_run[OF cluster_store(4)[OF assms(1)]]
  from True assms(3) obtain r where r: "usable_route c (V w) (target_key tr ns) = Some r"
    "keys = map (parent_key r) (rt_ParentRefs r)"
    by (cases rule: fetch[of w "target_key tr ns"]) (auto simp: TargetedGatewayKeys_def usable_route_def)
  with usable_route_retargeted[OF assms(2), of c "target_key tr ns"] obtain r' where
    r': "usable_route c (V w') (target_key tr ns) = Some r'" "reannotated ann r r'"
    by (auto elim: option.rel_cases)
  then have "FetchValidHTTPRoute c (target_key tr ns) w' = (Inr r', w')"
    by (cases rule: fetch[of w' "target_key tr ns"]) (auto simp: usable_route_def split: if_splits)
  moreover have "parent_key r' = parent_key r"
    by (rule ext) (simp add: parent_key_def reannotated_route[OF r'(2)] split: option.split)
  ultimately show ?thesis
    using True r(2) by (simp add: TargetedGatewayKeys_def reannotated_route[OF r'(2)])
qed (use assms(3) in \<open>auto simp: TargetedGatewayKeys_def split: if_splits\<close>)

lemma refs_resolve_retargeted:
  assumes "retargeted ann s s'" "ann \<noteq> KuadrantRateLimitPolicyRefAnnotation" "refs_resolve c s rlp keys"
  shows "refs_resolve c s' rlp keys"
  unfolding refs_resolve_def
proof (intro allI impI)
  fix k gw' assume "sn_Gateways s' k = Some gw'"
  moreover have "rel_option (reannotated ann) (sn_Gateways s k) (sn_Gateways s' k)"
    using assms(1) by (simp add: retargeted_def)
  ultimately obtain gw where gw: "sn_Gateways s k = Some gw" "reannotated ann gw gw'"
    by (auto elim: option.rel_cases)
  have mono: "resolve c s refs \<noteq> None \<Longrightarrow> resolve c s' refs \<noteq> None" for refs
    using resolve_retargeted[OF assms(1), of c refs] by fastforce
  from gw(1) assms(3) have "let refs = refs_of (lib_Json c) (Some gw); rlpKey = ObjectKeyFromObject rlp in
      if k \<in> set keys then resolve c s (refs_with refs rlpKey) \<noteq> None
      else rlpKey \<in> set refs \<longrightarrow> resolve c s (refs_without refs rlpKey) \<noteq> None"
    unfolding refs_resolve_def by blast
  with mono show "let refs = refs_of (lib_Json c) (Some gw'); rlpKey = ObjectKeyFromObject rlp in
      if k \<in> set keys then resolve c s' (refs_with refs rlpKey) \<noteq> None
      else rlpKey \<in> set refs \<longrightarrow> resolve c s' (refs_without refs rlpKey) \<noteq> None"
    unfolding Let_def reannotated_gateway(2)[OF gw(2) assms(2)] by (auto split: if_splits)
qed

lemma reconcileStatus_succeeds:
  assumes "cluster_api c V" "cluster_responds c V" "sn_RLPs (V w) (ObjectKeyFromObject rlp) \<noteq> None"
    and "TargetedGatewayKeys c (rlp_TargetRef rlp) (obj_Namespace rlp) w = (Inr keys, w)"
  shows "\<exists>w'. rlp_reconcileStatus c rlp None w = (Inr False, w')"
proof -
  have one: "\<exists>x. gateway_rate_limits c k w = (Inr x, w)" for k
  proof (rule store_Get_cases[OF cluster_store(3)[OF assms(1)], where w = w and k = k])
    fix gw assume gw: "api_Get (cl_Gateways c) k w = (Inr gw, w)"
    have rlps: "\<exists>x. bindE (attempt (api_Get (cl_RLPs c) rk)) (\<lambda>got. case got of
        Inl err \<Rightarrow> if IsNotFound err then retE None else throwE err | Inr p \<Rightarrow> retE (Some (f p))) w = (Inr x, w)" for rk f
      by (rule store_Get_cases[OF cluster_store(1)[OF assms(1)], where w = w and k = rk]) auto
    show "\<exists>x. gateway_rate_limits c k w = (Inr x, w)"
      using gw rlps by (auto simp: gateway_rate_limits_def split: option.split sum.split)
  qed (auto simp: gateway_rate_limits_def)
  have "\<exists>ys w'. mapE (gateway_rate_limits c) keys w = (Inr ys, w') \<and> w' = w"
    by (rule mapE_progress) (use one in blast)+
  then have "\<exists>ls. gatewaysRateLimits c rlp w = (Inr ls, w)"
    using assms(4) by (auto simp: gatewaysRateLimits_def)
  then have "\<exists>st. rlp_calculateStatus c rlp None w = (Inr st, w)"
    by (auto simp: rlp_calculateStatus_def Let_def askE_def bindE_def)
  then obtain st where st: "rlp_calculateStatus c rlp None w = (Inr st, w)" by blast
  have "ObjectKeyFromObject (rlp\<lparr>rlp_Status := x\<rparr>) = ObjectKeyFromObject rlp" for x
    by (simp add: ObjectKeyFromObject_def)
  with assms(3) have "\<exists>w'. api_StatusUpdate (cl_RLPs c) (rlp\<lparr>rlp_Status := x\<rparr>) w = (Inr (), w')" for x
    using respondsD(4)[OF responds_sel(7)[OF assms(2)], of w "rlp\<lparr>rlp_Status := x\<rparr>"] by simp
  then obtain w' where "api_StatusUpdate (cl_RLPs c)
      (rlp\<lparr>rlp_Status := st\<lparr>rlpst_ObservedGeneration := obj_Generation rlp\<rparr>\<rparr>) w = (Inr (), w')" by blast
  with st show ?thesis by (simp add: rlp_reconcileStatus_def Let_def)
qed

text \<open>
  A policy that can be served: it validates, its target is there, usable and free, the target's
  host names cover those of the rules, and the references of the gateways resolve.
\<close>

definition serviceable :: "'w env \<Rightarrow> snapshot \<Rightarrow> RateLimitPolicy \<Rightarrow> target_object \<Rightarrow> object_key list \<Rightarrow> bool" where
  "serviceable c s rlp obj keys \<longleftrightarrow>
     Validate rlp = None \<and>
     target_at s (rlp_TargetRef rlp) (obj_Namespace rlp) = Some obj \<and> usable_target c obj \<and>
     target_annotations obj RateLimitPolicyBackRefAnnotation \<in> {None, Some (key_String (ObjectKeyFromObject rlp))} \<and>
     list_all (\<lambda>h. \<exists>d \<in> set (target_hosts obj). SubsetOf h d) (rule_hosts rlp) \<and>
     refs_resolve c s rlp keys"

lemma reconcileSpec_succeeds:
  assumes "cluster_api c V" "cluster_responds c V" "codecs_total c"
    and "limitador_ready c (V w)" "plugins_readable c (V w)" "serviceable c (V w) rlp obj keys"
    and keys: "TargetedGatewayKeys c (rlp_TargetRef rlp) (obj_Namespace rlp) w = (Inr keys, w)"
  shows "\<exists>w'. reconcileSpec c rlp w = (Inr False, w') \<and> sn_RLPs (V w') = sn_RLPs (V w) \<and>
    TargetedGatewayKeys c (rlp_TargetRef rlp) (obj_Namespace rlp) w' = (Inr keys, w')"
proof -
  let ?tr = "rlp_TargetRef rlp" and ?ns = "obj_Namespace rlp" and ?ann = RateLimitPolicyBackRefAnnotation
  from assms(6) have obj: "target_at (V w) ?tr ?ns = Some obj" "usable_target c obj"
    "target_annotations obj ?ann \<in> {None, Some (key_String (ObjectKeyFromObject rlp))}"
    and hosts: "list_all (\<lambda>h. \<exists>d \<in> set (target_hosts obj). SubsetOf h d) (rule_hosts rlp)"
    and valid: "Validate rlp = None" "refs_resolve c (V w) rlp keys"
    by (simp_all add: serviceable_def)
  have "fst (TargetHostnames c ?tr ?ns w) = Inr (target_hosts obj)"
    by (rule FetchValidTargetRef_run[OF assms(1), of w ?tr ?ns]) (use obj in \<open>auto simp: TargetHostnames_def\<close>)
  with hosts have checked: "validateRuleHosts c rlp w = (Inr (), w)"
    by (simp add: validateRuleHosts_run[OF assms(1)])
  obtain w0 where claim: "ReconcileTargetBackReference c (ObjectKeyFromObject rlp) ?tr ?ns ?ann w = (Inr (), w0)"
    using back_reference_succeeds[OF assms(1,2) obj] by blast
  note claimed = back_reference_retargeted(1)[OF assms(1) claim]
  have ann: "?ann \<noteq> KuadrantRateLimitPolicyRefAnnotation"
    by (simp add: RateLimitPolicyBackRefAnnotation_def KuadrantRateLimitPolicyRefAnnotation_def)
  note sel = retargeted_sel[OF claimed]
  have ready: "limitador_ready c (V w0)" "plugins_readable c (V w0)"
    using assms(4,5) by (simp_all add: limitador_ready_def plugins_readable_def sel)
  note keys0 = gateway_keys_retargeted[OF assms(1) claimed keys]
  obtain w' where diffs: "reconcileGatewayDiffs c rlp w0 = (Inr (), w')"
    "sn_RLPs (V w') = sn_RLPs (V w0)" "sn_HTTPRoutes (V w') = sn_HTTPRoutes (V w0)"
    using reconcileGatewayDiffs_succeeds[OF assms(1-3) ready keys0 refs_resolve_retargeted[OF claimed ann valid(2)]]
    by blast
  have "reconcileSpec c rlp w = (Inr False, w')"
    using valid(1) checked claim diffs(1) by (simp add: reconcileSpec_def reconcileDirectBackReference_def)
  with diffs(2) sel(1) TargetedGatewayKeys_cong[OF assms(1) diffs(3) keys0] show ?thesis by simp
qed

text \<open>
  C9: A RateLimitPolicy that can be served is served. On an API server that does not refuse a
  write that can be done, with a Limitador that is ready, Reconcile of a live policy that
  validates, whose usable target is free (or already its own) and covers the hosts of its rules,
  ends without an error and without asking for a requeue, provided the policies the gateways
  concerned refer to resolve: nothing else in the code can make it fail.
\<close>

theorem Reconcile_succeeds:
  assumes "cluster_api c V" "cluster_responds c V" "codecs_total c"
    and "limitador_ready c (V w)" "plugins_readable c (V w)"
    and "sn_RLPs (V w) req = Some rlp" "obj_DeletionTimestamp rlp = None"
    and "lib_ContainsFinalizer c (obj_Finalizers rlp) rateLimitPolicyFinalizer"
    and "serviceable c (V w) rlp obj keys"
    and "TargetedGatewayKeys c (rlp_TargetRef rlp) (obj_Namespace rlp) w = (Inr keys, w)"
  shows "\<exists>w'. rlp_Reconcile c req w = (Inr result_ok, w')"
proof -
  from store_Get_Some[OF cluster_store(1)[OF assms(1)], where w = w and k = req and obj = rlp] assms(6)
  have get: "ObjectKeyFromObject rlp = req" "api_Get (cl_RLPs c) req w = (Inr rlp, w)" by simp_all
  obtain w1 where spec: "reconcileSpec c rlp w = (Inr False, w1)" "sn_RLPs (V w1) = sn_RLPs (V w)"
    "TargetedGatewayKeys c (rlp_TargetRef rlp) (obj_Namespace rlp) w1 = (Inr keys, w1)"
    using reconcileSpec_succeeds[OF assms(1-5,9,10)] by blast
  obtain w' where "rlp_reconcileStatus c rlp None w1 = (Inr False, w')"
    using reconcileStatus_succeeds[OF assms(1,2) _ spec(3)] assms(6) get(1) spec(2) by auto
  with spec(1) have "rlp_reconcile_live c rlp w = (Inr result_ok, w')"
    by (simp add: rlp_reconcile_live_def attempt_def bindE_def Let_def)
  with get(2) assms(7,8) show ?thesis by (simp add: rlp_Reconcile_def)
qed

lemma example_serviceable:
  "serviceable cluster_env (cluster_view example_cluster) route_policy (TargetHTTPRoute example_route)
     [ObjectKey ''istio'' ''gw'']"
proof -
  have refs: "refs_resolve cluster_env (cluster_view example_cluster) route_policy [ObjectKey ''istio'' ''gw'']"
    unfolding refs_resolve_def Let_def
  proof (intro allI impI)
    fix k gw assume "sn_Gateways (cluster_view example_cluster) k = Some gw"
    then have "k = ObjectKey ''istio'' ''gw''" "gw = example_gateway"
      by (auto simp: go_eval list_view_def split: if_splits)
    then show "if k \<in> set [ObjectKey ''istio'' ''gw'']
        then resolve cluster_env (cluster_view example_cluster)
          (refs_with (refs_of (lib_Json cluster_env) (Some gw)) (ObjectKeyFromObject route_policy)) \<noteq> None
        else ObjectKeyFromObject route_policy \<in> set (refs_of (lib_Json cluster_env) (Some gw)) \<longrightarrow>
          resolve cluster_env (cluster_view example_cluster)
            (refs_without (refs_of (lib_Json cluster_env) (Some gw)) (ObjectKeyFromObject route_policy)) \<noteq> None"
      by (simp add: refs_with_alt example_keys resolve_example)
  qed
  have "Validate route_policy = None" "rule_hosts route_policy = []"
    by (simp_all add: Validate_def go_eval gateway_api_group_def example_target_def rule_hosts_def)
      (simp add: route_policy_def example_policy_def k8s_object.defs)
  then show ?thesis
    using refs by (simp add: serviceable_def go_eval example_target_at target_annotations_def key_String_def)
qed

lemma cluster_env_codecs: "codecs_total cluster_env"
  by (simp add: codecs_total_def cluster_env_def ToStruct_def WASMPluginFromStruct_def example_wasm_codec_def)

theorem Reconcile_succeeds_witness:
  "\<exists>w'. rlp_Reconcile cluster_env (ObjectKey ''default'' ''rlp'') example_cluster = (Inr result_ok, w')"
proof -
  have ready: "limitador_ready cluster_env (cluster_view example_cluster)"
    by (simp add: limitador_ready_def go_eval limitadorKey_def list_view_def)
      (simp add: cluster_env_def example_limitador_def example_condition_def new_object_def k8s_object.defs)
  have plugins: "plugins_readable cluster_env (cluster_view example_cluster)"
    by (simp add: plugins_readable_def go_eval list_view_def)
  have policy: "sn_RLPs (cluster_view example_cluster) (ObjectKey ''default'' ''rlp'') = Some route_policy"
    by (simp add: go_eval list_view_def)
  show ?thesis
    by (rule Reconcile_succeeds[OF cluster_env_api cluster_env_responds cluster_env_codecs ready plugins policy live_example
          example_serviceable targeted_example])
qed

end
