(* ===== verification/Consistency.thy ===== *)
theory Consistency
  imports Progress
begin

text \<open>
  The invariant of the whole cluster that reconciliations of RateLimitPolicies establish: every
  gateway has exactly the limits, the plugin and the filter that its own references call for.
\<close>

section \<open>Consistent gateways\<close>

definition limits_as_wanted :: "'w env \<Rightarrow> snapshot \<Rightarrow> gateway \<Rightarrow> bool" where
  "limits_as_wanted c s gw \<longleftrightarrow>
     (\<exists>g prs lim. resolve c s (refs_of (lib_Json c) (Some gw)) = Some (g, prs) \<and>
        sn_Limitadors s (limitadorKey c) = Some lim \<and>
        (\<forall>d. mset (limits_named (lim_Limits lim) (ObjectKeyFromObject gw) d) =
           mset (gateway_limits_at (Some gw) g prs d)))"

definition gateway_consistent :: "'w env \<Rightarrow> snapshot \<Rightarrow> gateway \<Rightarrow> bool" where
  "gateway_consistent c s gw \<longleftrightarrow>
     (let refs = refs_of (lib_Json c) (Some gw) in
      limits_as_wanted c s gw \<and>
      plugin_as_wanted c s (gw, refs) (sn_WasmPlugins s (plugin_key gw)) \<and>
      filter_as_wanted c s (gw, refs) (sn_EnvoyFilters s (filter_key gw)))"

section \<open>What the steps leave alone\<close>

lemma forE_frame:
  assumes "forE f xs w = (Inr (), w')" "\<And>x w w'. x \<in> set xs \<Longrightarrow> f x w = (Inr (), w') \<Longrightarrow> F w' = F w"
  shows "F w' = F w"
  using assms
proof (induction xs arbitrary: w)
  case (Cons x xs)
  then obtain w1 where "f x w = (Inr (), w1)" "forE f xs w1 = (Inr (), w')"
    by (auto elim!: bindE_InrE)
  with Cons show ?case by (metis list.set_intros)
qed simp

lemma plugins_elsewhere:
  assumes "cluster_api c V" "reconcileWASMPluginConf c rlp diff w = (Inr (), w')"
    and "k \<notin> (plugin_key \<circ> fst) ` set (plugin_work (lib_Json c) rlp diff)"
  shows "sn_WasmPlugins (V w') k = sn_WasmPlugins (V w) k"
proof (rule forE_frame[OF assms(2)[unfolded reconcileWASMPluginConf_alt], where F = "\<lambda>w. sn_WasmPlugins (V w) k"])
  fix gr w1 w2
  assume "gr \<in> set (plugin_work (lib_Json c) rlp diff)" "reconcile_plugin c (fst gr) (snd gr) w1 = (Inr (), w2)"
  with reconcile_plugin_run[OF assms(1) this(2)] assms(3) show "sn_WasmPlugins (V w2) k = sn_WasmPlugins (V w1) k"
    by force
qed

lemma filters_elsewhere:
  assumes "cluster_api c V" "reconcileRateLimitingClusterEnvoyFilter c rlp diff w = (Inr (), w')"
    and "k \<notin> (filter_key \<circ> fst) ` set (filter_work (lib_Json c) rlp diff)"
  shows "sn_EnvoyFilters (V w') k = sn_EnvoyFilters (V w) k"
proof (rule forE_frame[OF assms(2)[unfolded reconcileEnvoyFilter_alt], where F = "\<lambda>w. sn_EnvoyFilters (V w) k"])
  fix gr w1 w2
  assume "gr \<in> set (filter_work (lib_Json c) rlp diff)" "reconcile_filter c (fst gr) (snd gr) w1 = (Inr (), w2)"
  with reconcile_filter_run[OF assms(1) this(2)] assms(3) show "sn_EnvoyFilters (V w2) k = sn_EnvoyFilters (V w1) k"
    by force
qed

lemma reconcileLimits_keeps_status:
  assumes "cluster_api c V" "reconcileLimits c rlp diff w = (Inr (), w')"
    and "distinct (map ObjectKeyFromObject (gd_SameGateways diff @ gd_NewGateways diff))"
  shows "map_option lim_Status (sn_Limitadors (V w') (limitadorKey c)) =
    map_option lim_Status (sn_Limitadors (V w) (limitadorKey c))"
proof (rule store_Get_cases[OF cluster_store(5)[OF assms(1)], where w = w and k = "limitadorKey c"])
  fix e assume "api_Get (cl_Limitadors c) (limitadorKey c) w = (Inl e, w)"
  with assms(2) show ?thesis by (simp add: reconcileLimits_alt)
next
  fix lim assume lim: "(sn_Limitadors \<circ> V) w (limitadorKey c) = Some lim"
    and key: "ObjectKeyFromObject lim = limitadorKey c"
    and get: "api_Get (cl_Limitadors c) (limitadorKey c) w = (Inr lim, w)"
  have api: "kind_api V sn_Limitadors (sn_Limitadors_update (\<lambda>_. Map.empty)) (cl_Limitadors c)"
    using assms(1) by (simp add: cluster_api_def)
  obtain idx where "recompute_index c rlp diff lim w = (Inr idx, w)"
    using recompute_index_run[OF assms(1,3), where w = w and rlp = rlp and lim = lim] assms(2)
    by (auto simp: reconcileLimits_alt get split: if_splits)
  with assms(2) get consider "w' = w"
    | ls lim' where "api_Update (cl_Limitadors c) (lim\<lparr>lim_Limits := ls\<rparr>) w = (Inr lim', w')"
    by (auto simp: reconcileLimits_alt UpdateResource_def bindE_def split: if_splits prod.splits sum.splits)
  then show ?thesis
  proof cases
    case (2 ls lim')
    note u = kind_update[OF api 2]
    have "lim_Status lim' = lim_Status lim"
      using arg_cong[OF u(1)[unfolded content_eq_def], of lim_Status] by simp
    with u(2) lim key show ?thesis by (simp add: ObjectKeyFromObject_def)
  qed simp
qed

section \<open>How a gateway becomes consistent, and how it stays so\<close>

lemma limits_as_wantedI:
  assumes "same_config gw' gw" "refs_of (lib_Json c) (Some gw') = refs" "refs \<noteq> []"
    and plugin: "plugin_as_wanted c s (gw, refs) p"
    and lim: "sn_Limitadors s (limitadorKey c) = Some lim"
    and bags: "\<And>d. mset (limits_named (lim_Limits lim) (ObjectKeyFromObject gw) d) = mset (limits_for c s (gw, refs) d)"
  shows "limits_as_wanted c s gw'"
proof -
  from plugin assms(3) obtain g prs where res: "resolve c s refs = Some (g, prs)"
    by (auto simp: plugin_as_wanted_def)
  have key: "ObjectKeyFromObject gw' = ObjectKeyFromObject gw" and hosts: "Hostnames (Some gw') = Hostnames (Some gw)"
    using assms(1) by (simp_all add: same_config_def)
  have "gateway_limits_at (Some gw') g prs = gateway_limits_at (Some gw) g prs"
    unfolding gateway_limits_at_def hosts by (rule refl)
  with bags lim res show ?thesis
    by (simp add: limits_as_wanted_def assms(2) key limits_for_def)
qed

lemma gateway_consistent_kept:
  assumes "gateway_consistent c s gw" "sn_RLPs s' = sn_RLPs s" "sn_HTTPRoutes s' = sn_HTTPRoutes s"
    and "sn_WasmPlugins s' (plugin_key gw) = sn_WasmPlugins s (plugin_key gw)"
    and "sn_EnvoyFilters s' (filter_key gw) = sn_EnvoyFilters s (filter_key gw)"
    and status: "map_option lim_Status (sn_Limitadors s' (limitadorKey c)) = map_option lim_Status (sn_Limitadors s (limitadorKey c))"
    and lims: "sn_Limitadors s (limitadorKey c) = Some lim" "sn_Limitadors s' (limitadorKey c) = Some lim'"
    and bags: "\<And>d. mset (limits_named (lim_Limits lim') (ObjectKeyFromObject gw) d) =
      mset (limits_named (lim_Limits lim) (ObjectKeyFromObject gw) d)"
  shows "gateway_consistent c s' gw"
proof -
  have res: "resolve c s' refs = resolve c s refs" for refs by (rule resolve_cong[OF assms(2,3)])
  have "limits_as_wanted c s' gw"
    using assms(1) lims bags by (auto simp: gateway_consistent_def limits_as_wanted_def res Let_def)
  then show ?thesis
    using assms(1,4,5)
    by (simp add: gateway_consistent_def Let_def plugin_as_wanted_cong[OF assms(2,3)] filter_as_wanted_status[OF status])
qed

text \<open>The claim of a target keeps gateways consistent.\<close>

lemma gateway_consistent_retargeted:
  assumes "retargeted ann s s'" "ann \<noteq> KuadrantRateLimitPolicyRefAnnotation" "reannotated ann gw gw'"
    and "gateway_consistent c s gw"
  shows "gateway_consistent c s' gw'"
proof -
  note sel = retargeted_sel[OF assms(1)] and conf = reannotated_gateway(1)[OF assms(3)]
  have refs: "refs_of (lib_Json c) (Some gw') = refs_of (lib_Json c) (Some gw)"
    by (rule reannotated_gateway(2)[OF assms(3,2)])
  have key: "ObjectKeyFromObject gw' = ObjectKeyFromObject gw" and hosts: "Hostnames (Some gw') = Hostnames (Some gw)"
    using conf by (simp_all add: same_config_def)
  from assms(4) obtain g prs lim where limits: "resolve c s (refs_of (lib_Json c) (Some gw)) = Some (g, prs)"
    "sn_Limitadors s (limitadorKey c) = Some lim"
    "\<And>d. mset (limits_named (lim_Limits lim) (ObjectKeyFromObject gw) d) = mset (gateway_limits_at (Some gw) g prs d)"
    by (auto simp: gateway_consistent_def limits_as_wanted_def Let_def)
  from resolve_retargeted[OF assms(1) limits(1)] obtain prs' where
    prs': "resolve c s' (refs_of (lib_Json c) (Some gw)) = Some (g, prs')" "same_routes ann prs prs'" by blast
  have "concat (map (\<lambda>(p, r). concat (replicate (count_list (rt_Hostnames r) d) (mergeLimits p g))) prs') =
      concat (map (\<lambda>(p, r). concat (replicate (count_list (rt_Hostnames r) d) (mergeLimits p g))) prs)" for d
    using prs'(2) unfolding same_routes_def
    by (induction rule: list_all2_induct) (auto simp: reannotated_route split: prod.splits)
  then have "gateway_limits_at (Some gw') g prs' = gateway_limits_at (Some gw) g prs"
    unfolding gateway_limits_at_def hosts by simp
  with limits prs'(1) have "limits_as_wanted c s' gw'"
    by (simp add: limits_as_wanted_def refs key sel(3))
  with assms(4) wanted_retargeted(1)[OF assms(1), of c] show ?thesis
    by (simp add: gateway_consistent_def Let_def refs same_config_wanted[OF conf] sel(4,5)
        wanted_retargeted(2)[OF assms(1)])
qed

section \<open>A reconciliation makes the gateways consistent\<close>

text \<open>The gateways of a diff, found again in what the run works on.\<close>

lemma find_recomputed:
  assumes "distinct (map ObjectKeyFromObject (gd_SameGateways diff @ gd_NewGateways diff))"
    and "(gw, refs) \<in> set (recomputed J rlp diff)"
  shows "find (\<lambda>gr. ObjectKeyFromObject (fst gr) = ObjectKeyFromObject gw) (recomputed J rlp diff) = Some (gw, refs)"
proof -
  have "map (\<lambda>gr. ObjectKeyFromObject (fst gr)) (recomputed J rlp diff) =
      map ObjectKeyFromObject (gd_SameGateways diff @ gd_NewGateways diff)"
    by (simp add: recomputed_def)
  then have "distinct (map (\<lambda>gr. ObjectKeyFromObject (fst gr)) (recomputed J rlp diff))"
    using assms(1) by (simp only:)
  from find_distinct_key[OF this assms(2)] show ?thesis by simp
qed

lemma work_keys:
  "plugin_key gw \<in> (plugin_key \<circ> fst) ` set (plugin_work J rlp diff) \<longleftrightarrow>
     ObjectKeyFromObject gw \<in> ObjectKeyFromObject ` set (gd_LeftGateways diff @ gd_SameGateways diff @ gd_NewGateways diff)"
  "filter_key gw \<in> (filter_key \<circ> fst) ` set (filter_work J rlp diff) \<longleftrightarrow>
     ObjectKeyFromObject gw \<in> ObjectKeyFromObject ` set (gd_LeftGateways diff @ gd_NewGateways diff)"
proof -
  have inj: "rename_key p a = rename_key p b \<longleftrightarrow> a = b" for p a b
    by (auto simp: rename_key_def intro: object_key.expand)
  have renamed: "(rename_key p \<circ> ObjectKeyFromObject) gw \<in> (rename_key p \<circ> ObjectKeyFromObject) ` G \<longleftrightarrow>
      ObjectKeyFromObject gw \<in> ObjectKeyFromObject ` G" for p G
    by (auto simp: inj image_iff)
  have "(plugin_key \<circ> fst) ` set (plugin_work J rlp diff) =
      plugin_key ` set (gd_LeftGateways diff @ gd_SameGateways diff @ gd_NewGateways diff)"
    "(filter_key \<circ> fst) ` set (filter_work J rlp diff) = filter_key ` set (gd_LeftGateways diff @ gd_NewGateways diff)"
    by (simp_all add: plugin_work_def filter_work_def image_Un image_image)
  then show "plugin_key gw \<in> (plugin_key \<circ> fst) ` set (plugin_work J rlp diff) \<longleftrightarrow>
     ObjectKeyFromObject gw \<in> ObjectKeyFromObject ` set (gd_LeftGateways diff @ gd_SameGateways diff @ gd_NewGateways diff)"
    "filter_key gw \<in> (filter_key \<circ> fst) ` set (filter_work J rlp diff) \<longleftrightarrow>
     ObjectKeyFromObject gw \<in> ObjectKeyFromObject ` set (gd_LeftGateways diff @ gd_NewGateways diff)"
    by (simp_all only: plugin_key_rename filter_key_rename renamed)
qed

text \<open>A successful run of the four steps, with everything it leaves.\<close>

lemma reconcileGatewayDiffs_steps:
  assumes "cluster_api c V"
    and names: "\<And>diff. computeGatewayDiffs c rlp w = (Inr diff, w) \<Longrightarrow> names_ok c (V w) rlp diff"
    and keys: "TargetedGatewayKeys c (rlp_TargetRef rlp) (obj_Namespace rlp) w = (Inr keys, w)"
    and run: "reconcileGatewayDiffs c rlp w = (Inr u, w')"
  obtains gws diff lim lim' where
    "distinct (map ObjectKeyFromObject gws)" "\<And>k. sn_Gateways (V w) k = find (\<lambda>g. ObjectKeyFromObject g = k) gws"
    "diff = \<lparr>gd_NewGateways = NewGateways (lib_Json c) gws (ObjectKeyFromObject rlp) keys,
       gd_SameGateways = SameGateways (lib_Json c) gws (ObjectKeyFromObject rlp) keys,
       gd_LeftGateways = LeftGateways (lib_Json c) gws (ObjectKeyFromObject rlp) keys\<rparr>"
    "sn_Limitadors (V w) (limitadorKey c) = Some lim" "sn_Limitadors (V w') (limitadorKey c) = Some lim'"
    "lim_Status lim' = lim_Status lim"
    "\<And>k d. mset (limits_named (lim_Limits lim') k d) = mset (limits_after c (V w) rlp diff (limits_named (lim_Limits lim)) k d)"
    "\<And>gr. gr \<in> set (plugin_work (lib_Json c) rlp diff) \<Longrightarrow>
       plugin_as_wanted c (V w') gr (sn_WasmPlugins (V w') (plugin_key (fst gr)))"
    "\<And>gr. gr \<in> set (filter_work (lib_Json c) rlp diff) \<Longrightarrow>
       filter_as_wanted c (V w') gr (sn_EnvoyFilters (V w') (filter_key (fst gr)))"
    "\<And>k. k \<notin> (plugin_key \<circ> fst) ` set (plugin_work (lib_Json c) rlp diff) \<Longrightarrow>
       sn_WasmPlugins (V w') k = sn_WasmPlugins (V w) k"
    "\<And>k. k \<notin> (filter_key \<circ> fst) ` set (filter_work (lib_Json c) rlp diff) \<Longrightarrow>
       sn_EnvoyFilters (V w') k = sn_EnvoyFilters (V w) k"
    "sn_RLPs (V w') = sn_RLPs (V w)" "sn_HTTPRoutes (V w') = sn_HTTPRoutes (V w)"
    "\<And>k. k \<notin> (ObjectKeyFromObject \<circ> fst) ` set (reference_work (lib_Json c) rlp diff) \<Longrightarrow>
       sn_Gateways (V w') k = sn_Gateways (V w) k"
    "\<And>job. job \<in> set (reference_work (lib_Json c) rlp diff) \<Longrightarrow> job_done job (V w')"
proof -
  let ?J = "lib_Json c" and ?rk = "ObjectKeyFromObject rlp"
  from run obtain diff w0 w1 w2 w3 diff' where steps:
    "computeGatewayDiffs c rlp w = (Inr diff, w0)" "reconcileLimits c rlp diff w0 = (Inr (), w1)"
    "reconcileRateLimitingClusterEnvoyFilter c rlp diff w1 = (Inr (), w2)"
    "reconcileWASMPluginConf c rlp diff w2 = (Inr (), w3)"
    "reconcileGatewayRLPReferences c rlp diff w3 = (Inr diff', w')"
    by (auto simp: reconcileGatewayDiffs_def elim!: bindE_InrE)
  from computeGatewayDiffs_run(1)[OF assms(1) steps(1)] have w0: "w0 = w" .
  with computeGatewayDiffs_run(2)[OF assms(1) steps(1)] keys obtain gws where
    gws: "distinct (map ObjectKeyFromObject gws)" "\<And>k. sn_Gateways (V w) k = find (\<lambda>g. ObjectKeyFromObject g = k) gws"
    and diff: "diff = \<lparr>gd_NewGateways = NewGateways ?J gws ?rk keys, gd_SameGateways = SameGateways ?J gws ?rk keys,
       gd_LeftGateways = LeftGateways ?J gws ?rk keys\<rparr>"
    by auto
  have dist: "distinct (map ObjectKeyFromObject (gd_SameGateways diff @ gd_NewGateways diff @ gd_LeftGateways diff))"
    unfolding diff using groups_distinct[OF gws(1), of ?J ?rk keys] by (simp add: ac_simps)
  then have dist1: "distinct (map ObjectKeyFromObject (gd_SameGateways diff @ gd_NewGateways diff))"
    and dist2: "distinct (map ObjectKeyFromObject (gd_LeftGateways diff @ gd_NewGateways diff))" by auto
  have nm: "names_ok c (V w) rlp diff" using names steps(1) w0 by simp
  note limits = steps(2)[unfolded w0]
  note conf = configured_steps[OF assms(1) dist nm limits steps(3,4)]
  note status = reconcileLimits_keeps_status[OF assms(1) limits dist1]
  have f1: "V w1\<lparr>sn_Limitadors := Map.empty\<rparr> = V w\<lparr>sn_Limitadors := Map.empty\<rparr>"
    using reconcileLimits_run[OF assms(1) limits dist1 nm] by simp
  have f2: "V w2\<lparr>sn_EnvoyFilters := Map.empty\<rparr> = V w1\<lparr>sn_EnvoyFilters := Map.empty\<rparr>"
    using reconcileEnvoyFilter_run[OF assms(1) steps(3) work_distinct(2)[OF dist]] by simp
  have f3: "V w3\<lparr>sn_WasmPlugins := Map.empty\<rparr> = V w2\<lparr>sn_WasmPlugins := Map.empty\<rparr>"
    using reconcileWASMPluginConf_run[OF assms(1) steps(4) work_distinct(1)[OF dist]] by simp
  have stored: "list_all (\<lambda>gw. sn_Gateways (V w3) (ObjectKeyFromObject gw) = Some gw) (gd_LeftGateways diff @ gd_NewGateways diff)"
    using find_distinct_key[OF gws(1)]
    by (auto simp: conf(2) gws(2) diff list_all_iff LeftGateways_def NewGateways_def)
  note refs = reconcileReferences_run[OF assms(1) steps(5) dist2 stored]
  have f4: "V w'\<lparr>sn_Gateways := Map.empty\<rparr> = V w3\<lparr>sn_Gateways := Map.empty\<rparr>"
    using refs by (simp add: jobs_running_def)
  have same: "sn_Limitadors (V w') = sn_Limitadors (V w1)" "sn_EnvoyFilters (V w') = sn_EnvoyFilters (V w2)"
    "sn_EnvoyFilters (V w1) = sn_EnvoyFilters (V w)" "sn_WasmPlugins (V w') = sn_WasmPlugins (V w3)"
    "sn_WasmPlugins (V w2) = sn_WasmPlugins (V w)" "sn_RLPs (V w') = sn_RLPs (V w)" "sn_HTTPRoutes (V w') = sn_HTTPRoutes (V w)"
    using f1 f2 f3 f4 by (cases "V w"; cases "V w1"; cases "V w2"; cases "V w3"; cases "V w'"; simp)+
  have conf': "configured c rlp diff (V w) (V w')" using conf(1) by (simp add: configured_cong[OF f4])
  then obtain lim lim' where lims: "sn_Limitadors (V w) (limitadorKey c) = Some lim"
    "sn_Limitadors (V w') (limitadorKey c) = Some lim'"
    "\<And>k d. mset (limits_named (lim_Limits lim') k d) = mset (limits_after c (V w) rlp diff (limits_named (lim_Limits lim)) k d)"
    unfolding configured_def by blast
  show thesis
  proof (rule that[OF gws diff lims(1,2) _ lims(3)])
    show "lim_Status lim' = lim_Status lim" using status lims(1,2) same(1) by simp
    show "plugin_as_wanted c (V w') gr (sn_WasmPlugins (V w') (plugin_key (fst gr)))"
      if "gr \<in> set (plugin_work ?J rlp diff)" for gr
      using conf' that unfolding configured_def by blast
    show "filter_as_wanted c (V w') gr (sn_EnvoyFilters (V w') (filter_key (fst gr)))"
      if "gr \<in> set (filter_work ?J rlp diff)" for gr
      using conf' that unfolding configured_def by blast
    show "sn_WasmPlugins (V w') k = sn_WasmPlugins (V w) k"
      if "k \<notin> (plugin_key \<circ> fst) ` set (plugin_work ?J rlp diff)" for k
      using plugins_elsewhere[OF assms(1) steps(4) that] same by simp
    show "sn_EnvoyFilters (V w') k = sn_EnvoyFilters (V w) k"
      if "k \<notin> (filter_key \<circ> fst) ` set (filter_work ?J rlp diff)" for k
      using filters_elsewhere[OF assms(1) steps(3) that] same by simp
    show "sn_Gateways (V w') k = sn_Gateways (V w) k"
      if "k \<notin> (ObjectKeyFromObject \<circ> fst) ` set (reference_work ?J rlp diff)" for k
      using refs that conf(2) by (simp add: jobs_running_def)
  qed (use refs same in simp_all)
qed

text \<open>A gateway that got a reference.\<close>

lemma added_reference:
  assumes "refs_json J ok" "ok k" "refs_readable J (Some gw)" "k \<notin> set (refs_of J (Some gw))"
    and "content_eq gw' (the (snd (AddRLP J k (Some gw))))"
  shows "same_config gw' gw" "refs_of J (Some gw') = refs_of J (Some gw) @ [k]"
proof -
  show "same_config gw' gw" by (rule reannotated_gateway(1)[OF job_reannotated(1)[OF assms(5)]])
  obtain y where y: "snd (AddRLP J k (Some gw)) = Some y"
    using AddRLP_job[of gw J k] by (auto simp: job_ok_def split: prod.splits)
  then show "refs_of J (Some gw') = refs_of J (Some gw) @ [k]"
    using refs_json.AddRLP_refs[OF assms(1,3,2)] assms(4,5) content_eq_refs[of gw' y J] by simp
qed

text \<open>
  A gateway of the target after the run has the limits and the plugin its references call for. It
  has the filter too, if the reference is new; else the run left the gateway and its filter alone.
\<close>

lemma targeted_gateway_configured:
  assumes "cluster_api c V" "refs_json (lib_Json c) ok" "ok (ObjectKeyFromObject rlp)" "refs_sound (lib_Json c) (V w)"
    and names: "\<And>diff. computeGatewayDiffs c rlp w = (Inr diff, w) \<Longrightarrow> names_ok c (V w) rlp diff"
    and keys: "TargetedGatewayKeys c (rlp_TargetRef rlp) (obj_Namespace rlp) w = (Inr keys, w)"
    and run: "reconcileGatewayDiffs c rlp w = (Inr u, w')"
    and gw': "sn_Gateways (V w') k = Some gw'" "k \<in> set keys" "refs = refs_of (lib_Json c) (Some gw')"
  shows "limits_as_wanted c (V w') gw'"
    and "plugin_as_wanted c (V w') (gw', refs) (sn_WasmPlugins (V w') (plugin_key gw'))"
    and "filter_as_wanted c (V w') (gw', refs) (sn_EnvoyFilters (V w') (filter_key gw')) \<or>
      sn_Gateways (V w) k = Some gw' \<and> ObjectKeyFromObject rlp \<in> set refs \<and>
      sn_EnvoyFilters (V w') (filter_key gw') = sn_EnvoyFilters (V w) (filter_key gw')"
proof -
  let ?J = "lib_Json c" and ?rk = "ObjectKeyFromObject rlp"
  let ?filter = "filter_as_wanted c (V w') (gw', refs) (sn_EnvoyFilters (V w') (filter_key gw')) \<or>
      sn_Gateways (V w) k = Some gw' \<and> ?rk \<in> set refs \<and>
      sn_EnvoyFilters (V w') (filter_key gw') = sn_EnvoyFilters (V w) (filter_key gw')"
  have "limits_as_wanted c (V w') gw' \<and> plugin_as_wanted c (V w') (gw', refs) (sn_WasmPlugins (V w') (plugin_key gw')) \<and> ?filter"
  proof (rule reconcileGatewayDiffs_steps[OF assms(1) names keys run])
    fix gws diff lim lim'
    assume gws: "distinct (map ObjectKeyFromObject gws)" "\<And>k. sn_Gateways (V w) k = find (\<lambda>g. ObjectKeyFromObject g = k) gws"
      and diff: "diff = \<lparr>gd_NewGateways = NewGateways ?J gws ?rk keys, gd_SameGateways = SameGateways ?J gws ?rk keys,
         gd_LeftGateways = LeftGateways ?J gws ?rk keys\<rparr>"
      and lim': "sn_Limitadors (V w') (limitadorKey c) = Some lim'"
      and bags: "\<And>k d. mset (limits_named (lim_Limits lim') k d) = mset (limits_after c (V w) rlp diff (limits_named (lim_Limits lim)) k d)"
      and plugins: "\<And>gr. gr \<in> set (plugin_work ?J rlp diff) \<Longrightarrow>
         plugin_as_wanted c (V w') gr (sn_WasmPlugins (V w') (plugin_key (fst gr)))"
      and filters: "\<And>gr. gr \<in> set (filter_work ?J rlp diff) \<Longrightarrow>
         filter_as_wanted c (V w') gr (sn_EnvoyFilters (V w') (filter_key (fst gr)))"
      and filters0: "\<And>k. k \<notin> (filter_key \<circ> fst) ` set (filter_work ?J rlp diff) \<Longrightarrow> sn_EnvoyFilters (V w') k = sn_EnvoyFilters (V w) k"
      and same: "sn_RLPs (V w') = sn_RLPs (V w)" "sn_HTTPRoutes (V w') = sn_HTTPRoutes (V w)"
      and gateways0: "\<And>k. k \<notin> (ObjectKeyFromObject \<circ> fst) ` set (reference_work ?J rlp diff) \<Longrightarrow> sn_Gateways (V w') k = sn_Gateways (V w) k"
      and jobs: "\<And>job. job \<in> set (reference_work ?J rlp diff) \<Longrightarrow> job_done job (V w')"
    have dist: "distinct (map ObjectKeyFromObject (gd_SameGateways diff @ gd_NewGateways diff))"
      using groups_distinct[OF gws(1), of ?J ?rk keys] by (auto simp: diff)
    have limits_for: "limits_for c (V w') gr = limits_for c (V w) gr" for gr
      by (rule ext) (simp add: limits_for_def resolve_cong[OF same])
    have anew: "mset (limits_named (lim_Limits lim') (ObjectKeyFromObject gw) d) = mset (limits_for c (V w') (gw, rs) d)"
      if "(gw, rs) \<in> set (recomputed ?J rlp diff)" for gw rs d
      by (simp add: bags limits_after_def find_recomputed[OF dist that] limits_for)
    have not_left: "k \<notin> ObjectKeyFromObject ` set (gd_LeftGateways diff)"
      using gw'(2) by (auto simp: diff LeftGateways_def ContainsObjectKey_iff)
    show "limits_as_wanted c (V w') gw' \<and> plugin_as_wanted c (V w') (gw', refs) (sn_WasmPlugins (V w') (plugin_key gw')) \<and> ?filter"
    proof (cases "k \<in> ObjectKeyFromObject ` set (gd_NewGateways diff)")
      case True
      then obtain gw where gw: "gw \<in> set (gd_NewGateways diff)" "ObjectKeyFromObject gw = k" by auto
      then have "job_done (gw, AddRLP ?J ?rk (Some gw)) (V w')" by (intro jobs) (simp add: reference_work_def)
      with gw'(1) gw(2) have eq: "content_eq gw' (the (snd (AddRLP ?J ?rk (Some gw))))"
        by (auto simp: job_done_def split: prod.splits)
      have "sn_Gateways (V w) (ObjectKeyFromObject gw) = Some gw" "?rk \<notin> set (refs_of ?J (Some gw))"
        using gw(1) gws(2) find_distinct_key[OF gws(1)] by (auto simp: diff NewGateways_def ContainsRLP_refs ContainsObjectKey_iff)
      with assms(4) have conf: "same_config gw' gw" and added: "refs = refs_of ?J (Some gw) @ [?rk]"
        and joined: "refs_with (refs_of ?J (Some gw)) ?rk = refs"
        using added_reference[OF assms(2,3) _ _ eq] gw'(3) by (auto simp: refs_sound_def refs_with_alt)
      have plugin: "plugin_as_wanted c (V w') (gw, refs) (sn_WasmPlugins (V w') (plugin_key gw))"
        using plugins[of "(gw, refs)"] gw(1) joined by (force simp: plugin_work_def)
      moreover have "filter_as_wanted c (V w') (gw, refs) (sn_EnvoyFilters (V w') (filter_key gw))"
        using filters[of "(gw, refs)"] gw(1) joined by (force simp: filter_work_def)
      moreover have "limits_as_wanted c (V w') gw'"
        by (rule limits_as_wantedI[OF conf gw'(3)[symmetric] _ plugin lim' anew])
          (use gw(1) added in \<open>simp_all add: recomputed_def\<close>)
      ultimately show ?thesis by (simp add: same_config_wanted[OF conf])
    next
      case False
      with not_left have "k \<notin> (ObjectKeyFromObject \<circ> fst) ` set (reference_work ?J rlp diff)"
        by (auto simp: reference_work_def)
      with gateways0 gw'(1) have s: "sn_Gateways (V w) k = Some gw'" by simp
      with gws(2) have gw: "gw' \<in> set gws" "ObjectKeyFromObject gw' = k" by (auto simp: find_Some_iff)
      with False gw'(2,3) have rk: "?rk \<in> set refs"
        by (auto simp: diff NewGateways_def ContainsRLP_refs ContainsObjectKey_iff)
      with gw gw'(2,3) have "gw' \<in> set (gd_SameGateways diff)"
        by (simp add: diff SameGateways_def ContainsRLP_refs ContainsObjectKey_iff)
      then have work: "(gw', refs) \<in> set (plugin_work ?J rlp diff)" "(gw', refs) \<in> set (recomputed ?J rlp diff)"
        using gw'(3) by (simp_all add: plugin_work_def recomputed_def)
      have plugin: "plugin_as_wanted c (V w') (gw', refs) (sn_WasmPlugins (V w') (plugin_key gw'))"
        using plugins[OF work(1)] by simp
      moreover have "limits_as_wanted c (V w') gw'"
        by (rule limits_as_wantedI[OF _ gw'(3)[symmetric] _ plugin lim' anew[OF work(2)]])
          (use rk in \<open>auto simp: same_config_def\<close>)
      moreover have "sn_EnvoyFilters (V w') (filter_key gw') = sn_EnvoyFilters (V w) (filter_key gw')"
        using not_left False gw(2) by (intro filters0) (unfold work_keys, auto)
      ultimately show ?thesis using s rk by blast
    qed
  qed
  then show "limits_as_wanted c (V w') gw'" "plugin_as_wanted c (V w') (gw', refs) (sn_WasmPlugins (V w') (plugin_key gw'))" ?filter
    by blast+
qed

text \<open>
  The gateways a policy concerns: the ones it targets may have any limits and plugins, since the run
  makes them anew, but the filter of those that refer to the policy already, which the run does not
  look at, is to be right. All other gateways are consistent and do not refer to the policy.
\<close>

definition others_consistent :: "'w env \<Rightarrow> snapshot \<Rightarrow> RateLimitPolicy \<Rightarrow> object_key list \<Rightarrow> bool" where
  "others_consistent c s rlp keys \<longleftrightarrow> (\<forall>k gw. sn_Gateways s k = Some gw \<longrightarrow>
     (let refs = refs_of (lib_Json c) (Some gw) in
      if k \<in> set keys
      then ObjectKeyFromObject rlp \<in> set refs \<longrightarrow>
        filter_as_wanted c s (gw, refs) (sn_EnvoyFilters s (filter_key gw))
      else ObjectKeyFromObject rlp \<notin> set refs \<and> gateway_consistent c s gw))"

lemma reconcileGatewayDiffs_consistent:
  assumes "cluster_api c V" "refs_json (lib_Json c) ok" "ok (ObjectKeyFromObject rlp)" "refs_sound (lib_Json c) (V w)"
    and names: "\<And>diff. computeGatewayDiffs c rlp w = (Inr diff, w) \<Longrightarrow> names_ok c (V w) rlp diff"
    and keys: "TargetedGatewayKeys c (rlp_TargetRef rlp) (obj_Namespace rlp) w = (Inr keys, w)"
    and others: "others_consistent c (V w) rlp keys"
    and run: "reconcileGatewayDiffs c rlp w = (Inr u, w')"
    and gw': "sn_Gateways (V w') k = Some gw'"
  shows "gateway_consistent c (V w') gw'"
proof (rule reconcileGatewayDiffs_steps[OF assms(1) names keys run])
  let ?J = "lib_Json c" and ?rk = "ObjectKeyFromObject rlp"
  fix gws diff lim lim'
  assume gws: "distinct (map ObjectKeyFromObject gws)" "\<And>k. sn_Gateways (V w) k = find (\<lambda>g. ObjectKeyFromObject g = k) gws"
    and diff: "diff = \<lparr>gd_NewGateways = NewGateways ?J gws ?rk keys, gd_SameGateways = SameGateways ?J gws ?rk keys,
       gd_LeftGateways = LeftGateways ?J gws ?rk keys\<rparr>"
    and lims: "sn_Limitadors (V w) (limitadorKey c) = Some lim" "sn_Limitadors (V w') (limitadorKey c) = Some lim'"
    and status: "lim_Status lim' = lim_Status lim"
    and bags: "\<And>k d. mset (limits_named (lim_Limits lim') k d) = mset (limits_after c (V w) rlp diff (limits_named (lim_Limits lim)) k d)"
    and plugins0: "\<And>k. k \<notin> (plugin_key \<circ> fst) ` set (plugin_work ?J rlp diff) \<Longrightarrow> sn_WasmPlugins (V w') k = sn_WasmPlugins (V w) k"
    and filters0: "\<And>k. k \<notin> (filter_key \<circ> fst) ` set (filter_work ?J rlp diff) \<Longrightarrow> sn_EnvoyFilters (V w') k = sn_EnvoyFilters (V w) k"
    and same: "sn_RLPs (V w') = sn_RLPs (V w)" "sn_HTTPRoutes (V w') = sn_HTTPRoutes (V w)"
    and gateways0: "\<And>k. k \<notin> (ObjectKeyFromObject \<circ> fst) ` set (reference_work ?J rlp diff) \<Longrightarrow> sn_Gateways (V w') k = sn_Gateways (V w) k"
  have at: "sn_Gateways (V w) (ObjectKeyFromObject gw) = Some gw" if "gw \<in> set gws" for gw
    using gws(2) find_distinct_key[OF gws(1) that] by simp
  have left: "gd_LeftGateways diff = []"
  proof -
    have "ObjectKeyFromObject gw \<in> set keys" if "gw \<in> set gws" "?rk \<in> set (refs_of ?J (Some gw))" for gw
      using others at[OF that(1)] that(2) unfolding others_consistent_def Let_def by (metis (full_types))
    then show ?thesis
      by (auto simp: diff LeftGateways_def filter_empty_conv ContainsRLP_refs ContainsObjectKey_iff)
  qed
  have new: "gd_NewGateways diff = filter (\<lambda>gw. ObjectKeyFromObject gw \<in> set keys \<and> ?rk \<notin> set (refs_of ?J (Some gw))) gws"
    and old: "gd_SameGateways diff = filter (\<lambda>gw. ObjectKeyFromObject gw \<in> set keys \<and> ?rk \<in> set (refs_of ?J (Some gw))) gws"
    by (simp_all add: diff NewGateways_def SameGateways_def ContainsRLP_refs ContainsObjectKey_iff conj_commute)
  have status': "map_option lim_Status (sn_Limitadors (V w') (limitadorKey c)) =
      map_option lim_Status (sn_Limitadors (V w) (limitadorKey c))"
    using lims status by simp
  show ?thesis
  proof (cases "k \<in> set keys")
    case True
    note conf = targeted_gateway_configured[OF assms(1-4) names keys run gw' True refl]
    have "filter_as_wanted c (V w') (gw', refs_of ?J (Some gw')) (sn_EnvoyFilters (V w') (filter_key gw'))"
      using conf(3)
    proof
      assume old: "sn_Gateways (V w) k = Some gw' \<and> ?rk \<in> set (refs_of ?J (Some gw')) \<and>
        sn_EnvoyFilters (V w') (filter_key gw') = sn_EnvoyFilters (V w) (filter_key gw')"
      with others True have "filter_as_wanted c (V w) (gw', refs_of ?J (Some gw')) (sn_EnvoyFilters (V w) (filter_key gw'))"
        unfolding others_consistent_def Let_def by (metis (full_types))
      with old show ?thesis by (simp add: filter_as_wanted_status[OF status'])
    qed
    with conf show ?thesis by (simp add: gateway_consistent_def Let_def)
  next
    case False
    then have no: "k \<notin> ObjectKeyFromObject ` set (gd_SameGateways diff @ gd_NewGateways diff)"
      by (auto simp: new old)
    then have "k \<notin> (ObjectKeyFromObject \<circ> fst) ` set (reference_work ?J rlp diff)"
      by (auto simp: reference_work_def left)
    with gateways0 gw' have s: "sn_Gateways (V w) k = Some gw'" by simp
    with gws(2) have gw: "ObjectKeyFromObject gw' = k" by (auto simp: find_Some_iff)
    have here: "gateway_consistent c (V w) gw'"
      using others s False unfolding others_consistent_def Let_def by (metis (full_types))
    have "find (\<lambda>gr. ObjectKeyFromObject (fst gr) = k) (recomputed ?J rlp diff) = None"
      using no by (auto simp: find_None_iff recomputed_def)
    then have old_bags: "mset (limits_named (lim_Limits lim') (ObjectKeyFromObject gw') d) =
        mset (limits_named (lim_Limits lim) (ObjectKeyFromObject gw') d)" for d
      by (simp add: bags limits_after_def gw left)
    have plg: "sn_WasmPlugins (V w') (plugin_key gw') = sn_WasmPlugins (V w) (plugin_key gw')"
      using no gw by (intro plugins0) (unfold work_keys, simp add: left)
    have flt: "sn_EnvoyFilters (V w') (filter_key gw') = sn_EnvoyFilters (V w) (filter_key gw')"
      using no gw by (intro filters0) (unfold work_keys, auto simp: left)
    show ?thesis by (rule gateway_consistent_kept[OF here same plg flt status' lims old_bags])
  qed
qed

lemma others_consistent_retargeted:
  assumes "retargeted ann s s'" "ann \<noteq> KuadrantRateLimitPolicyRefAnnotation" "others_consistent c s rlp keys"
  shows "others_consistent c s' rlp keys"
  unfolding others_consistent_def
proof (intro allI impI)
  fix k gw' assume "sn_Gateways s' k = Some gw'"
  moreover have "rel_option (reannotated ann) (sn_Gateways s k) (sn_Gateways s' k)"
    using assms(1) by (simp add: retargeted_def)
  ultimately obtain gw where gw: "sn_Gateways s k = Some gw" "reannotated ann gw gw'"
    by (auto elim: option.rel_cases)
  note refs = reannotated_gateway(2)[OF gw(2) assms(2)] and conf = same_config_wanted[OF reannotated_gateway(1)[OF gw(2)]]
  from assms(3) gw(1) have here: "let refs = refs_of (lib_Json c) (Some gw) in
      if k \<in> set keys then ObjectKeyFromObject rlp \<in> set refs \<longrightarrow>
        filter_as_wanted c s (gw, refs) (sn_EnvoyFilters s (filter_key gw))
      else ObjectKeyFromObject rlp \<notin> set refs \<and> gateway_consistent c s gw"
    unfolding others_consistent_def by blast
  show "let refs = refs_of (lib_Json c) (Some gw') in
      if k \<in> set keys then ObjectKeyFromObject rlp \<in> set refs \<longrightarrow>
        filter_as_wanted c s' (gw', refs) (sn_EnvoyFilters s' (filter_key gw'))
      else ObjectKeyFromObject rlp \<notin> set refs \<and> gateway_consistent c s' gw'"
    using here gateway_consistent_retargeted[OF assms(1,2) gw(2), of c]
    by (simp add: Let_def refs conf wanted_retargeted(2)[OF assms(1)] retargeted_sel(5)[OF assms(1)])
qed



end
