(* ===== verification/Reference_Bounds.thy ===== *)
theory Reference_Bounds
  imports Consistency
begin

text \<open>
  What every step of the reconciliation of a RateLimitPolicy, and of its clean-up, does to the
  references of all gateways, whatever its outcome: they stay within bounds (\<open>refs_within\<close>), here a
  relation that allows a gateway to refer to a policy. System takes for it that the policy is there
  and names the gateway.
\<close>

section \<open>What the references of the gateways may be\<close>

text \<open>\<open>A gk k\<close>: gateway \<open>gk\<close> may refer to policy \<open>k\<close>.\<close>

definition refs_within :: "json_codec \<Rightarrow> (object_key \<Rightarrow> object_key \<Rightarrow> bool) \<Rightarrow> snapshot \<Rightarrow> bool" where
  "refs_within J A s \<longleftrightarrow> (\<forall>gk gw. sn_Gateways s gk = Some gw \<longrightarrow>
     refs_readable J (Some gw) \<and> distinct (refs_of J (Some gw)) \<and> (\<forall>k \<in> set (refs_of J (Some gw)). A gk k))"

lemma refs_withinD:
  "refs_within J A s \<Longrightarrow> sn_Gateways s gk = Some gw \<Longrightarrow>
   refs_readable J (Some gw) \<and> distinct (refs_of J (Some gw)) \<and> (\<forall>k \<in> set (refs_of J (Some gw)). A gk k)"
  by (simp add: refs_within_def)

lemma refs_within_mono: "refs_within J A s \<Longrightarrow> (\<And>gk k. A gk k \<Longrightarrow> B gk k) \<Longrightarrow> refs_within J B s"
  by (auto simp: refs_within_def)

lemma refs_within_gateways: "sn_Gateways s' = sn_Gateways s \<Longrightarrow> refs_within J A s' = refs_within J A s"
  by (simp add: refs_within_def)

lemma refs_within_reannotated:
  assumes "\<And>k. rel_option (reannotated ann) (sn_Gateways s k) (sn_Gateways s' k)"
    and "ann \<noteq> KuadrantRateLimitPolicyRefAnnotation" "refs_within J A s"
  shows "refs_within J A s'"
  unfolding refs_within_def
proof (intro allI impI)
  fix gk gw assume "sn_Gateways s' gk = Some gw"
  with assms(1)[of gk] obtain x where "sn_Gateways s gk = Some x" "reannotated ann x gw"
    by (auto elim: option.rel_cases)
  with assms(2,3) show "refs_readable J (Some gw) \<and> distinct (refs_of J (Some gw)) \<and> (\<forall>k \<in> set (refs_of J (Some gw)). A gk k)"
    by (simp add: refs_within_def reannotated_gateway(2,3))
qed

lemma refs_within_job:
  assumes "cluster_api c V" "job_ok (gw, r)" "snd r = Some y"
    and "refs_readable J (Some y)" "distinct (refs_of J (Some y))"
    and "\<And>k. k \<in> set (refs_of J (Some y)) \<Longrightarrow> A (ObjectKeyFromObject gw) k"
  shows "preserves (\<lambda>w. refs_within J A (V w)) (update_if_changed c gw r)"
proof (rule preservesI)
  fix w r' w' assume within: "refs_within J A (V w)" and run: "update_if_changed c gw r w = (r', w')"
  have api: "kind_api V sn_Gateways (sn_Gateways_update (\<lambda>_. Map.empty)) (cl_Gateways c)"
    using assms(1) by (simp add: cluster_api_def)
  have key: "ObjectKeyFromObject y = ObjectKeyFromObject gw"
    using assms(2,3) by (cases r) (auto simp: job_ok_def)
  show "refs_within J A (V w')"
  proof (cases "fst r")
    case False
    with run assms(3) within show ?thesis by (cases r) (simp add: update_if_changed_def)
  next
    case True
    with run assms(3) have upd: "api_Update (cl_Gateways c) y w = (r', w')"
      by (cases r) (simp add: update_if_changed_def UpdateResource_def)
    show ?thesis
    proof (cases r')
      case (Inl e)
      with kind_failure(2)[OF api, of y w e w'] upd have "sn_Gateways (V w') = sn_Gateways (V w)" by simp
      from refs_within_gateways[OF this] within show ?thesis by simp
    next
      case (Inr gw')
      with kind_update[OF api, of y w gw' w'] upd have new: "content_eq gw' y"
        "sn_Gateways (V w') = (sn_Gateways (V w))(ObjectKeyFromObject gw \<mapsto> gw')"
        by (simp_all add: key)
      show ?thesis
        unfolding refs_within_def
      proof (intro allI impI)
        fix gk x assume x: "sn_Gateways (V w') gk = Some x"
        show "refs_readable J (Some x) \<and> distinct (refs_of J (Some x)) \<and> (\<forall>k \<in> set (refs_of J (Some x)). A gk k)"
        proof (cases "gk = ObjectKeyFromObject gw")
          case True
          with x new(2) have "x = gw'" by simp
          with assms(4-6) True show ?thesis
            by (simp add: content_eq_refs[OF new(1)] content_eq_readable[OF new(1)])
        next
          case False
          with x new(2) refs_withinD[OF within] show ?thesis by simp
        qed
      qed
    qed
  qed
qed

text \<open>The gateways of a diff, as read: jobs on them keep the references within bounds.\<close>

lemma refs_within_delete:
  assumes "cluster_api c V" "refs_json J ok" "ok rk" "J = lib_Json c"
    and "refs_within J A s" "sn_Gateways s (ObjectKeyFromObject gw) = Some gw"
  shows "preserves (\<lambda>w. refs_within J A (V w)) (update_if_changed c gw (DeleteRLP J rk (Some gw)))"
proof -
  note gw = refs_withinD[OF assms(5,6)]
  from gw result_readable(1)[OF assms(2,3), of gw] obtain y where y: "snd (DeleteRLP J rk (Some gw)) = Some y"
    "refs_readable J (Some y)" "distinct (refs_of J (Some y))"
    by blast
  moreover have "set (refs_of J (Some y)) \<subseteq> set (refs_of J (Some gw))"
    using refs_json.DeleteRLP_refs[OF assms(2), of rk "Some gw"] y(1) set_remove1_subset[of rk] by simp
  ultimately show ?thesis
    using gw by (intro refs_within_job[OF assms(1) DeleteRLP_job]) auto
qed

lemma refs_within_add:
  assumes "cluster_api c V" "refs_json J ok" "ok rk" "J = lib_Json c"
    and "refs_within J A s" "sn_Gateways s (ObjectKeyFromObject gw) = Some gw" "A (ObjectKeyFromObject gw) rk"
  shows "preserves (\<lambda>w. refs_within J A (V w)) (update_if_changed c gw (AddRLP J rk (Some gw)))"
proof -
  note gw = refs_withinD[OF assms(5,6)]
  from gw result_readable(2)[OF assms(2,3), of gw] obtain y where y: "snd (AddRLP J rk (Some gw)) = Some y"
    "refs_readable J (Some y)" "distinct (refs_of J (Some y))"
    by blast
  moreover have "set (refs_of J (Some y)) = insert rk (set (refs_of J (Some gw)))"
    using refs_json.set_AddRLP[OF assms(2) _ assms(3), of "Some gw"] gw y(1) by simp
  ultimately show ?thesis
    using gw assms(7) by (intro refs_within_job[OF assms(1) AddRLP_job]) auto
qed

lemma refs_within_references:
  assumes "cluster_api c V" "refs_json (lib_Json c) ok" "ok (ObjectKeyFromObject rlp)" "refs_within (lib_Json c) A s"
    and "\<And>gw. gw \<in> set (gd_LeftGateways diff @ gd_NewGateways diff) \<Longrightarrow> sn_Gateways s (ObjectKeyFromObject gw) = Some gw"
    and "\<And>gw. gw \<in> set (gd_NewGateways diff) \<Longrightarrow> A (ObjectKeyFromObject gw) (ObjectKeyFromObject rlp)"
  shows "preserves (\<lambda>w. refs_within (lib_Json c) A (V w)) (reconcileGatewayRLPReferences c rlp diff)"
  unfolding reconcileGatewayRLPReferences_def
  by (intro pres refs_within_delete[OF assms(1-3) refl assms(4)] refs_within_add[OF assms(1-3) refl assms(4)] assms(5,6))
    simp_all

section \<open>Which gateways a policy names\<close>

text \<open>The gateways the parents of a route name, whether or not they exist.\<close>

definition route_gateways :: "snapshot \<Rightarrow> object_key \<rightharpoonup> object_key set" where
  "route_gateways s k = map_option (\<lambda>r. parent_key r ` set (rt_ParentRefs r)) (sn_HTTPRoutes s k)"

definition names_gateway :: "snapshot \<Rightarrow> RateLimitPolicy \<Rightarrow> object_key \<Rightarrow> bool" where
  "names_gateway s rlp gk \<longleftrightarrow>
     (let k = target_key (rlp_TargetRef rlp) (obj_Namespace rlp) in
      if IsTargetRefHTTPRoute (rlp_TargetRef rlp) then \<exists>gks. route_gateways s k = Some gks \<and> gk \<in> gks
      else IsTargetRefGateway (rlp_TargetRef rlp) \<and> gk = k)"

text \<open>A reference of gateway \<open>gk\<close> to policy \<open>k\<close> that does not dangle.\<close>

definition backed :: "'w env \<Rightarrow> snapshot \<Rightarrow> object_key \<Rightarrow> object_key \<Rightarrow> bool" where
  "backed c s gk k \<longleftrightarrow> (\<exists>rlp. sn_RLPs s k = Some rlp \<and>
     lib_ContainsFinalizer c (obj_Finalizers rlp) rateLimitPolicyFinalizer \<and> names_gateway s rlp gk)"

lemma route_gateways_reannotated:
  assumes "\<And>k. rel_option (reannotated ann) (sn_HTTPRoutes s k) (sn_HTTPRoutes s' k)"
  shows "route_gateways s' = route_gateways s"
proof
  fix k
  have "parent_key b = parent_key a \<and> rt_ParentRefs b = rt_ParentRefs a" if "reannotated ann a b" for a b :: http_route
    by (rule conjI, rule ext)
      (simp_all add: parent_key_def reannotated_route[OF that] split: option.split)
  with assms[of k] show "route_gateways s' k = route_gateways s k"
    by (auto simp: route_gateways_def elim!: option.rel_cases)
qed

lemma names_gateway_cong: "route_gateways s' = route_gateways s \<Longrightarrow> names_gateway s' = names_gateway s"
  by (simp add: names_gateway_def fun_eq_iff)

lemma names_gateway_mono:
  assumes "\<And>k X. route_gateways s k = Some X \<Longrightarrow> \<exists>Y. route_gateways s' k = Some Y \<and> X \<subseteq> Y"
    and "names_gateway s rlp gk"
  shows "names_gateway s' rlp gk"
proof (cases "IsTargetRefHTTPRoute (rlp_TargetRef rlp)")
  case True
  with assms(2) obtain X where "route_gateways s (target_key (rlp_TargetRef rlp) (obj_Namespace rlp)) = Some X" "gk \<in> X"
    by (auto simp: names_gateway_def Let_def)
  with assms(1)[OF this(1)] True show ?thesis by (auto simp: names_gateway_def Let_def)
next
  case False
  with assms(2) show ?thesis by (simp add: names_gateway_def Let_def)
qed

lemma targeted_are_named:
  assumes "cluster_api c V" "TargetedGatewayKeys c (rlp_TargetRef rlp) (obj_Namespace rlp) w = (r, w')"
  shows "r = Inr keys \<Longrightarrow> gk \<in> set keys \<longleftrightarrow> names_gateway (V w) rlp gk"
    and "r = Inl e \<Longrightarrow> IsNotFound e \<Longrightarrow> \<not> names_gateway (V w) rlp gk"
proof -
  let ?k = "target_key (rlp_TargetRef rlp) (obj_Namespace rlp)"
  show "gk \<in> set keys \<longleftrightarrow> names_gateway (V w) rlp gk" if "r = Inr keys"
  proof (cases "IsTargetRefHTTPRoute (rlp_TargetRef rlp)")
    case True
    with assms(2) that show ?thesis
      by (cases rule: FetchValidHTTPRoute_run[OF cluster_store(4)[OF assms(1)], of w ?k])
        (auto simp: TargetedGatewayKeys_def names_gateway_def route_gateways_def)
  next
    case False
    with assms(2) that show ?thesis
      by (auto simp: TargetedGatewayKeys_def names_gateway_def Let_def split: if_splits)
  qed
  show "\<not> names_gateway (V w) rlp gk" if "r = Inl e" "IsNotFound e"
  proof (cases "IsTargetRefHTTPRoute (rlp_TargetRef rlp)")
    case True
    with assms(2) that show ?thesis
      by (cases rule: FetchValidHTTPRoute_run[OF cluster_store(4)[OF assms(1)], of w ?k])
        (auto simp: TargetedGatewayKeys_def names_gateway_def route_gateways_def)
  next
    case False
    with assms(2) that show ?thesis by (auto simp: TargetedGatewayKeys_def split: if_splits)
  qed
qed

section \<open>The steps of a reconciliation\<close>

text \<open>
  References within bounds, unchanged policies, and routes with the same parents: what every step
  on a policy keeps.
\<close>

definition steady ::
    "json_codec \<Rightarrow> (object_key \<Rightarrow> object_key \<Rightarrow> bool) \<Rightarrow> snapshot \<Rightarrow> snapshot \<Rightarrow> bool" where
  "steady J A s0 s \<longleftrightarrow> refs_within J A s \<and> sn_RLPs s = sn_RLPs s0 \<and> route_gateways s = route_gateways s0"

lemma preserves_bindE_pure:
  assumes "\<And>w. snd (m w) = w" "\<And>x w. P w \<Longrightarrow> m w = (Inr x, w) \<Longrightarrow> preserves P (f x)"
  shows "preserves P (bindE m f)"
proof (rule preservesI)
  fix w r w' assume P: "P w" and run: "bindE m f w = (r, w')"
  obtain a w1 where m: "m w = (a, w1)" by fastforce
  with assms(1)[of w] have m: "m w = (a, w)" by simp
  show "P w'"
  proof (cases a)
    case (Inl e)
    with m run P show ?thesis by (simp add: bindE_def)
  next
    case (Inr x)
    with m run have "f x w = (r, w')" by (simp add: bindE_def)
    from preservesD[OF assms(2)[OF P m[unfolded Inr]] P this] show ?thesis .
  qed
qed

lemma preserves_conj: "preserves P m \<Longrightarrow> preserves Q m \<Longrightarrow> preserves (\<lambda>w. P w \<and> Q w) m"
  by (simp add: preserves_def)

text \<open>Steps that write neither gateways, nor policies, nor routes.\<close>

definition seen_parts :: "snapshot \<Rightarrow> _" where
  "seen_parts s = (sn_Gateways s, sn_RLPs s, sn_HTTPRoutes s)"

lemma steady_seen: "seen_parts s' = seen_parts s \<Longrightarrow> steady J A s0 s' = steady J A s0 s"
  by (simp add: seen_parts_def steady_def refs_within_def route_gateways_def fun_eq_iff)

lemma steady_frame:
  assumes "\<And>F. preserves (\<lambda>w. f (V w) = F) m" "\<And>s. seen_parts (f s) = seen_parts s"
  shows "preserves (\<lambda>w. steady J A s0 (V w)) m"
proof (rule preservesI)
  fix w r w' assume P: "steady J A s0 (V w)" and run: "m w = (r, w')"
  have "f (V w') = f (V w)" by (rule preservesD[OF assms(1) refl run])
  then have "seen_parts (V w') = seen_parts (V w)" by (metis assms(2))
  from steady_seen[OF this] P show "steady J A s0 (V w')" by simp
qed

lemma steady_other_steps:
  assumes "cluster_api c V"
  shows "preserves (\<lambda>w. steady J A s0 (V w)) (reconcileLimits c rlp diff)"
    and "preserves (\<lambda>w. steady J A s0 (V w)) (reconcileRateLimitingClusterEnvoyFilter c rlp diff)"
    and "preserves (\<lambda>w. steady J A s0 (V w)) (reconcileWASMPluginConf c rlp diff)"
  subgoal by (rule steady_frame[where f = "sn_Limitadors_update (\<lambda>_. Map.empty)", OF preserves_Limits[OF assms]]) (simp add: seen_parts_def)
  subgoal by (rule steady_frame[where f = "sn_EnvoyFilters_update (\<lambda>_. Map.empty)", OF preserves_EnvoyFilter[OF assms]]) (simp add: seen_parts_def)
  subgoal by (rule steady_frame[where f = "sn_WasmPlugins_update (\<lambda>_. Map.empty)", OF preserves_WASMPluginConf[OF assms]]) (simp add: seen_parts_def)
  done

lemma steady_retargeted:
  assumes "retargeted ann s s'" "ann \<noteq> KuadrantRateLimitPolicyRefAnnotation" "steady J A s0 s"
  shows "steady J A s0 s'"
proof -
  have "\<And>k. rel_option (reannotated ann) (sn_HTTPRoutes s k) (sn_HTTPRoutes s' k)"
    "\<And>k. rel_option (reannotated ann) (sn_Gateways s k) (sn_Gateways s' k)"
    using assms(1) by (simp_all add: retargeted_def)
  from route_gateways_reannotated[OF this(1)] refs_within_reannotated[OF this(2) assms(2)] assms(3)
    retargeted_sel(1)[OF assms(1)]
  show ?thesis by (simp add: steady_def)
qed

lemma steady_back_reference:
  assumes "cluster_api c V"
  shows "preserves (\<lambda>w. steady J A s0 (V w)) (ReconcileTargetBackReference c pk tr ns RateLimitPolicyBackRefAnnotation)"
    and "preserves (\<lambda>w. steady J A s0 (V w)) (DeleteTargetBackReference c pk tr ns RateLimitPolicyBackRefAnnotation)"
proof -
  have ann: "RateLimitPolicyBackRefAnnotation \<noteq> KuadrantRateLimitPolicyRefAnnotation"
    by (simp add: RateLimitPolicyBackRefAnnotation_def KuadrantRateLimitPolicyRefAnnotation_def)
  show "preserves (\<lambda>w. steady J A s0 (V w)) (ReconcileTargetBackReference c pk tr ns RateLimitPolicyBackRefAnnotation)"
    "preserves (\<lambda>w. steady J A s0 (V w)) (DeleteTargetBackReference c pk tr ns RateLimitPolicyBackRefAnnotation)"
    using back_reference_retargeted[OF assms] steady_retargeted[OF _ ann] by (blast intro: preservesI)+
qed

lemma steady_references:
  assumes "cluster_api c V" "refs_json (lib_Json c) ok" "ok (ObjectKeyFromObject rlp)" "refs_within (lib_Json c) A s"
    and "\<And>gw. gw \<in> set (gd_LeftGateways diff @ gd_NewGateways diff) \<Longrightarrow> sn_Gateways s (ObjectKeyFromObject gw) = Some gw"
    and "\<And>gw. gw \<in> set (gd_NewGateways diff) \<Longrightarrow> A (ObjectKeyFromObject gw) (ObjectKeyFromObject rlp)"
  shows "preserves (\<lambda>w. steady (lib_Json c) A s0 (V w)) (reconcileGatewayRLPReferences c rlp diff)"
proof -
  have "preserves (\<lambda>w. (sn_RLPs (V w), sn_HTTPRoutes (V w)) = R) (reconcileGatewayRLPReferences c rlp diff)" for R
    by (rule preserves_coarser[OF preserves_References[OF assms(1)], where h = "\<lambda>s. (sn_RLPs s, sn_HTTPRoutes s)"]) simp
  note frame = preservesD[OF this refl]
  have "preserves (\<lambda>w. refs_within (lib_Json c) A (V w)) (reconcileGatewayRLPReferences c rlp diff)"
    by (rule refs_within_references[OF assms(1-4)]) (use assms(5,6) in auto)
  note within = preservesD[OF this]
  show ?thesis
  proof (rule preservesI)
    fix w r w' assume P: "steady (lib_Json c) A s0 (V w)" and run: "reconcileGatewayRLPReferences c rlp diff w = (r, w')"
    from frame[OF run] within[OF _ run] P show "steady (lib_Json c) A s0 (V w')"
      by (simp add: steady_def route_gateways_def fun_eq_iff)
  qed
qed

section \<open>Reconciling the spec, whatever the outcome\<close>

lemma computeGatewayDiffs_snd: "cluster_api c V \<Longrightarrow> snd (computeGatewayDiffs c rlp w) = w"
  using computeGatewayDiffs_run(1) by (metis prod.collapse)

lemma steady_reconcileSpec:
  assumes "cluster_api c V" "refs_json (lib_Json c) ok" "ok (ObjectKeyFromObject rlp)"
    and "\<And>gk. names_gateway s0 rlp gk \<Longrightarrow> A gk (ObjectKeyFromObject rlp)"
  shows "preserves (\<lambda>w. steady (lib_Json c) A s0 (V w)) (reconcileSpec c rlp)"
proof -
  have refs: "preserves (\<lambda>w. steady (lib_Json c) A s0 (V w)) (reconcileGatewayRLPReferences c rlp diff)"
    if I: "steady (lib_Json c) A s0 (V w)" and diff: "computeGatewayDiffs c rlp w = (Inr diff, w)" for diff w
  proof -
    from computeGatewayDiffs_run(2)[OF assms(1) diff refl] obtain keys gws where
      keys: "TargetedGatewayKeys c (rlp_TargetRef rlp) (obj_Namespace rlp) w = (Inr keys, w)"
      and gws: "distinct (map ObjectKeyFromObject gws)" "\<And>k. sn_Gateways (V w) k = find (\<lambda>g. ObjectKeyFromObject g = k) gws"
      and eq: "diff = \<lparr>gd_NewGateways = NewGateways (lib_Json c) gws (ObjectKeyFromObject rlp) keys,
         gd_SameGateways = SameGateways (lib_Json c) gws (ObjectKeyFromObject rlp) keys,
         gd_LeftGateways = LeftGateways (lib_Json c) gws (ObjectKeyFromObject rlp) keys\<rparr>"
      by auto
    have "names_gateway s0 = names_gateway (V w)"
      using I names_gateway_cong[of "V w" s0] by (simp add: steady_def)
    with targeted_are_named(1)[OF assms(1) keys refl] assms(4)
    have named: "k \<in> set keys \<Longrightarrow> A k (ObjectKeyFromObject rlp)" for k by simp
    show ?thesis
    proof (rule steady_references[OF assms(1-3), where s = "V w"])
      show "refs_within (lib_Json c) A (V w)" using I by (simp add: steady_def)
      show "sn_Gateways (V w) (ObjectKeyFromObject gw) = Some gw"
        if "gw \<in> set (gd_LeftGateways diff @ gd_NewGateways diff)" for gw
        using that find_distinct_key[OF gws(1)] by (auto simp: eq gws(2) NewGateways_def LeftGateways_def)
      show "A (ObjectKeyFromObject gw) (ObjectKeyFromObject rlp)" if "gw \<in> set (gd_NewGateways diff)" for gw
        using that named by (auto simp: eq NewGateways_def)
    qed
  qed
  have diffs: "preserves (\<lambda>w. steady (lib_Json c) A s0 (V w)) (reconcileGatewayDiffs c rlp)"
    unfolding reconcileGatewayDiffs_def
    by (rule preserves_bindE_pure, rule computeGatewayDiffs_snd[OF assms(1)])
      (intro pres steady_other_steps[OF assms(1)] refs)
  show ?thesis
    unfolding reconcileSpec_def validateRuleHosts_def reconcileDirectBackReference_def Let_def
    by (intro pres diffs steady_back_reference[OF assms(1)] preserves_pure[of "TargetHostnames c _ _"]
        TargetHostnames_pure[OF assms(1)])
qed

section \<open>Cleaning up, whatever the outcome\<close>

text \<open>After some of the gateways have been released: no more references than before, theirs without the policy.\<close>

definition released :: "json_codec \<Rightarrow> snapshot \<Rightarrow> object_key \<Rightarrow> object_key set \<Rightarrow> object_key \<Rightarrow> object_key \<Rightarrow> bool" where
  "released J s rk D gk k \<longleftrightarrow>
     (\<exists>x. sn_Gateways s gk = Some x \<and> k \<in> set (refs_of J (Some x))) \<and> (gk \<in> D \<longrightarrow> k \<noteq> rk)"

lemma release_one:
  assumes "cluster_api c V" "refs_json J ok" "ok rk" "J = lib_Json c" "refs_within J A s"
    and gw: "sn_Gateways s (ObjectKeyFromObject gw) = Some gw"
    and I: "refs_within J (released J s rk D) (V w)"
    and run: "update_if_changed c gw (DeleteRLP J rk (Some gw)) w = (Inr gw', w')"
  shows "refs_within J (released J s rk (insert (ObjectKeyFromObject gw) D)) (V w')"
proof -
  let ?k = "ObjectKeyFromObject gw"
  note orig = refs_withinD[OF assms(5) gw]
  obtain y where y: "snd (DeleteRLP J rk (Some gw)) = Some y" "refs_readable J (Some y)"
    "distinct (refs_of J (Some y))" "rk \<notin> set (refs_of J (Some y))"
    using result_readable(1)[OF assms(2,3), of gw] orig by blast
  have less: "set (refs_of J (Some y)) \<subseteq> set (refs_of J (Some gw))"
    using refs_json.DeleteRLP_refs[OF assms(2), of rk "Some gw"] y(1) set_remove1_subset[of rk] by simp
  have key: "ObjectKeyFromObject y = ?k"
    using DeleteRLP_job[of gw J rk] y(1) by (auto simp: job_ok_def split: prod.splits)
  obtain changed where r: "DeleteRLP J rk (Some gw) = (changed, Some y)"
    using y(1) by (cases "DeleteRLP J rk (Some gw)") simp
  note upd = update_if_changed_run[OF assms(1) run[unfolded r] key]
  show ?thesis
    unfolding refs_within_def
  proof (intro allI impI)
    fix gk x assume x: "sn_Gateways (V w') gk = Some x"
    show "refs_readable J (Some x) \<and> distinct (refs_of J (Some x)) \<and>
        (\<forall>k \<in> set (refs_of J (Some x)). released J s rk (insert ?k D) gk k)"
    proof (cases "changed \<and> gk = ?k")
      case True
      with upd x have "content_eq x y" by simp
      note same = content_eq_refs[OF this] content_eq_readable[OF this]
      show ?thesis
        using True y less gw by (auto simp: released_def same)
    next
      case False
      with upd x have old: "sn_Gateways (V w) gk = Some x" by (cases changed) simp_all
      have "rk \<notin> set (refs_of J (Some gw))" if "gk = ?k"
        using refs_json.DeleteRLP_flag[OF assms(2), of rk "Some gw"] r that False by simp
      with refs_withinD[OF I old] gw show ?thesis by (auto simp: released_def)
    qed
  qed
qed

lemma release_all:
  assumes "cluster_api c V" "refs_json J ok" "ok rk" "J = lib_Json c" "refs_within J A s"
    and "\<And>gw. gw \<in> set gws \<Longrightarrow> sn_Gateways s (ObjectKeyFromObject gw) = Some gw"
    and "refs_within J (released J s rk D) (V w)"
    and "mapE (\<lambda>gw. update_if_changed c gw (DeleteRLP J rk (Some gw))) gws w = (Inr ys, w')"
  shows "refs_within J (released J s rk (ObjectKeyFromObject ` set gws \<union> D)) (V w')"
  using assms(6-8)
proof (induction gws arbitrary: D w ys)
  case (Cons gw gws)
  from Cons.prems(3) obtain gw' w1 ys' where run:
    "update_if_changed c gw (DeleteRLP J rk (Some gw)) w = (Inr gw', w1)"
    "mapE (\<lambda>gw. update_if_changed c gw (DeleteRLP J rk (Some gw))) gws w1 = (Inr ys', w')"
    by (auto elim!: bindE_InrE)
  have "refs_within J (released J s rk (insert (ObjectKeyFromObject gw) D)) (V w1)"
    using release_one[OF assms(1-5) _ Cons.prems(2) run(1)] Cons.prems(1) by simp
  from Cons.IH[OF _ this run(2)] Cons.prems(1) show ?case by simp
qed simp

lemma finalize_diff:
  assumes "cluster_api c V" "computeFinalizeGatewayDiff c rlp w = (Inr diff, w')"
  shows "gd_NewGateways diff = []"
    and "gw \<in> set (gd_LeftGateways diff) \<Longrightarrow> sn_Gateways (V w) (ObjectKeyFromObject gw) = Some gw"
    and "names_gateway (V w) rlp gk \<Longrightarrow> sn_Gateways (V w) gk \<noteq> None \<Longrightarrow>
      gk \<in> ObjectKeyFromObject ` set (gd_LeftGateways diff)"
proof -
  obtain r where keys: "TargetedGatewayKeys c (rlp_TargetRef rlp) (obj_Namespace rlp) w = (r, w)"
    using TargetedGatewayKeys_pure[OF assms(1)] by (metis prod.collapse)
  have run: "\<exists>ks. diff = clean_up_diff (V w) ks \<and>
      (\<forall>gk. names_gateway (V w) rlp gk \<longrightarrow> gk \<in> set ks)"
  proof (cases r)
    case (Inr ks)
    with assms(2) keys targeted_are_named(1)[OF assms(1) keys Inr] show ?thesis
      by (auto simp: computeFinalizeGatewayDiff_run[OF assms(1)])
  next
    case (Inl e)
    with assms(2) keys have "IsNotFound e"
      by (cases "is_panic e") (auto simp: computeFinalizeGatewayDiff_def split: if_splits)
    with assms(2) keys Inl targeted_are_named(2)[OF assms(1) keys Inl] show ?thesis
      by (auto simp: computeFinalizeGatewayDiff_def clean_up_diff_def List.map_filter_simps intro!: exI[of _ "[]"])
  qed
  then obtain ks where diff: "diff = clean_up_diff (V w) ks"
    and ks: "\<And>gk. names_gateway (V w) rlp gk \<Longrightarrow> gk \<in> set ks" by blast
  note lefts = clean_up_lefts(1)[OF assms(1), where w = w and keys = ks]
  show "gd_NewGateways diff = []" by (simp add: diff)
  show "sn_Gateways (V w) (ObjectKeyFromObject gw) = Some gw" if "gw \<in> set (gd_LeftGateways diff)"
    using that lefts by (simp add: diff)
  show "gk \<in> ObjectKeyFromObject ` set (gd_LeftGateways diff)"
    if named: "names_gateway (V w) rlp gk" "sn_Gateways (V w) gk \<noteq> None"
  proof -
    from named(2) obtain gw where gw: "sn_Gateways (V w) gk = Some gw" by blast
    then have "ObjectKeyFromObject gw = gk"
      using store_Get_Some[OF cluster_store(3)[OF assms(1)], where w = w and k = gk and obj = gw] by simp
    with lefts[of gw] gw ks[OF named(1)] show ?thesis by (force simp: diff)
  qed
qed

lemma steady_finalize_rest:
  assumes "cluster_api c V"
  shows "preserves (\<lambda>w. steady J A s0 (V w)) (bindE (reconcileWASMPluginConf c rlp diff) (\<lambda>_.
     bindE (reconcileRateLimitingClusterEnvoyFilter c rlp diff) (\<lambda>_.
     bindE (attempt (reconcileLimits c rlp diff)) (\<lambda>limits.
     bindE (case limits of
              Inl err \<Rightarrow> if \<not> IsNotFound err then throwE err else retE ()
            | Inr _ \<Rightarrow> retE ()) (\<lambda>_.
     rlp_deleteNetworkResourceBackReference c rlp)))))"
  unfolding rlp_deleteNetworkResourceBackReference_def
  by (intro pres steady_other_steps[OF assms] steady_back_reference[OF assms])

lemma steady_finalizeRLP:
  assumes "cluster_api c V" "refs_json (lib_Json c) ok" "ok (ObjectKeyFromObject rlp)"
    and I: "steady (lib_Json c) A s0 (V w)" and run: "finalizeRLP c rlp w = (r, w')"
  shows "steady (lib_Json c) A s0 (V w')"
    and "r = Inr u \<Longrightarrow> steady (lib_Json c)
      (\<lambda>gk k. A gk k \<and> (names_gateway s0 rlp gk \<longrightarrow> k \<noteq> ObjectKeyFromObject rlp)) s0 (V w')"
proof -
  let ?J = "lib_Json c" and ?rk = "ObjectKeyFromObject rlp"
  let ?A = "\<lambda>gk k. A gk k \<and> (names_gateway s0 rlp gk \<longrightarrow> k \<noteq> ?rk)"
  have within: "refs_within ?J A (V w)" using I by (simp add: steady_def)
  obtain d where diff: "computeFinalizeGatewayDiff c rlp w = (d, w)"
    using computeFinalizeGatewayDiff_pure[OF assms(1)] by (metis prod.collapse)
  have "steady ?J A s0 (V w') \<and> (r = Inr u \<longrightarrow> steady ?J ?A s0 (V w'))"
  proof (cases d)
    case (Inl e)
    with run diff have "w' = w" "r = Inl e" by (simp_all add: finalizeRLP_def bindE_def)
    with I show ?thesis by simp
  next
    case (Inr df)
    note diff = diff[unfolded Inr] and facts = finalize_diff[OF assms(1) diff[unfolded Inr]]
    obtain r1 w1 where refs: "reconcileGatewayRLPReferences c rlp df w = (r1, w1)" by fastforce
    have keep: "steady ?J A s0 (V w1)"
      by (rule preservesD[OF steady_references[OF assms(1-3) within] I refs]) (use facts(1,2) in auto)
    show ?thesis
    proof (cases r1)
      case (Inl e)
      with run diff refs have "w' = w1" "r = Inl e" by (simp_all add: finalizeRLP_def bindE_def)
      with keep show ?thesis by simp
    next
      case (Inr df')
      from refs Inr facts(1) obtain ys where loop:
        "mapE (\<lambda>gw. update_if_changed c gw (DeleteRLP ?J ?rk (Some gw))) (gd_LeftGateways df) w = (Inr ys, w1)"
        by (auto simp: reconcileGatewayRLPReferences_def elim!: bindE_InrE)
      have start: "refs_within ?J (released ?J (V w) ?rk {}) (V w)"
        using within by (auto simp: refs_within_def released_def)
      have rel: "refs_within ?J (released ?J (V w) ?rk (ObjectKeyFromObject ` set (gd_LeftGateways df))) (V w1)"
        using release_all[OF assms(1-3) refl within facts(2) start loop] by simp
      have "names_gateway s0 = names_gateway (V w)"
        using I names_gateway_cong[of "V w" s0] by (simp add: steady_def)
      with rel have "refs_within ?J ?A (V w1)"
        by (rule_tac refs_within_mono[OF rel]) (use facts(3) within in \<open>auto simp: released_def refs_within_def\<close>)
      with keep have clean: "steady ?J ?A s0 (V w1)" by (simp add: steady_def)
      note rest = steady_finalize_rest[OF assms(1), of _ _ _ rlp df']
      from run diff refs Inr preservesD[OF rest keep] preservesD[OF rest clean] show ?thesis
        by (simp add: finalizeRLP_def)
    qed
  qed
  then show "steady ?J A s0 (V w')" "r = Inr u \<Longrightarrow> steady ?J ?A s0 (V w')" by blast+
qed

end
