(* ===== verification/System.thy ===== *)
theory System
  imports Reference_Bounds
begin

text \<open>
  The controllers and their surroundings as one state machine: a step is a whole reconciliation of
  either controller, with any outcome, or a write of somebody else. The invariant of its reachable
  states is that the references of gateways do not dangle, so that the policies a reconciliation
  loads for a gateway are there. Users who delete a route before the policy that targets it are
  outside the machine: what becomes of the references then is shown at the end.
\<close>

section \<open>Both controllers keep the references backed\<close>

text \<open>
  The documented behaviour of the status subresource: updating the status of a stored policy writes
  its status at most.
\<close>

definition status_writes_status :: "'w env \<Rightarrow> ('w \<Rightarrow> snapshot) \<Rightarrow> bool" where
  "status_writes_status c V \<longleftrightarrow> (\<forall>w p st r w'. sn_RLPs (V w) (ObjectKeyFromObject p) = Some p \<longrightarrow>
     api_StatusUpdate (cl_RLPs c) (p\<lparr>rlp_Status := st\<rparr>) w = (r, w') \<longrightarrow>
     (\<exists>p' st'. sn_RLPs (V w') = (sn_RLPs (V w))(ObjectKeyFromObject p \<mapsto> p') \<and> content_eq p' (p\<lparr>rlp_Status := st'\<rparr>)))"

definition no_dangling :: "'w env \<Rightarrow> snapshot \<Rightarrow> bool" where
  "no_dangling c s \<longleftrightarrow> refs_within (lib_Json c) (backed c s) s"

text \<open>The parts of a policy that matter here.\<close>

definition same_aim :: "'w env \<Rightarrow> RateLimitPolicy \<Rightarrow> RateLimitPolicy \<Rightarrow> bool" where
  "same_aim c p q \<longleftrightarrow> rlp_TargetRef q = rlp_TargetRef p \<and> obj_Namespace q = obj_Namespace p \<and>
     (lib_ContainsFinalizer c (obj_Finalizers p) rateLimitPolicyFinalizer \<longrightarrow>
      lib_ContainsFinalizer c (obj_Finalizers q) rateLimitPolicyFinalizer)"

lemma content_eq_policy:
  fixes p q :: RateLimitPolicy
  assumes "content_eq p q"
  shows "rlp_TargetRef p = rlp_TargetRef q" "obj_Namespace p = obj_Namespace q" "obj_Finalizers p = obj_Finalizers q"
    "ObjectKeyFromObject p = ObjectKeyFromObject q"
  using assms by (cases p; cases q; simp add: content_eq_def ObjectKeyFromObject_def)+

lemma names_same_aim: "same_aim c p q \<Longrightarrow> names_gateway s q = names_gateway s p"
  by (simp add: names_gateway_def same_aim_def fun_eq_iff)

lemma backed_policy_written:
  assumes "backed c s gk k" "sn_RLPs s' = (sn_RLPs s)(j := x)" "route_gateways s' = route_gateways s"
    and "\<And>p. k = j \<Longrightarrow> sn_RLPs s j = Some p \<Longrightarrow> \<exists>q. x = Some q \<and> same_aim c p q"
  shows "backed c s' gk k"
proof -
  from assms(1) obtain p where p: "sn_RLPs s k = Some p" "names_gateway s p gk"
    "lib_ContainsFinalizer c (obj_Finalizers p) rateLimitPolicyFinalizer"
    by (auto simp: backed_def)
  show ?thesis
  proof (cases "k = j")
    case True
    with assms(4) p obtain q where q: "x = Some q" "same_aim c p q" by blast
    then have "names_gateway s' q gk"
      using p(2) names_gateway_cong[OF assms(3)] names_same_aim[OF q(2)] by simp
    with q p(3) True assms(2) show ?thesis by (simp add: backed_def same_aim_def)
  next
    case False
    with p assms(2) names_gateway_cong[OF assms(3)] show ?thesis by (simp add: backed_def)
  qed
qed

lemma no_dangling_steady:
  assumes "steady (lib_Json c) (backed c s0) s0 s" "sn_RLPs s' = (sn_RLPs s0)(j := x)"
    and "sn_Gateways s' = sn_Gateways s" "sn_HTTPRoutes s' = sn_HTTPRoutes s"
    and "\<And>p. sn_RLPs s0 j = Some p \<Longrightarrow> \<exists>q. x = Some q \<and> same_aim c p q"
  shows "no_dangling c s'"
proof -
  have routes: "route_gateways s' = route_gateways s0"
    using assms(1,4) by (simp add: steady_def route_gateways_def fun_eq_iff)
  have "refs_within (lib_Json c) (backed c s0) s'"
    using assms(1) refs_within_gateways[OF assms(3)] by (simp add: steady_def)
  then show ?thesis
    unfolding no_dangling_def
    by (rule refs_within_mono) (rule backed_policy_written[OF _ assms(2) routes], use assms(5) in auto)
qed

lemma steady_start: "no_dangling c s \<Longrightarrow> steady (lib_Json c) (backed c s) s s"
  by (simp add: no_dangling_def steady_def)

lemma same_aim_refl [simp]: "same_aim c p p"
  by (simp add: same_aim_def)

lemma no_dangling_steady0:
  assumes "steady (lib_Json c) (backed c s0) s0 s"
  shows "no_dangling c s"
proof -
  have "sn_RLPs s = (sn_RLPs s0)(j := sn_RLPs s0 j)" for j
    using assms by (simp add: steady_def)
  from no_dangling_steady[OF assms this refl refl] show ?thesis by auto
qed

lemma reconcileStatus_policies:
  assumes "cluster_api c V" "status_writes_status c V" "sn_RLPs (V w) (ObjectKeyFromObject rlp) = Some rlp"
    and "rlp_reconcileStatus c rlp specErr w = (r, w')"
  shows "\<exists>p' st. sn_RLPs (V w') = (sn_RLPs (V w))(ObjectKeyFromObject rlp \<mapsto> p') \<and> content_eq p' (rlp\<lparr>rlp_Status := st\<rparr>)"
proof -
  have idle: ?thesis if "w' = w"
    using that assms(3) by (intro exI[of _ rlp] exI[of _ "rlp_Status rlp"]) auto
  obtain st w1 where calc: "rlp_calculateStatus c rlp specErr w = (st, w1)" by fastforce
  have w1: "w1 = w" by (rule preservesD[OF gatewaysRateLimits_pure[OF assms(1)] refl calc])
  show ?thesis
  proof (cases st)
    case (Inl e)
    with assms(4) calc w1 idle show ?thesis by (simp add: rlp_reconcileStatus_def bindE_def)
  next
    case (Inr new)
    let ?st = "new\<lparr>rlpst_ObservedGeneration := obj_Generation rlp\<rparr>"
    obtain u w2 where upd: "api_StatusUpdate (cl_RLPs c) (rlp\<lparr>rlp_Status := ?st\<rparr>) w = (u, w2)" by fastforce
    from assms(4) calc w1 Inr upd have "w' = w \<or> w' = w2"
      by (cases u) (auto simp: rlp_reconcileStatus_def bindE_def attempt_def Let_def split: if_splits)
    with idle show ?thesis
      using assms(2,3) upd unfolding status_writes_status_def by blast
  qed
qed

lemma live_no_dangling:
  assumes "cluster_api c V" "status_writes_status c V" "refs_json (lib_Json c) ok" "ok (ObjectKeyFromObject rlp)"
    and stored: "sn_RLPs (V w) (ObjectKeyFromObject rlp) = Some rlp"
    and fin: "lib_ContainsFinalizer c (obj_Finalizers rlp) rateLimitPolicyFinalizer"
    and I: "no_dangling c (V w)" and run: "rlp_reconcile_live c rlp w = (r, w')"
  shows "no_dangling c (V w')"
proof -
  let ?k = "ObjectKeyFromObject rlp"
  have allowed: "backed c (V w) gk ?k" if "names_gateway (V w) rlp gk" for gk
    using that stored fin by (auto simp: backed_def)
  obtain spec w1 where spec: "reconcileSpec c rlp w = (spec, w1)" by fastforce
  have "preserves (\<lambda>w'. steady (lib_Json c) (backed c (V w)) (V w) (V w')) (reconcileSpec c rlp)"
    by (rule steady_reconcileSpec[OF assms(1,3,4)]) (rule allowed)
  note I1 = preservesD[OF this steady_start[OF I] spec]
  have stored1: "sn_RLPs (V w1) ?k = Some rlp" using I1 stored by (simp add: steady_def)
  obtain e st w2 where "w' = w1 \<or> w' = w2" and status: "rlp_reconcileStatus c rlp e w1 = (st, w2)"
  proof -
    obtain st w2 where "rlp_reconcileStatus c rlp (case spec of Inl err \<Rightarrow> Some err | Inr _ \<Rightarrow> None) w1 = (st, w2)"
      by fastforce
    moreover from this run spec have "w' = w1 \<or> w' = w2"
      by (auto simp: rlp_reconcile_live_def attempt_def bindE_def Let_def split: sum.splits if_splits prod.splits)
    ultimately show thesis using that by blast
  qed
  moreover have "no_dangling c (V w1)" by (rule no_dangling_steady0[OF I1])
  moreover have "no_dangling c (V w2)"
  proof -
    from reconcileStatus_policies[OF assms(1,2) stored1 status] obtain p' x where
      p': "sn_RLPs (V w2) = (sn_RLPs (V w1))(?k \<mapsto> p')" "content_eq p' (rlp\<lparr>rlp_Status := x\<rparr>)" by blast
    have "V w2\<lparr>sn_RLPs := Map.empty\<rparr> = V w1\<lparr>sn_RLPs := Map.empty\<rparr>"
      by (rule preservesD[OF preserves_reconcileStatus[OF assms(1)] refl status])
    then have rest: "sn_Gateways (V w2) = sn_Gateways (V w1)" "sn_HTTPRoutes (V w2) = sn_HTTPRoutes (V w1)"
      by (cases "V w1"; cases "V w2"; simp)+
    have "sn_RLPs (V w2) = (sn_RLPs (V w))(?k \<mapsto> p')" using p'(1) I1 by (simp add: steady_def)
    from no_dangling_steady[OF I1 this rest] show ?thesis
      using stored content_eq_policy[OF p'(2)] by (simp add: same_aim_def)
  qed
  ultimately show ?thesis by blast
qed

text \<open>A run that writes the finalizer first starts from a cluster with the finalizer.\<close>

lemma no_dangling_written:
  assumes "no_dangling c s" "sn_RLPs s' = (sn_RLPs s)(j := x)"
    and "sn_Gateways s' = sn_Gateways s" "sn_HTTPRoutes s' = sn_HTTPRoutes s"
    and "\<And>p. sn_RLPs s j = Some p \<Longrightarrow> \<exists>q. x = Some q \<and> same_aim c p q"
  shows "no_dangling c s'"
  by (rule no_dangling_steady[OF steady_start[OF assms(1)] assms(2-5)])

definition adds_finalizer :: "'w env \<Rightarrow> bool" where
  "adds_finalizer c \<longleftrightarrow> (\<forall>fs f. lib_ContainsFinalizer c (lib_AddFinalizer c fs f) f)"

lemma rlp_Reconcile_no_dangling:
  assumes "cluster_api c V" "status_writes_status c V" "adds_finalizer c" "refs_json (lib_Json c) ok" "ok req"
    and I: "no_dangling c (V w)" and run: "rlp_Reconcile c req w = (r, w')"
  shows "no_dangling c (V w')"
proof (cases "sn_RLPs (V w) req")
  case None
  with Reconcile_deletion[OF assms(1) run] I show ?thesis by simp
next
  case (Some rlp)
  have get: "ObjectKeyFromObject rlp = req" "api_Get (cl_RLPs c) req w = (Inr rlp, w)"
    using store_Get_Some[OF cluster_store(1)[OF assms(1)], where w = w and k = req and obj = rlp] Some by simp_all
  have api: "kind_api V sn_RLPs (sn_RLPs_update (\<lambda>_. Map.empty)) (cl_RLPs c)"
    using assms(1) by (simp add: cluster_api_def)
  have ok: "ok (ObjectKeyFromObject rlp)" using assms(5) get(1) by simp
  let ?has = "lib_ContainsFinalizer c (obj_Finalizers rlp) rateLimitPolicyFinalizer"
  consider (ignored) "obj_DeletionTimestamp rlp \<noteq> None" "\<not> ?has" | (clean) "obj_DeletionTimestamp rlp \<noteq> None" ?has
    | (live) "obj_DeletionTimestamp rlp = None" ?has | (new) "obj_DeletionTimestamp rlp = None" "\<not> ?has"
    by blast
  then show ?thesis
  proof cases
    case ignored
    with run get(2) I show ?thesis by (simp add: rlp_Reconcile_def)
  next
    case live
    with run get(2) have "rlp_reconcile_live c rlp w = (r, w')" by (simp add: rlp_Reconcile_def)
    from live_no_dangling[OF assms(1,2,4) ok _ live(2) I this] Some get(1) show ?thesis by simp
  next
    case new
    from finalizer_first[OF assms(1), THEN conjunct1, rule_format, OF Some new run]
    consider "V w' = V w"
      | rlp1 w1 where "content_eq rlp1 (rlp\<lparr>obj_Finalizers := lib_AddFinalizer c (obj_Finalizers rlp) rateLimitPolicyFinalizer\<rparr>)"
        "V w1 = V w\<lparr>sn_RLPs := (sn_RLPs (V w))(req \<mapsto> rlp1)\<rparr>" "rlp_reconcile_live c rlp1 w1 = (r, w')"
      by blast
    then show ?thesis
    proof cases
      case 1
      with I show ?thesis by simp
    next
      case w1: (2 rlp1 w1)
      note eq = content_eq_policy[OF w1(1)]
      have key: "ObjectKeyFromObject rlp1 = req" using eq(4) get(1) by (simp add: ObjectKeyFromObject_def)
      have has: "lib_ContainsFinalizer c (obj_Finalizers rlp1) rateLimitPolicyFinalizer"
        using eq(3) assms(3) by (simp add: adds_finalizer_def)
      have "no_dangling c (V w1)"
        by (rule no_dangling_written[OF I, where j = req and x = "Some rlp1"])
          (use w1(2) Some eq new(2) in \<open>simp_all add: same_aim_def\<close>)
      from live_no_dangling[OF assms(1,2,4) _ _ has this w1(3)] w1(2) key assms(5) show ?thesis by simp
    qed
  next
    case clean
    obtain f w1 where fin: "finalizeRLP c rlp w = (f, w1)" by fastforce
    note after = steady_finalizeRLP[OF assms(1,4) ok steady_start[OF I] fin]
    show ?thesis
    proof (cases f)
      case (Inl e)
      with clean get(2) fin run have "w' = w1"
        by (cases "is_panic e") (auto simp: rlp_Reconcile_def)
      with no_dangling_steady0[OF after(1)] show ?thesis by simp
    next
      case (Inr u)
      let ?rlp = "rlp\<lparr>obj_Finalizers := lib_RemoveFinalizer c (obj_Finalizers rlp) rateLimitPolicyFinalizer\<rparr>"
      obtain g w2 where upd: "api_Update (cl_RLPs c) ?rlp w1 = (g, w2)" by fastforce
      have "w' = w2"
        using clean get(2) fin Inr upd run
        by (cases g; cases "\<exists>e. g = Inl e \<and> is_panic e")
          (auto simp: rlp_Reconcile_def UpdateResource_def split: if_splits)
      moreover have "V w2\<lparr>sn_RLPs := Map.empty\<rparr> = V w1\<lparr>sn_RLPs := Map.empty\<rparr>"
        using kind_failure(1)[OF api, of ?rlp w1 _ w2] kind_update(3)[OF api, of ?rlp w1 _ w2] upd by (cases g) auto
      then have rest: "sn_Gateways (V w2) = sn_Gateways (V w1)" "sn_HTTPRoutes (V w2) = sn_HTTPRoutes (V w1)"
        by (cases "V w1"; cases "V w2"; simp)+
      have "\<exists>x. sn_RLPs (V w2) = (sn_RLPs (V w))(req := x)"
        using kind_failure(2)[OF api, of ?rlp w1 _ w2] kind_update(2)[OF api, of ?rlp w1 _ w2] upd after(1) get(1)
        by (cases g) (auto simp: steady_def ObjectKeyFromObject_def intro: exI[of _ "Some rlp"] fun_upd_triv[symmetric])
      then obtain x where x: "sn_RLPs (V w2) = (sn_RLPs (V w))(req := x)" by blast
      have routes: "route_gateways (V w2) = route_gateways (V w)"
        using after(1) rest(2) by (simp add: steady_def route_gateways_def fun_eq_iff)
      have "refs_within (lib_Json c) (\<lambda>gk k. backed c (V w) gk k \<and> (names_gateway (V w) rlp gk \<longrightarrow> k \<noteq> req)) (V w2)"
        using after(2)[OF Inr] refs_within_gateways[OF rest(1)] get(1) by (simp add: steady_def)
      then have "no_dangling c (V w2)"
        unfolding no_dangling_def
      proof (rule refs_within_mono)
        fix gk k assume k: "backed c (V w) gk k \<and> (names_gateway (V w) rlp gk \<longrightarrow> k \<noteq> req)"
        then have "k \<noteq> req" using Some by (auto simp: backed_def)
        with backed_policy_written[OF _ x routes] k show "backed c (V w2) gk k" by blast
      qed
      ultimately show ?thesis by simp
    qed
  qed
qed

lemma ap_Reconcile_no_dangling:
  assumes "cluster_api c V" "no_dangling c (V w)" "ap_Reconcile c req w = (r, w')"
  shows "no_dangling c (V w')"
proof -
  note sel = ap_footprint_sel[OF ap_Reconcile_footprint[OF assms(1,3)]]
  have "refs_within (lib_Json c) (backed c (V w)) (V w')"
    by (rule refs_within_reannotated[OF sel(5) auth_annotation_neq(1)]) (use assms(2) in \<open>simp add: no_dangling_def\<close>)
  moreover have "backed c (V w') = backed c (V w)"
    using names_gateway_cong[OF route_gateways_reannotated[OF sel(6)]] by (simp add: backed_def sel(1) fun_eq_iff)
  ultimately show ?thesis by (simp add: no_dangling_def)
qed

section \<open>The state machine\<close>

text \<open>
  What users and the other controllers of the cluster may do between two reconciliations: write any
  object, but of a policy keep the target and the finalizer (a deletion request is such a write:
  it sets the deletion time), of a gateway the annotation with the references, and of a route the
  parents it has; a policy is removed once it has no finalizer, and routes with parents stay.
\<close>

inductive user_step :: "'w env \<Rightarrow> snapshot \<Rightarrow> snapshot \<Rightarrow> bool" for c where
  policy_created: "sn_RLPs s k = None \<Longrightarrow> user_step c s (s\<lparr>sn_RLPs := (sn_RLPs s)(k \<mapsto> rlp)\<rparr>)"
| policy_edited: "sn_RLPs s k = Some rlp \<Longrightarrow> same_aim c rlp rlp' \<Longrightarrow>
    user_step c s (s\<lparr>sn_RLPs := (sn_RLPs s)(k \<mapsto> rlp')\<rparr>)"
| policy_removed: "sn_RLPs s k = Some rlp \<Longrightarrow>
    \<not> lib_ContainsFinalizer c (obj_Finalizers rlp) rateLimitPolicyFinalizer \<Longrightarrow>
    user_step c s (s\<lparr>sn_RLPs := (sn_RLPs s)(k := None)\<rparr>)"
| gateway_created: "sn_Gateways s k = None \<Longrightarrow> annotations_of gw KuadrantRateLimitPolicyRefAnnotation = None \<Longrightarrow>
    user_step c s (s\<lparr>sn_Gateways := (sn_Gateways s)(k \<mapsto> gw)\<rparr>)"
| gateway_edited: "sn_Gateways s k = Some gw \<Longrightarrow>
    annotations_of gw' KuadrantRateLimitPolicyRefAnnotation = annotations_of gw KuadrantRateLimitPolicyRefAnnotation \<Longrightarrow>
    user_step c s (s\<lparr>sn_Gateways := (sn_Gateways s)(k \<mapsto> gw')\<rparr>)"
| gateway_removed: "user_step c s (s\<lparr>sn_Gateways := (sn_Gateways s)(k := None)\<rparr>)"
| route_written: "(\<And>old. sn_HTTPRoutes s k = Some old \<Longrightarrow>
      parent_key old ` set (rt_ParentRefs old) \<subseteq> parent_key route ` set (rt_ParentRefs route)) \<Longrightarrow>
    user_step c s (s\<lparr>sn_HTTPRoutes := (sn_HTTPRoutes s)(k \<mapsto> route)\<rparr>)"
| other_written: "seen_parts s' = seen_parts s \<Longrightarrow> user_step c s s'"

text \<open>
  A reconciliation is one step, whatever its outcome, for any request whose key the JSON encoder
  reads back (\<open>ok\<close>: the names of Kubernetes).
\<close>

inductive cluster_step :: "'w env \<Rightarrow> ('w \<Rightarrow> snapshot) \<Rightarrow> (object_key \<Rightarrow> bool) \<Rightarrow> 'w \<Rightarrow> 'w \<Rightarrow> bool" for c V ok where
  rlp_run: "ok req \<Longrightarrow> rlp_Reconcile c req w = (r, w') \<Longrightarrow> cluster_step c V ok w w'"
| ap_run: "ap_Reconcile c req w = (r, w') \<Longrightarrow> cluster_step c V ok w w'"
| by_others: "user_step c (V w) (V w') \<Longrightarrow> cluster_step c V ok w w'"

inductive_cases cluster_stepE: "cluster_step c V ok w w'"

text \<open>Before the controllers are started, no gateway has the annotation.\<close>

inductive reachable :: "'w env \<Rightarrow> ('w \<Rightarrow> snapshot) \<Rightarrow> (object_key \<Rightarrow> bool) \<Rightarrow> 'w \<Rightarrow> bool" for c V ok where
  start: "(\<And>k gw. sn_Gateways (V w) k = Some gw \<Longrightarrow> annotations_of gw KuadrantRateLimitPolicyRefAnnotation = None) \<Longrightarrow>
    reachable c V ok w"
| more: "reachable c V ok w \<Longrightarrow> cluster_step c V ok w w' \<Longrightarrow> reachable c V ok w'"

lemma no_annotation:
  "annotations_of gw KuadrantRateLimitPolicyRefAnnotation = None \<Longrightarrow>
   refs_of J (Some gw) = [] \<and> refs_readable J (Some gw)"
  by (simp add: refs_of_def RLPRefs_def refs_readable_def)

lemma same_annotation:
  assumes "annotations_of gw' KuadrantRateLimitPolicyRefAnnotation = annotations_of gw KuadrantRateLimitPolicyRefAnnotation"
  shows "refs_of J (Some gw') = refs_of J (Some gw)" "refs_readable J (Some gw') = refs_readable J (Some gw)"
  by (simp_all add: refs_of_def RLPRefs_def refs_readable_def assms)

lemma no_dangling_gateways:
  assumes "no_dangling c s" "sn_RLPs s' = sn_RLPs s" "sn_HTTPRoutes s' = sn_HTTPRoutes s"
    and "\<And>k gw'. sn_Gateways s' k = Some gw' \<Longrightarrow> refs_readable (lib_Json c) (Some gw') \<and>
      (refs_of (lib_Json c) (Some gw') = [] \<or>
       (\<exists>gw. sn_Gateways s k = Some gw \<and> refs_of (lib_Json c) (Some gw') = refs_of (lib_Json c) (Some gw)))"
  shows "no_dangling c s'"
proof -
  have "backed c s' = backed c s"
    using names_gateway_cong[of s' s] assms(2,3) by (simp add: backed_def route_gateways_def fun_eq_iff)
  moreover have "refs_within (lib_Json c) (backed c s) s'"
    unfolding refs_within_def
  proof (intro allI impI)
    fix k gw' assume gw': "sn_Gateways s' k = Some gw'"
    from assms(4)[OF gw'] assms(1)
    show "refs_readable (lib_Json c) (Some gw') \<and> distinct (refs_of (lib_Json c) (Some gw')) \<and>
        (\<forall>rk \<in> set (refs_of (lib_Json c) (Some gw')). backed c s k rk)"
      by (auto simp: no_dangling_def dest: refs_withinD)
  qed
  ultimately show ?thesis by (simp add: no_dangling_def)
qed

lemma user_step_no_dangling:
  assumes "user_step c s s'" "no_dangling c s"
  shows "no_dangling c s'"
  using assms
proof (induction rule: user_step.induct)
  case (policy_created s k rlp)
  then show ?case by (intro no_dangling_written[OF policy_created.prems]) auto
next
  case (policy_edited s k rlp rlp')
  then show ?case by (intro no_dangling_written[OF policy_edited.prems]) auto
next
  case (policy_removed s k rlp)
  let ?s = "s\<lparr>sn_RLPs := (sn_RLPs s)(k := None)\<rparr>"
  have "backed c ?s gk k'" if "backed c s gk k'" for gk k'
    using that policy_removed.hyps names_gateway_cong[of ?s s]
    by (auto simp: backed_def route_gateways_def fun_eq_iff)
  then show ?case
    using policy_removed.prems by (auto simp: no_dangling_def refs_within_def)
next
  case (gateway_created s k gw)
  note new = no_annotation[OF gateway_created.hyps(2), of "lib_Json c"]
  show ?case
    by (rule no_dangling_gateways[OF gateway_created.prems])
      (use new gateway_created.prems in \<open>auto simp: no_dangling_def dest: refs_withinD split: if_splits\<close>)
next
  case (gateway_edited s k gw gw')
  note new = same_annotation[OF gateway_edited.hyps(2), of "lib_Json c"]
  show ?case
    by (rule no_dangling_gateways[OF gateway_edited.prems])
      (use new gateway_edited in \<open>auto simp: no_dangling_def dest: refs_withinD split: if_splits\<close>)
next
  case (gateway_removed s k)
  show ?case
    by (rule no_dangling_gateways[OF gateway_removed])
      (use gateway_removed in \<open>auto simp: no_dangling_def dest: refs_withinD split: if_splits\<close>)
next
  case (route_written s k route)
  let ?s = "s\<lparr>sn_HTTPRoutes := (sn_HTTPRoutes s)(k \<mapsto> route)\<rparr>"
  have "\<exists>Y. route_gateways ?s k' = Some Y \<and> X \<subseteq> Y" if "route_gateways s k' = Some X" for k' X
    using that route_written.hyps by (auto simp: route_gateways_def)
  from names_gateway_mono[OF this] have "backed c ?s gk k'" if "backed c s gk k'" for gk k'
    using that unfolding backed_def by auto
  then show ?case
    using route_written.prems by (auto simp: no_dangling_def refs_within_def)
next
  case (other_written s' s)
  have "backed c s' = backed c s"
    using other_written.hyps names_gateway_cong[of s' s]
    by (simp add: backed_def route_gateways_def seen_parts_def fun_eq_iff)
  with other_written show ?case by (simp add: no_dangling_def refs_within_def seen_parts_def)
qed


lemma cluster_env_status: "status_writes_status cluster_env cluster_view"
  unfolding status_writes_status_def
proof (intro allI impI)
  fix w r w' p st
  assume stored: "sn_RLPs (cluster_view w) (ObjectKeyFromObject p) = Some p"
    and upd: "api_StatusUpdate (cl_RLPs cluster_env) (p\<lparr>rlp_Status := st\<rparr>) w = (r, w')"
  have key: "ObjectKeyFromObject (p\<lparr>rlp_Status := st\<rparr>) = ObjectKeyFromObject p"
    by (simp add: ObjectKeyFromObject_def)
  from stored have "list_view cs_RLPs w (ObjectKeyFromObject p) = Some p" by (simp add: cluster_view_def)
  with upd have "w' = cs_RLPs_update (\<lambda>_. list_store (p\<lparr>rlp_Status := st\<rparr>) (cs_RLPs w)) w"
    by (simp add: cluster_env_sel list_api_def key)
  then have "sn_RLPs (cluster_view w') =
      (sn_RLPs (cluster_view w))(ObjectKeyFromObject p \<mapsto> p\<lparr>rlp_Status := st\<rparr>)"
    using list_view_store(1)[where get = cs_RLPs and put = "\<lambda>xs. cs_RLPs_update (\<lambda>_. xs)" and w = w and
        obj = "p\<lparr>rlp_Status := st\<rparr>"]
    by (simp add: cluster_view_def key)
  then show "\<exists>p' st'. sn_RLPs (cluster_view w') = (sn_RLPs (cluster_view w))(ObjectKeyFromObject p \<mapsto> p') \<and>
      content_eq p' (p\<lparr>rlp_Status := st'\<rparr>)"
    using content_eq_refl by blast
qed

lemma cluster_env_finalizer: "adds_finalizer cluster_env"
  by (simp add: adds_finalizer_def cluster_env_def)


section \<open>A route that goes before its policy\<close>

definition no_diff :: gatewayDiff where
  "no_diff = \<lparr>gd_NewGateways = [], gd_SameGateways = [], gd_LeftGateways = []\<rparr>"

lemma no_diff_steps:
  "reconcileGatewayRLPReferences c rlp no_diff w = (Inr no_diff, w)"
  "reconcileWASMPluginConf c rlp no_diff w = (Inr (), w)"
  "reconcileRateLimitingClusterEnvoyFilter c rlp no_diff w = (Inr (), w)"
  by (simp_all add: no_diff_def reconcileGatewayRLPReferences_def reconcileWASMPluginConf_alt plugin_work_def
      reconcileEnvoyFilter_alt filter_work_def)

text \<open>The clean-up of a policy whose route is gone touches nothing.\<close>

lemma finalizeRLP_without_route:
  assumes "cluster_api c V" "IsTargetRefHTTPRoute (rlp_TargetRef rlp)"
    and gone: "sn_HTTPRoutes (V w) (target_key (rlp_TargetRef rlp) (obj_Namespace rlp)) = None"
    and run: "finalizeRLP c rlp w = (r, w')"
  shows "V w'\<lparr>sn_Limitadors := Map.empty\<rparr> = V w\<lparr>sn_Limitadors := Map.empty\<rparr>"
proof -
  have "\<exists>e. TargetedGatewayKeys c (rlp_TargetRef rlp) (obj_Namespace rlp) w = (Inl e, w) \<and> IsNotFound e"
    using assms(2) gone
    by (cases rule: FetchValidHTTPRoute_run[OF cluster_store(4)[OF assms(1)], of w "target_key (rlp_TargetRef rlp) (obj_Namespace rlp)"])
      (auto simp: TargetedGatewayKeys_def)
  then have diff: "computeFinalizeGatewayDiff c rlp w = (Inr no_diff, w)"
    by (auto simp: computeFinalizeGatewayDiff_def no_diff_def)
  obtain l w1 where limits: "reconcileLimits c rlp no_diff w = (l, w1)" by fastforce
  have w1: "V w1\<lparr>sn_Limitadors := Map.empty\<rparr> = V w\<lparr>sn_Limitadors := Map.empty\<rparr>"
    by (rule preservesD[OF preserves_Limits[OF assms(1)] refl limits])
  then have "sn_HTTPRoutes (V w1) = sn_HTTPRoutes (V w)" by (cases "V w1"; cases "V w"; simp)
  with assms(2) gone have target: "target_at (V w1) (rlp_TargetRef rlp) (obj_Namespace rlp) = None"
    by (simp add: target_at_def IsTargetRefHTTPRoute_def Let_def)
  obtain d w2 where release: "rlp_deleteNetworkResourceBackReference c rlp w1 = (d, w2)" by fastforce
  have "w2 = w1"
    using DeleteTargetBackReference_run[OF assms(1) release[unfolded rlp_deleteNetworkResourceBackReference_def]] target
    by simp
  moreover have "w' = w1 \<or> w' = w2"
    using run diff limits release
    by (cases l) (auto simp: finalizeRLP_def no_diff_steps attempt_def bindE_def split: if_splits)
  ultimately show ?thesis using w1 by auto
qed

text \<open>
  C14: A route that is deleted before the policy that targets it leaves dangling references. Then a
  Reconcile of the deleted policy that succeeds leaves every gateway as it was, the ones that refer
  to the policy included; and from the moment the policy is gone, the limits of such a gateway can
  no longer be computed: gatewayLimits ends with an error for every list with the reference.
\<close>

theorem stale_references_survive:
  assumes "cluster_api c V" "sn_RLPs (V w) req = Some rlp" "obj_DeletionTimestamp rlp \<noteq> None"
    and "lib_ContainsFinalizer c (obj_Finalizers rlp) rateLimitPolicyFinalizer"
    and "IsTargetRefHTTPRoute (rlp_TargetRef rlp)"
    and "sn_HTTPRoutes (V w) (target_key (rlp_TargetRef rlp) (obj_Namespace rlp)) = None"
    and "rlp_Reconcile c req w = (Inr result_ok, w')"
  shows "sn_Gateways (V w') = sn_Gateways (V w) \<and>
    (\<forall>w2 gw refs. sn_RLPs (V w2) req = None \<longrightarrow> req \<in> set refs \<longrightarrow> (\<exists>e. gatewayLimits c gw refs w2 = (Inl e, w2)))"
proof (intro conjI allI impI)
  from Reconcile_deleted_steps[OF assms(1-4,7)] obtain w1 where
    "finalizeRLP c rlp w = (Inr (), w1)" and rest: "V w'\<lparr>sn_RLPs := Map.empty\<rparr> = V w1\<lparr>sn_RLPs := Map.empty\<rparr>"
    by blast
  from finalizeRLP_without_route[OF assms(1,5,6) this(1)] rest
  show "sn_Gateways (V w') = sn_Gateways (V w)"
    by (cases "V w1"; cases "V w"; cases "V w'"; simp)
next
  fix w2 gw refs assume gone: "sn_RLPs (V w2) req = None" "req \<in> set refs"
  have "those (map (sn_RLPs (V w2)) refs) = None" using gone by (induction refs) (auto split: option.split)
  then have "resolve c (V w2) refs = None" by (simp add: resolve_def)
  with gatewayLimits_run[OF assms(1), where w = w2 and refs = refs and gw = gw]
  show "\<exists>e. gatewayLimits c gw refs w2 = (Inl e, w2)" by simp
qed

definition orphaned_cluster :: cluster where
  "orphaned_cluster = claimed_cluster\<lparr>cs_RLPs := [deleted_policy], cs_HTTPRoutes := []\<rparr>"

theorem stale_references_survive_witness:
  "\<exists>w' e. rlp_Reconcile cluster_env (ObjectKey ''default'' ''rlp'') orphaned_cluster = (Inr result_ok, w') \<and>
     sn_Gateways (cluster_view w') (ObjectKey ''istio'' ''gw'') = Some referring_gateway \<and>
     ContainsRLP reference_json (Some referring_gateway) (ObjectKey ''default'' ''rlp'') \<and>
     gatewayLimits cluster_env (Some referring_gateway) [ObjectKey ''default'' ''rlp''] (w'\<lparr>cs_RLPs := []\<rparr>) =
       (Inl e, w'\<lparr>cs_RLPs := []\<rparr>)"
proof -
  note policy = deleted_policy_sel
  note sel = orphaned_cluster_def claimed_cluster_sel policy(3)
  have diff: "computeFinalizeGatewayDiff cluster_env deleted_policy orphaned_cluster = (Inr no_diff, orphaned_cluster)"
    by (simp add: computeFinalizeGatewayDiff_def TargetedGatewayKeys_def FetchValidHTTPRoute_def policy go_eval
        sel attempt_def bindE_def no_diff_def)
  have "NewLimitadorIndex (Some example_limitador) = []"
    by (simp add: NewLimitadorIndex_def example_limitador_def k8s_object.defs)
  then have limits: "reconcileLimits cluster_env deleted_policy no_diff orphaned_cluster = (Inr (), orphaned_cluster)"
    by (simp add: reconcileLimits_alt go_eval sel limitadorKey_def recompute_index_def recomputed_def no_diff_def
        LimitIndex_Equals_def bindE_def)
  have release: "rlp_deleteNetworkResourceBackReference cluster_env deleted_policy orphaned_cluster = (Inr (), orphaned_cluster)"
    by (simp add: rlp_deleteNetworkResourceBackReference_def DeleteTargetBackReference_def FetchValidTargetRef_def
        FetchValidHTTPRoute_def policy go_eval sel attempt_def bindE_def Let_def)
  have fin: "finalizeRLP cluster_env deleted_policy orphaned_cluster = (Inr (), orphaned_cluster)"
    using diff limits release by (simp add: finalizeRLP_def no_diff_steps attempt_def bindE_def)
  obtain w' where run: "rlp_Reconcile cluster_env (ObjectKey ''default'' ''rlp'') orphaned_cluster = (Inr result_ok, w')"
    using fin policy(3-5) by (auto simp: rlp_Reconcile_def go_eval sel UpdateResource_def bindE_def attempt_def ObjectKeyFromObject_def)
  have stored: "sn_RLPs (cluster_view orphaned_cluster) (ObjectKey ''default'' ''rlp'') = Some deleted_policy"
    "IsTargetRefHTTPRoute (rlp_TargetRef deleted_policy)"
    "sn_HTTPRoutes (cluster_view orphaned_cluster) (target_key (rlp_TargetRef deleted_policy) (obj_Namespace deleted_policy)) = None"
    by (simp_all add: go_eval list_view_def sel policy)
  note stale = stale_references_survive[OF cluster_env_api stored(1) policy(4,5) stored(2,3) run]
  have "sn_RLPs (cluster_view (w'\<lparr>cs_RLPs := []\<rparr>)) (ObjectKey ''default'' ''rlp'') = None"
    by (simp add: go_eval list_view_def)
  with stale obtain e where e: "gatewayLimits cluster_env (Some referring_gateway) [ObjectKey ''default'' ''rlp'']
      (w'\<lparr>cs_RLPs := []\<rparr>) = (Inl e, w'\<lparr>cs_RLPs := []\<rparr>)"
    by fastforce
  have "sn_Gateways (cluster_view orphaned_cluster) (ObjectKey ''istio'' ''gw'') = Some referring_gateway"
    by (simp add: go_eval list_view_def sel)
  with stale have "sn_Gateways (cluster_view w') (ObjectKey ''istio'' ''gw'') = Some referring_gateway" by simp
  with run e show ?thesis by (auto simp: ContainsRLP_refs)
qed

end
