(* ===== verification/Settling.thy ===== *)
theory Settling
  imports System
begin

text \<open>
  That the controller of RateLimitPolicies comes to rest: what a successful Reconcile has left is
  taken by the next one as it is. The writes of a run are events, which queue the policy again, so
  without this the controller would keep itself busy. It holds where the plugin of each gateway
  concerned has one domain (the order of several is that of a map range) and where the comparison
  of limits is faithful.
\<close>

section \<open>Policies that differ in their status\<close>

definition same_spec :: "RateLimitPolicy \<Rightarrow> RateLimitPolicy \<Rightarrow> bool" where
  "same_spec p q \<longleftrightarrow> rlp_Spec q = rlp_Spec p \<and> obj_Namespace q = obj_Namespace p"

definition same_plan :: "RateLimitPolicy \<times> http_route \<Rightarrow> RateLimitPolicy \<times> http_route \<Rightarrow> bool" where
  "same_plan x y \<longleftrightarrow> same_spec (fst x) (fst y) \<and> snd y = snd x"

definition same_specs :: "snapshot \<Rightarrow> snapshot \<Rightarrow> bool" where
  "same_specs s s' \<longleftrightarrow> (\<forall>k. rel_option same_spec (sn_RLPs s k) (sn_RLPs s' k)) \<and> sn_HTTPRoutes s' = sn_HTTPRoutes s"

lemma same_spec_refl: "rel_option same_spec x x"
  by (cases x) (simp_all add: same_spec_def)

lemma content_eq_same_spec:
  fixes p q :: RateLimitPolicy
  shows "content_eq q (p\<lparr>rlp_Status := st\<rparr>) \<Longrightarrow> same_spec p q"
  by (cases p; cases q) (simp add: content_eq_def same_spec_def)

lemma same_spec_sel:
  assumes "same_spec p q"
  shows "rlp_Spec q = rlp_Spec p" "obj_Namespace q = obj_Namespace p" "TargetKey q = TargetKey p"
    "FlattenLimits q = FlattenLimits p" "Validate q = Validate p" "rule_hosts q = rule_hosts p"
    "GatewayActionsFromRateLimitPolicy (Some q) r = GatewayActionsFromRateLimitPolicy (Some p) r"
  using assms by (simp_all add: same_spec_def TargetKey_def FlattenLimits_def Validate_def rule_hosts_def
      GatewayActionsFromRateLimitPolicy_def split: option.split)

lemma merge_same_spec:
  assumes "rel_option same_spec g g'" "same_spec p q"
  shows "mergeLimits q g' = mergeLimits p g" "mergeGatewayActions q g' r = mergeGatewayActions p g r"
  using assms(1) by (auto simp: mergeLimits_def mergeGatewayActions_def same_spec_sel[OF assms(2)] same_spec_sel(4,7)
      elim!: option.rel_cases)

lemma plan_same_spec:
  assumes "rel_option same_spec g g'" "list_all2 same_plan prs prs'"
  shows "gateway_limits_at gw g' prs' = gateway_limits_at gw g prs"
    and "gateway_actions_at gw g' prs' = gateway_actions_at gw g prs"
    and "gateway_domains gw g' prs' = gateway_domains gw g prs"
proof -
  have routes: "map (\<lambda>(p, r). f p r) prs' = map (\<lambda>(p, r). f' p r) prs"
    if "\<And>p q r. same_spec p q \<Longrightarrow> f q r = f' p r" for f f' :: "RateLimitPolicy \<Rightarrow> http_route \<Rightarrow> 'b list"
    using assms(2) by (induction rule: list_all2_induct) (auto simp: same_plan_def that)
  have "map (\<lambda>(p, r). concat (replicate (count_list (rt_Hostnames r) d) (mergeLimits p g'))) prs' =
      map (\<lambda>(p, r). concat (replicate (count_list (rt_Hostnames r) d) (mergeLimits p g))) prs" for d
    by (rule routes) (simp add: merge_same_spec[OF assms(1)])
  then show "gateway_limits_at gw g' prs' = gateway_limits_at gw g prs"
    using assms(1) by (auto simp: fun_eq_iff gateway_limits_at_def same_spec_sel(4) elim!: option.rel_cases)
  have "map (\<lambda>(p, r). concat (replicate (count_list (rt_Hostnames r) d) (mergeGatewayActions p g' r))) prs' =
      map (\<lambda>(p, r). concat (replicate (count_list (rt_Hostnames r) d) (mergeGatewayActions p g r))) prs" for d
    by (rule routes) (simp add: merge_same_spec[OF assms(1)])
  then show "gateway_actions_at gw g' prs' = gateway_actions_at gw g prs"
    using assms(1) by (auto simp: fun_eq_iff gateway_actions_at_def same_spec_sel(7) elim!: option.rel_cases)
  have "map snd prs' = map snd prs"
    using assms(2) by (induction rule: list_all2_induct) (auto simp: same_plan_def)
  then have snds: "snd ` set prs' = snd ` set prs" by (metis set_map)
  have hosts: "(\<Union>(p, r) \<in> A. set (rt_Hostnames r)) = (\<Union>r \<in> snd ` A. set (rt_Hostnames r))"
    for A :: "(RateLimitPolicy \<times> http_route) set" by (auto simp: split_beta)
  have "(\<Union>(p, r) \<in> set prs'. set (rt_Hostnames r)) = (\<Union>(p, r) \<in> set prs. set (rt_Hostnames r))"
    by (simp only: hosts snds)
  then show "gateway_domains gw g' prs' = gateway_domains gw g prs"
    using assms(1) by (auto simp: gateway_domains_def elim!: option.rel_cases)
qed

lemma list_all2_filter_same:
  assumes "list_all2 R xs ys" "\<And>x y. R x y \<Longrightarrow> P y = P x"
  shows "list_all2 R (filter P xs) (filter P ys)"
  using assms(1) by (induction rule: list_all2_induct) (auto simp: assms(2))

lemma resolve_same_spec:
  assumes "same_specs s s'" "resolve c s refs = Some (g, prs)"
  shows "\<exists>g' prs'. resolve c s' refs = Some (g', prs') \<and> rel_option same_spec g g' \<and> list_all2 same_plan prs prs'"
proof -
  from assms(2) obtain ps where ps: "those (map (sn_RLPs s) refs) = Some ps"
    by (auto simp: resolve_def split: option.splits)
  let ?rs = "filter (\<lambda>p. tr_Kind (rlp_TargetRef p) = ''HTTPRoute'')"
  let ?gs = "filter (\<lambda>p. tr_Kind (rlp_TargetRef p) = ''Gateway'')"
  from assms(2) ps obtain routes where routes: "those (map (\<lambda>p. usable_route c s (TargetKey p)) (?rs ps)) = Some routes"
    and gs: "?gs ps = opt_list g" "prs = zip (?rs ps) routes"
    by (auto simp: resolve_def Let_def opt_list_def split: option.splits list.splits)
  have "rel_option (list_all2 same_spec) (those (map (sn_RLPs s) refs)) (those (map (sn_RLPs s') refs))"
    by (rule those_rel) (use assms(1) in \<open>simp add: same_specs_def\<close>)
  with ps obtain ps' where ps': "those (map (sn_RLPs s') refs) = Some ps'" "list_all2 same_spec ps ps'"
    by (auto elim: option.rel_cases)
  have rs: "list_all2 same_spec (?rs ps) (?rs ps')" and gs': "list_all2 same_spec (?gs ps) (?gs ps')"
    by (rule list_all2_filter_same[OF ps'(2)]; simp add: same_spec_def)+
  have u: "usable_route c s' = usable_route c s"
    using assms(1) by (simp add: same_specs_def usable_route_def fun_eq_iff)
  have "map (\<lambda>p. usable_route c s' (TargetKey p)) (?rs ps') = map (\<lambda>p. usable_route c s (TargetKey p)) (?rs ps)"
    using rs by (induction rule: list_all2_induct) (auto simp: u same_spec_sel(3))
  with routes have routes': "those (map (\<lambda>p. usable_route c s' (TargetKey p)) (?rs ps')) = Some routes" by simp
  have plan: "list_all2 same_plan (zip (?rs ps) routes) (zip (?rs ps') routes)"
    using rs by (auto simp: list_all2_conv_all_nth same_plan_def)
  show ?thesis
  proof (cases g)
    case None
    with gs gs' have "?gs ps' = []" by (simp add: opt_list_def)
    with ps'(1) routes' plan None gs(2) show ?thesis
      by (intro exI[of _ None] exI[of _ "zip (?rs ps') routes"]) (simp add: resolve_def Let_def)
  next
    case (Some p)
    with gs gs' obtain q where "?gs ps' = [q]" "same_spec p q" by (auto simp: opt_list_def list_all2_Cons1)
    with ps'(1) routes' plan Some gs(2) show ?thesis
      by (intro exI[of _ "Some q"] exI[of _ "zip (?rs ps') routes"]) (simp add: resolve_def Let_def)
  qed
qed

lemma wanted_same_spec:
  assumes "same_specs s s'"
  shows "plugin_as_wanted c s gr p \<Longrightarrow> plugin_as_wanted c s' gr p"
    and "sn_Limitadors s' = sn_Limitadors s \<Longrightarrow> limits_as_wanted c s gw \<Longrightarrow> limits_as_wanted c s' gw"
proof -
  show "plugin_as_wanted c s' gr p" if "plugin_as_wanted c s gr p"
  proof (cases "snd gr = []")
    case False
    with that obtain g prs config st obj where *: "resolve c s (snd gr) = Some (g, prs)"
      "config_for (Some (fst gr)) g prs config" "ToStruct (lib_Wasm c) config = Inr st" "p = Some obj"
      "WASMPluginFromStruct (lib_Wasm c) (wp_PluginConfig obj) = WASMPluginFromStruct (lib_Wasm c) (Some st)"
      by (auto simp: plugin_as_wanted_def)
    from resolve_same_spec[OF assms *(1)] obtain g' prs' where res: "resolve c s' (snd gr) = Some (g', prs')"
      and same: "rel_option same_spec g g'" "list_all2 same_plan prs prs'" by blast
    have "config_for (Some (fst gr)) g' prs' config"
      using *(2) by (simp add: config_for_def plan_same_spec[OF same])
    with res * False show ?thesis by (auto simp: plugin_as_wanted_def)
  qed (use that in \<open>simp add: plugin_as_wanted_def\<close>)
  show "limits_as_wanted c s' gw" if lims: "sn_Limitadors s' = sn_Limitadors s" and "limits_as_wanted c s gw"
  proof -
    from that(2) obtain g prs lim where *: "resolve c s (refs_of (lib_Json c) (Some gw)) = Some (g, prs)"
      "sn_Limitadors s (limitadorKey c) = Some lim"
      "\<And>d. mset (limits_named (lim_Limits lim) (ObjectKeyFromObject gw) d) = mset (gateway_limits_at (Some gw) g prs d)"
      by (auto simp: limits_as_wanted_def)
    from resolve_same_spec[OF assms *(1)] obtain g' prs' where
      res: "resolve c s' (refs_of (lib_Json c) (Some gw)) = Some (g', prs')"
      and same: "rel_option same_spec g g'" "list_all2 same_plan prs prs'" by blast
    with * lims show ?thesis by (auto simp: limits_as_wanted_def plan_same_spec[OF same])
  qed
qed

section \<open>Steps that have nothing to do\<close>

text \<open>With one domain at most there is one configuration.\<close>

definition single_domain :: "'w env \<Rightarrow> snapshot \<Rightarrow> gateway \<Rightarrow> bool" where
  "single_domain c s gw \<longleftrightarrow> (\<forall>g prs. resolve c s (refs_of (lib_Json c) (Some gw)) = Some (g, prs) \<longrightarrow>
     (\<exists>d. gateway_domains (Some gw) g prs \<subseteq> {d}))"

lemma config_unique:
  assumes "config_for gw g prs a" "config_for gw g prs b" "gateway_domains gw g prs \<subseteq> {d}"
  shows "a = b"
proof -
  have one: "ds = (if d \<in> set ds then [d] else [])" if "distinct ds" "set ds \<subseteq> {d}" for ds :: "string list"
  proof (cases ds)
    case (Cons x xs)
    with that have "x = d" "set xs \<subseteq> {d}" "d \<notin> set xs" by auto
    then have "set xs = {}" using subset_singletonD[of "set xs" d] by auto
    with Cons \<open>x = d\<close> show ?thesis by simp
  qed simp
  from assms obtain ds es where "distinct ds" "set ds = gateway_domains gw g prs" "distinct es" "set es = gateway_domains gw g prs"
    and a: "RateLimitPolicies a = map (\<lambda>d. wasm_rate_limit_policy gw d (gateway_actions_at gw g prs d)) ds" "FailureModeDeny a"
    and b: "RateLimitPolicies b = map (\<lambda>d. wasm_rate_limit_policy gw d (gateway_actions_at gw g prs d)) es" "FailureModeDeny b"
    by (auto simp: config_for_def)
  with one[of ds] one[of es] assms(3) have "ds = es" by simp
  with a b show ?thesis by (cases a; cases b) simp
qed

lemma reconcile_plugin_settled:
  assumes "cluster_api c V" "codecs_total c" "refs_of (lib_Json c) (Some gw) = refs" "refs \<noteq> []"
    and wanted: "plugin_as_wanted c (V w) (gw, refs) (sn_WasmPlugins (V w) (plugin_key gw))"
    and "single_domain c (V w) gw"
  shows "reconcile_plugin c gw refs w = (Inr (), w)"
proof -
  from wanted assms(4) obtain g prs config st obj where res: "resolve c (V w) refs = Some (g, prs)"
    and config: "config_for (Some gw) g prs config" "ToStruct (lib_Wasm c) config = Inr st"
    and obj: "sn_WasmPlugins (V w) (plugin_key gw) = Some obj"
      "WASMPluginFromStruct (lib_Wasm c) (wp_PluginConfig obj) = WASMPluginFromStruct (lib_Wasm c) (Some st)"
    by (auto simp: plugin_as_wanted_def)
  obtain x where x: "WASMPluginFromStruct (lib_Wasm c) (Some st) = Inr x"
    using assms(2) config(2) unfolding codecs_total_def by (metis sum.inject(2))
  obtain d where d: "gateway_domains (Some gw) g prs \<subseteq> {d}"
    using assms(3,6) res by (auto simp: single_domain_def)
  from gatewayWASMPlugin_run[OF assms(1), where w = w and refs = refs and gw = gw] res assms(4) obtain config' where
    config': "config_for (Some gw) g prs config'" and run: "gatewayWASMPlugin c gw refs w =
      (case ToStruct (lib_Wasm c) config' of Inl e \<Rightarrow> (Inl e, w) | Inr st \<Rightarrow> (Inr (plugin_object c gw (Some st)), w))"
    by auto
  have "config' = config" by (rule config_unique[OF config' config(1) d])
  with run config(2) have made: "gatewayWASMPlugin c gw refs w = (Inr (plugin_object c gw (Some st)), w)" by simp
  have "api_Get (cl_WasmPlugins c) (ObjectKeyFromObject (plugin_object c gw (Some st))) w = (Inr obj, w)"
    using store_Get_Some[OF cluster_store(6)[OF assms(1)], where w = w and k = "plugin_key gw" and obj = obj] obj(1) by simp
  from ReconcileResource_present[OF this] made obj(2) x show ?thesis
    by (simp add: reconcile_plugin_def WASMPluginMutator_def)
qed

lemma forE_settled: "(\<And>x. x \<in> set xs \<Longrightarrow> f x w = (Inr (), w)) \<Longrightarrow> forE f xs w = (Inr (), w)"
  by (induction xs) simp_all

lemma reconcileLimits_settled:
  assumes "cluster_api c V" "gd_LeftGateways diff = []"
    and "distinct (map ObjectKeyFromObject (gd_SameGateways diff @ gd_NewGateways diff))"
    and lim: "sn_Limitadors (V w) (limitadorKey c) = Some lim"
    and "list_all (\<lambda>gr. resolve c (V w) (snd gr) \<noteq> None) (recomputed (lib_Json c) rlp diff)"
    and bags: "\<And>gr d. gr \<in> set (recomputed (lib_Json c) rlp diff) \<Longrightarrow>
      mset (limits_named (lim_Limits lim) (ObjectKeyFromObject (fst gr)) d) = mset (limits_for c (V w) gr d)"
    and ties: "\<And>k d. no_ties (limits_named (lim_Limits lim) k d)"
  shows "reconcileLimits c rlp diff w = (Inr (), w)"
proof (rule reconcileLimits_unchanged[OF assms(1,3) lim assms(5) _ ties])
  show "mset (limits_named (lim_Limits lim) k d) = mset (limits_after c (V w) rlp diff (limits_named (lim_Limits lim)) k d)" for k d
  proof (cases "find (\<lambda>gr. ObjectKeyFromObject (fst gr) = k) (recomputed (lib_Json c) rlp diff)")
    case (Some gr)
    then have "gr \<in> set (recomputed (lib_Json c) rlp diff)" "ObjectKeyFromObject (fst gr) = k"
      by (auto simp: find_Some_iff)
    with bags[of gr d] Some show ?thesis by (simp add: limits_after_def)
  qed (simp add: limits_after_def assms(2))
qed

text \<open>A policy whose gateways are in order.\<close>

definition gateways_settled :: "'w env \<Rightarrow> snapshot \<Rightarrow> object_key \<Rightarrow> object_key list \<Rightarrow> bool" where
  "gateways_settled c s rk keys \<longleftrightarrow> (\<forall>k gw. sn_Gateways s k = Some gw \<longrightarrow>
     (let refs = refs_of (lib_Json c) (Some gw) in
      (rk \<in> set refs \<longleftrightarrow> k \<in> set keys) \<and>
      (k \<in> set keys \<longrightarrow> limits_as_wanted c s gw \<and> plugin_as_wanted c s (gw, refs) (sn_WasmPlugins s (plugin_key gw)) \<and>
         single_domain c s gw)))"

lemma reconcileGatewayDiffs_settled:
  assumes "cluster_api c V" "codecs_total c" "cl_ListGateways c w = (Inr l, w)"
    and keys: "TargetedGatewayKeys c (rlp_TargetRef rlp) (obj_Namespace rlp) w = (Inr keys, w)"
    and settled: "gateways_settled c (V w) (ObjectKeyFromObject rlp) keys"
    and lim: "sn_Limitadors (V w) (limitadorKey c) = Some lim" "\<And>k d. no_ties (limits_named (lim_Limits lim) k d)"
  shows "reconcileGatewayDiffs c rlp w = (Inr (), w)"
proof -
  let ?J = "lib_Json c" and ?rk = "ObjectKeyFromObject rlp"
  obtain diff where diff0: "computeGatewayDiffs c rlp w = (Inr diff, w)"
    using keys assms(3) by (auto simp: computeGatewayDiffs_def bindE_def)
  from computeGatewayDiffs_run(2)[OF assms(1) diff0 refl] keys obtain gws where
    gws: "distinct (map ObjectKeyFromObject gws)" "\<And>k. sn_Gateways (V w) k = find (\<lambda>g. ObjectKeyFromObject g = k) gws"
    and diff: "diff = \<lparr>gd_NewGateways = NewGateways ?J gws ?rk keys, gd_SameGateways = SameGateways ?J gws ?rk keys,
       gd_LeftGateways = LeftGateways ?J gws ?rk keys\<rparr>"
    by auto
  have here: "(?rk \<in> set (refs_of ?J (Some gw)) \<longleftrightarrow> ObjectKeyFromObject gw \<in> set keys) \<and>
      (ObjectKeyFromObject gw \<in> set keys \<longrightarrow> limits_as_wanted c (V w) gw \<and>
         plugin_as_wanted c (V w) (gw, refs_of ?J (Some gw)) (sn_WasmPlugins (V w) (plugin_key gw)) \<and> single_domain c (V w) gw)"
    if "gw \<in> set gws" for gw
    using settled gws(2) find_distinct_key[OF gws(1) that] unfolding gateways_settled_def Let_def by metis
  have none: "gd_NewGateways diff = []" "gd_LeftGateways diff = []"
    using here by (auto simp: diff NewGateways_def LeftGateways_def filter_empty_conv ContainsRLP_refs ContainsObjectKey_iff)
  have old: "gw \<in> set (gd_SameGateways diff) \<Longrightarrow> gw \<in> set gws \<and> ObjectKeyFromObject gw \<in> set keys" for gw
    by (simp add: diff SameGateways_def ContainsObjectKey_iff)
  have work: "plugin_work ?J rlp diff = map (\<lambda>gw. (gw, refs_of ?J (Some gw))) (gd_SameGateways diff)"
    "recomputed ?J rlp diff = map (\<lambda>gw. (gw, refs_of ?J (Some gw))) (gd_SameGateways diff)"
    "filter_work ?J rlp diff = []" by (simp_all add: plugin_work_def recomputed_def filter_work_def none)
  have "reconcileLimits c rlp diff w = (Inr (), w)"
  proof (rule reconcileLimits_settled[OF assms(1) none(2) _ lim(1) _ _ lim(2)])
    show "distinct (map ObjectKeyFromObject (gd_SameGateways diff @ gd_NewGateways diff))"
      using groups_distinct[OF gws(1), of ?J ?rk keys] by (auto simp: diff)
    show "list_all (\<lambda>gr. resolve c (V w) (snd gr) \<noteq> None) (recomputed ?J rlp diff)"
      using here old by (fastforce simp: work list_all_iff limits_as_wanted_def)
    fix gr d assume "gr \<in> set (recomputed ?J rlp diff)"
    then obtain gw where gw: "gr = (gw, refs_of ?J (Some gw))" "gw \<in> set (gd_SameGateways diff)" by (auto simp: work)
    with here old have "limits_as_wanted c (V w) gw" by blast
    with gw lim(1) show "mset (limits_named (lim_Limits lim) (ObjectKeyFromObject (fst gr)) d) = mset (limits_for c (V w) gr d)"
      by (auto simp: limits_as_wanted_def limits_for_def)
  qed
  moreover have "reconcileRateLimitingClusterEnvoyFilter c rlp diff w = (Inr (), w)"
    by (simp add: reconcileEnvoyFilter_alt work)
  moreover have "reconcileWASMPluginConf c rlp diff w = (Inr (), w)"
    unfolding reconcileWASMPluginConf_alt
  proof (rule forE_settled)
    fix gr assume "gr \<in> set (plugin_work ?J rlp diff)"
    then obtain gw where gw: "gr = (gw, refs_of ?J (Some gw))" "gw \<in> set (gd_SameGateways diff)" by (auto simp: work)
    with here[of gw] old have "refs_of ?J (Some gw) \<noteq> []" by auto
    from reconcile_plugin_settled[OF assms(1,2) refl this] here[of gw] old gw
    show "reconcile_plugin c (fst gr) (snd gr) w = (Inr (), w)" by simp
  qed
  moreover have "reconcileGatewayRLPReferences c rlp diff w = (Inr diff, w)"
    by (cases diff) (use none in \<open>simp add: reconcileGatewayRLPReferences_def\<close>)
  ultimately show ?thesis using diff0 by (simp add: reconcileGatewayDiffs_def)
qed

section \<open>The next reconciliation\<close>

lemma reconcileSpec_settled:
  assumes "cluster_api c V" "Validate rlp = None"
    and obj: "target_at (V w) (rlp_TargetRef rlp) (obj_Namespace rlp) = Some obj" "usable_target c obj"
      "target_annotations obj RateLimitPolicyBackRefAnnotation = Some (key_String (ObjectKeyFromObject rlp))"
    and hosts: "list_all (\<lambda>h. \<exists>d \<in> set (target_hosts obj). SubsetOf h d) (rule_hosts rlp)"
    and diffs: "reconcileGatewayDiffs c rlp w = (Inr (), w)"
  shows "reconcileSpec c rlp w = (Inr False, w)"
proof -
  let ?tr = "rlp_TargetRef rlp" and ?ns = "obj_Namespace rlp"
  have fetch: "FetchValidTargetRef c ?tr ?ns w = (Inr obj, w)"
    by (rule FetchValidTargetRef_run[OF assms(1), of w ?tr ?ns]) (use obj in auto)
  then have "fst (TargetHostnames c ?tr ?ns w) = Inr (target_hosts obj)" by (simp add: TargetHostnames_def)
  with hosts have "validateRuleHosts c rlp w = (Inr (), w)" by (simp add: validateRuleHosts_run[OF assms(1)])
  moreover have "reconcileDirectBackReference c rlp w = (Inr (), w)"
    using fetch obj(3) by (simp add: reconcileDirectBackReference_def ReconcileTargetBackReference_def Let_def)
  ultimately show ?thesis using assms(2) diffs by (simp add: reconcileSpec_def)
qed

text \<open>What a successful run has left, for the policy as its status was written.\<close>

lemma settled_after_run:
  assumes "cluster_api c V" "cluster_responds c V" "status_writes_status c V" "codecs_total c"
    and "refs_json (lib_Json c) ok" "ok req" "refs_sound (lib_Json c) (V w)"
    and policy: "sn_RLPs (V w) req = Some rlp" "obj_DeletionTimestamp rlp = None"
      "lib_ContainsFinalizer c (obj_Finalizers rlp) rateLimitPolicyFinalizer"
    and names: "\<And>w0 diff. reconcileDirectBackReference c rlp w = (Inr (), w0) \<Longrightarrow>
      computeGatewayDiffs c rlp w0 = (Inr diff, w0) \<Longrightarrow> names_ok c (V w0) rlp diff"
    and run: "rlp_Reconcile c req w = (Inr result_ok, w')"
    and single: "\<And>k gw. sn_Gateways (V w') k = Some gw \<Longrightarrow> ContainsRLP (lib_Json c) (Some gw) req \<Longrightarrow> single_domain c (V w') gw"
    and ties: "\<And>lim k d. sn_Limitadors (V w') (limitadorKey c) = Some lim \<Longrightarrow> no_ties (limits_named (lim_Limits lim) k d)"
  obtains rlp' st keys where "sn_RLPs (V w') req = Some rlp'" "content_eq rlp' (rlp\<lparr>rlp_Status := st\<rparr>)"
    "ObjectKeyFromObject rlp' = req" "reconcileSpec c rlp' w' = (Inr False, w')"
    "TargetedGatewayKeys c (rlp_TargetRef rlp') (obj_Namespace rlp') w' = (Inr keys, w')"
proof -
  let ?J = "lib_Json c" and ?ann = RateLimitPolicyBackRefAnnotation
  let ?tr = "rlp_TargetRef rlp" and ?ns = "obj_Namespace rlp"
  from Reconcile_live_steps[OF assms(1) policy run] obtain w0 w1 where steps: "Validate rlp = None"
    "validateRuleHosts c rlp w = (Inr (), w)" "reconcileDirectBackReference c rlp w = (Inr (), w0)"
    "reconcileGatewayDiffs c rlp w0 = (Inr (), w1)" "rlp_reconcileStatus c rlp None w1 = (Inr False, w')"
    and key: "ObjectKeyFromObject rlp = req"
    by metis
  note claim = steps(3)[unfolded reconcileDirectBackReference_def]
  note claimed = back_reference_retargeted(1)[OF assms(1) claim]
  have ann: "?ann \<noteq> KuadrantRateLimitPolicyRefAnnotation"
    by (simp add: RateLimitPolicyBackRefAnnotation_def KuadrantRateLimitPolicyRefAnnotation_def)
  note sound0 = refs_sound_retargeted[OF claimed ann assms(7)]
  have okk: "ok (ObjectKeyFromObject rlp)" using assms(6) key by simp
  from reconcileGatewayDiffs_run[OF assms(1,5) okk sound0 names[OF steps(3)] steps(4)] obtain keys diff where
    keys0: "TargetedGatewayKeys c ?tr ?ns w0 = (Inr keys, w0)" and conf: "configured c rlp diff (V w0) (V w1)"
    and refs: "\<And>k gw. sn_Gateways (V w1) k = Some gw \<Longrightarrow> ContainsRLP ?J (Some gw) req \<longleftrightarrow> k \<in> set keys"
    and same1: "sn_RLPs (V w1) = sn_RLPs (V w0)" "sn_HTTPRoutes (V w1) = sn_HTTPRoutes (V w0)"
    and moved: "\<And>k. rel_option (reannotated KuadrantRateLimitPolicyRefAnnotation) (sn_Gateways (V w0) k) (sn_Gateways (V w1) k)"
    unfolding key by blast
  have stored1: "sn_RLPs (V w1) (ObjectKeyFromObject rlp) = Some rlp"
    using policy(1) same1(1) retargeted_sel(1)[OF claimed] key by simp
  from reconcileStatus_policies[OF assms(1,3) stored1 steps(5)] obtain rlp' st where
    rlp': "sn_RLPs (V w') = (sn_RLPs (V w1))(req \<mapsto> rlp')" "content_eq rlp' (rlp\<lparr>rlp_Status := st\<rparr>)"
    unfolding key by blast
  have frame: "V w'\<lparr>sn_RLPs := Map.empty\<rparr> = V w1\<lparr>sn_RLPs := Map.empty\<rparr>"
    using preservesD[OF preserves_reconcileStatus[OF assms(1)] refl steps(5)] .
  then have same': "sn_HTTPRoutes (V w') = sn_HTTPRoutes (V w1)" "sn_Gateways (V w') = sn_Gateways (V w1)"
    "sn_Limitadors (V w') = sn_Limitadors (V w1)" "sn_WasmPlugins (V w') = sn_WasmPlugins (V w1)"
    by (cases "V w1"; cases "V w'"; simp)+
  note sp = same_spec_sel[OF content_eq_same_spec[OF rlp'(2)]]
  have key': "ObjectKeyFromObject rlp' = req"
    using content_eq_policy(4)[OF rlp'(2)] key by (simp add: ObjectKeyFromObject_def)
  have "same_spec rlp rlp'" by (rule content_eq_same_spec[OF rlp'(2)])
  with stored1 key rlp'(1) have specs: "same_specs (V w1) (V w')"
    by (simp add: same_specs_def same'(1) same_spec_refl)
  have keys': "TargetedGatewayKeys c ?tr ?ns w' = (Inr keys, w')"
    using TargetedGatewayKeys_cong[OF assms(1) _ keys0] same1(2) same'(1) by simp
  have "gateways_settled c (V w') req keys"
    unfolding gateways_settled_def Let_def
  proof (intro allI impI conjI)
    fix k gw assume gw: "sn_Gateways (V w') k = Some gw"
    then have gw1: "sn_Gateways (V w1) k = Some gw" using same'(2) by simp
    show refers: "req \<in> set (refs_of ?J (Some gw)) \<longleftrightarrow> k \<in> set keys"
      using refs[OF gw1] by (simp add: ContainsRLP_refs)
    assume k: "k \<in> set keys"
    note made = targeted_gateway_configured[OF assms(1,5) okk sound0 names[OF steps(3)] keys0 steps(4) gw1 k refl]
    show "limits_as_wanted c (V w') gw"
      by (rule wanted_same_spec(2)[OF specs same'(3) made(1)])
    show "plugin_as_wanted c (V w') (gw, refs_of ?J (Some gw)) (sn_WasmPlugins (V w') (plugin_key gw))"
      unfolding same'(4) by (rule wanted_same_spec(1)[OF specs made(2)])
    show "single_domain c (V w') gw"
      using single[OF gw] refers k by (simp add: ContainsRLP_refs)
  qed
  moreover obtain lim where "sn_Limitadors (V w') (limitadorKey c) = Some lim"
    using conf same'(3) by (auto simp: configured_def)
  ultimately have diffs: "reconcileGatewayDiffs c rlp' w' = (Inr (), w')"
    using responds_sel(6)[OF assms(2), of w'] keys' ties
    by (auto intro: reconcileGatewayDiffs_settled[OF assms(1,4)] simp: sp key')
  obtain obj where obj: "target_at (V w) ?tr ?ns = Some obj" "usable_target c obj"
    "list_all (\<lambda>h. \<exists>d \<in> set (target_hosts obj). SubsetOf h d) (rule_hosts rlp)"
  proof (rule FetchValidTargetRef_run[OF assms(1), of w ?tr ?ns])
    fix obj assume "target_at (V w) ?tr ?ns = Some obj" "usable_target c obj" "FetchValidTargetRef c ?tr ?ns w = (Inr obj, w)"
    with steps(2) show thesis
      by (intro that) (auto simp: validateRuleHosts_run[OF assms(1)] TargetHostnames_def split: if_splits)
  qed (use steps(2) in \<open>simp_all add: validateRuleHosts_run[OF assms(1)] TargetHostnames_def\<close>)
  obtain obj0 where obj0: "target_at (V w0) ?tr ?ns = Some obj0" "usable_target c obj0 = usable_target c obj"
    "target_hosts obj0 = target_hosts obj"
    using target_moved[OF _ _ obj(1), of ?ann "V w0" ?ann c thesis] claimed by (auto simp: retargeted_def)
  obtain obj' where obj': "target_at (V w') ?tr ?ns = Some obj'" "usable_target c obj' = usable_target c obj0"
    "target_hosts obj' = target_hosts obj0"
    using target_moved[OF _ _ obj0(1), of ?ann "V w'" KuadrantRateLimitPolicyRefAnnotation c thesis] moved
    by (auto simp: same' same1 option.rel_refl)
  have "target_annotations obj' ?ann = Some (key_String req)"
    using Reconcile_live_run[OF assms(1,5-7) policy names run] obj'(1) by auto
  with steps(1) obj(2,3) obj0 obj' diffs have "reconcileSpec c rlp' w' = (Inr False, w')"
    by (intro reconcileSpec_settled[OF assms(1), of rlp' w' obj']) (simp_all add: sp key')
  with that[of rlp' st keys] rlp' key' keys' show thesis by (simp add: sp)
qed


text \<open>The example cluster after a reconciliation: one gateway, with one reference, and one limit.\<close>

lemma settled_example:
  assumes "rlp_Reconcile cluster_env (ObjectKey ''default'' ''rlp'') example_cluster = (Inr result_ok, w1)"
  shows "sn_Gateways (cluster_view w1) k = Some gw \<Longrightarrow> single_domain cluster_env (cluster_view w1) gw"
    and "sn_Limitadors (cluster_view w1) (limitadorKey cluster_env) = Some lim1 \<Longrightarrow> no_ties (limits_named (lim_Limits lim1) k' d)"
proof -
  let ?gk = "ObjectKey ''istio'' ''gw''" and ?rk = "ObjectKey ''default'' ''rlp''"
  let ?s = "cluster_view example_cluster" and ?J = "lib_Json cluster_env"
  have policy: "sn_RLPs ?s ?rk = Some route_policy" by (simp add: go_eval list_view_def)
  from Reconcile_live_steps[OF cluster_env_api policy live_example assms] obtain wd where
    diffs: "reconcileGatewayDiffs cluster_env route_policy example_cluster = (Inr (), wd)"
    and status: "rlp_reconcileStatus cluster_env route_policy None wd = (Inr False, w1)"
    by (metis example_back_reference prod.inject)
  have diff: "diff = example_diff" if "computeGatewayDiffs cluster_env route_policy example_cluster = (Inr diff, example_cluster)" for diff
    using that computeGatewayDiffs_example by simp
  note run = reconcileGatewayDiffs_run[OF cluster_env_api example_hypotheses(1) TrueI example_hypotheses(2,3) diffs]
  have same: "sn_RLPs (cluster_view wd) = sn_RLPs ?s" "sn_HTTPRoutes (cluster_view wd) = sn_HTTPRoutes ?s"
    using run by blast+
  have frame: "cluster_view w1\<lparr>sn_RLPs := Map.empty\<rparr> = cluster_view wd\<lparr>sn_RLPs := Map.empty\<rparr>"
    by (rule preservesD[OF preserves_reconcileStatus[OF cluster_env_api] refl status])
  then have same1: "sn_HTTPRoutes (cluster_view w1) = sn_HTTPRoutes ?s" "sn_Gateways (cluster_view w1) = sn_Gateways (cluster_view wd)"
    "sn_Limitadors (cluster_view w1) = sn_Limitadors (cluster_view wd)"
    using same(2) by (cases "cluster_view w1"; cases "cluster_view wd"; simp)+
  show "single_domain cluster_env (cluster_view w1) gw" if gw: "sn_Gateways (cluster_view w1) k = Some gw"
  proof -
    have moved: "rel_option (reannotated KuadrantRateLimitPolicyRefAnnotation) (sn_Gateways ?s k) (sn_Gateways (cluster_view wd) k)"
      using run by blast
    then have "sn_Gateways ?s k \<noteq> None" using gw same1(2) by (auto elim: option.rel_cases)
    then have k: "k = ?gk" by (auto simp: go_eval list_view_def split: if_splits)
    have "job_done (example_gateway, AddRLP ?J ?rk (Some example_gateway)) (cluster_view wd)"
    proof (rule reconcileGatewayDiffs_steps[OF cluster_env_api example_hypotheses(3) targeted_example diffs])
      fix gws diff
      assume gws: "\<And>k. sn_Gateways ?s k = find (\<lambda>g. ObjectKeyFromObject g = k) gws"
        and diff: "diff = \<lparr>gd_NewGateways = NewGateways ?J gws (ObjectKeyFromObject route_policy) [?gk],
          gd_SameGateways = SameGateways ?J gws (ObjectKeyFromObject route_policy) [?gk],
          gd_LeftGateways = LeftGateways ?J gws (ObjectKeyFromObject route_policy) [?gk]\<rparr>"
        and jobs: "\<And>job. job \<in> set (reference_work ?J route_policy diff) \<Longrightarrow> job_done job (cluster_view wd)"
      have "find (\<lambda>g. ObjectKeyFromObject g = ?gk) gws = Some example_gateway"
        using gws[of ?gk] by (simp add: go_eval list_view_def)
      then have "example_gateway \<in> set gws" by (metis find_Some_iff nth_mem)
      then have "example_gateway \<in> set (gd_NewGateways diff)"
        by (simp add: diff NewGateways_def ContainsRLP_refs ContainsObjectKey_iff example_keys)
      then show ?thesis by (intro jobs) (simp add: reference_work_def example_keys)
    qed
    then have "content_eq gw (the (snd (AddRLP ?J ?rk (Some example_gateway))))"
      using gw same1(2) k by (auto simp: job_done_def example_keys split: prod.splits)
    from added_reference(2)[OF example_hypotheses(1) TrueI _ _ this] have refs: "refs_of ?J (Some gw) = [?rk]"
      using example_hypotheses(2) by (auto simp: refs_sound_def go_eval list_view_def)
    obtain p' st where "sn_RLPs (cluster_view w1) = (sn_RLPs ?s)(?rk \<mapsto> p')" "content_eq p' (route_policy\<lparr>rlp_Status := st\<rparr>)"
      using reconcileStatus_policies[OF cluster_env_api cluster_env_status _ status] policy same(1) by (auto simp: example_keys)
    with policy have "same_specs ?s (cluster_view w1)"
      by (simp add: same_specs_def same1(1) same_spec_refl content_eq_same_spec)
    from resolve_same_spec[OF this resolve_example(2)] obtain g prs where
      "resolve cluster_env (cluster_view w1) [?rk] = Some (g, prs)" "rel_option same_spec None g"
      "list_all2 same_plan [(route_policy, example_route)] prs" by blast
    moreover from plan_same_spec(3)[OF this(2,3), of "Some gw"]
    have "gateway_domains (Some gw) g prs = {''api.toystore.com''}"
      by (simp add: gateway_domains_def[of _ None]) (simp add: example_route_def k8s_object.defs)
    ultimately show ?thesis by (auto simp: single_domain_def refs)
  qed
  show "no_ties (limits_named (lim_Limits lim1) k' d)"
    if lim1: "sn_Limitadors (cluster_view w1) (limitadorKey cluster_env) = Some lim1"
  proof -
    from run obtain diff where "computeGatewayDiffs cluster_env route_policy example_cluster = (Inr diff, example_cluster)"
      "configured cluster_env route_policy diff ?s (cluster_view wd)" by blast
    with diff have "configured cluster_env route_policy example_diff ?s (cluster_view wd)" by blast
    then obtain lim where lim: "sn_Limitadors ?s (limitadorKey cluster_env) = Some lim"
      and bags: "mset (limits_named (lim_Limits lim1) k' d) =
        mset (limits_after cluster_env ?s route_policy example_diff (limits_named (lim_Limits lim)) k' d)"
      using lim1 same1(3) by (auto simp: configured_def)
    have "lim = example_limitador"
      using lim by (simp add: limitadorKey_def limitador_names go_eval list_view_def)
    then have "limits_named (lim_Limits lim) k' d = []"
      by (simp add: limits_named_def example_limitador_def new_object_def k8s_object.defs)
    then have "limits_after cluster_env ?s route_policy example_diff (limits_named (lim_Limits lim)) k' d
        \<in> {[], [example_limit 5 None]}"
      by (auto simp: limits_after_def recomputed_example limits_for_example)
    with bags have "set (limits_named (lim_Limits lim1) k' d) \<subseteq> {example_limit 5 None}"
      by (auto simp: set_mset_mset[symmetric] simp del: set_mset_mset)
    then show ?thesis by (auto simp: no_ties_def inj_on_def)
  qed
qed


end
