(* ===== verification/AP_Progress.thy ===== *)
theory AP_Progress
  imports Progress
begin

text \<open>
  When the reconciliation of an AuthPolicy succeeds, as in Progress for RateLimitPolicies: where the
  API server answers, nothing in the code stops a valid policy with a scheme whose target is usable
  and free and covers the hosts of its rules and of its scheme.
\<close>

section \<open>The steps\<close>

definition auth_responds :: "'w env \<Rightarrow> ('w \<Rightarrow> snapshot) \<Rightarrow> bool" where
  "auth_responds c V \<longleftrightarrow> responds (cl_APs c) (sn_APs \<circ> V) \<and>
     responds (cl_AuthorizationPolicies c) (sn_AuthorizationPolicies \<circ> V) \<and>
     responds (cl_AuthConfigs c) (sn_AuthConfigs \<circ> V)"

lemma auth_writes_succeed:
  assumes "cluster_api c V" "auth_responds c V"
  shows "\<exists>w'. unless_exists (ReconcileResource (cl_AuthorizationPolicies c)
      (authorization_policy_object c ap ops k) alwaysUpdateAuthPolicy) w = (Inr (), w')"
    and "\<exists>w'. unless_exists (ReconcileResource (cl_AuthConfigs c) (auth_config_object ap scheme)
      alwaysUpdateAuthConfig) w = (Inr (), w')"
proof -
  have "\<exists>w'. ReconcileResource (cl_AuthorizationPolicies c) (authorization_policy_object c ap ops k)
      alwaysUpdateAuthPolicy w = (Inr (), w')"
    by (rule ReconcileResource_succeeds[OF cluster_store(8)[OF assms(1)] _ keeps_key_alwaysUpdate(1) alwaysUpdate_total(1)])
      (use assms(2) in \<open>simp add: auth_responds_def\<close>)
  then show "\<exists>w'. unless_exists (ReconcileResource (cl_AuthorizationPolicies c)
      (authorization_policy_object c ap ops k) alwaysUpdateAuthPolicy) w = (Inr (), w')"
    by (auto simp: unless_exists_def)
  have "\<exists>w'. ReconcileResource (cl_AuthConfigs c) (auth_config_object ap scheme) alwaysUpdateAuthConfig w = (Inr (), w')"
    by (rule ReconcileResource_succeeds[OF cluster_store(9)[OF assms(1)] _ keeps_key_alwaysUpdate(2) alwaysUpdate_total(2)])
      (use assms(2) in \<open>simp add: auth_responds_def\<close>)
  then show "\<exists>w'. unless_exists (ReconcileResource (cl_AuthConfigs c) (auth_config_object ap scheme)
      alwaysUpdateAuthConfig) w = (Inr (), w')"
    by (auto simp: unless_exists_def)
qed

text \<open>A usable target stays usable when it is claimed.\<close>

lemma usable_retargeted:
  assumes "retargeted ann s s'" "target_at s tr ns = Some obj" "usable_target c obj"
  shows "\<exists>obj'. target_at s' tr ns = Some obj' \<and> usable_target c obj'"
proof -
  have "rel_option (reannotated ann) (sn_HTTPRoutes s k) (sn_HTTPRoutes s' k)"
    "rel_option (reannotated ann) (sn_Gateways s k) (sn_Gateways s' k)" for k
    using assms(1) by (simp_all add: retargeted_def)
  from target_moved[OF this assms(2)] show ?thesis using assms(3) by metis
qed

lemma to_rules_succeeds:
  assumes "cluster_api c V" "target_at (V w) (ap_TargetRef ap) (obj_Namespace ap) = Some obj" "usable_target c obj"
  shows "\<exists>ops. to_rules c ap w = (Inr ops, w)"
proof -
  have "FetchValidTargetRef c (ap_TargetRef ap) (obj_Namespace ap) w = (Inr obj, w)"
    by (rule FetchValidTargetRef_run[OF assms(1), of w "ap_TargetRef ap" "obj_Namespace ap"]; use assms(2,3) in auto)
  then show ?thesis by (auto simp: to_rules_def Let_def split: target_object.split)
qed

section \<open>The whole reconciliation\<close>

text \<open>A policy that can be enforced.\<close>

definition enforceable :: "'w env \<Rightarrow> snapshot \<Rightarrow> AuthPolicy \<Rightarrow> bool" where
  "enforceable c s ap \<longleftrightarrow> AuthPolicy_Validate ap = None \<and>
     (\<exists>obj scheme. target_at s (ap_TargetRef ap) (obj_Namespace ap) = Some obj \<and> usable_target c obj \<and>
        target_annotations obj AuthPolicyBackRefAnnotation \<in> {None, Some (key_String (ObjectKeyFromObject ap))} \<and>
        aps_AuthScheme (ap_Spec ap) = Some scheme \<and>
        list_all (\<lambda>h. \<exists>d \<in> set (target_hosts obj). SubsetOf h d) (ap_rule_hosts ap @ acs_Hosts scheme))"

lemma ap_reconcileSpec_succeeds:
  assumes "cluster_api c V" "cluster_responds c V" "auth_responds c V" "enforceable c (V w) ap"
  shows "\<exists>w'. ap_reconcileSpec c ap w = (Inr False, w')"
proof -
  let ?tr = "ap_TargetRef ap" and ?ns = "obj_Namespace ap"
  from assms(4) obtain obj scheme where valid: "AuthPolicy_Validate ap = None" and
    obj: "target_at (V w) ?tr ?ns = Some obj" "usable_target c obj"
      "target_annotations obj AuthPolicyBackRefAnnotation \<in> {None, Some (key_String (ObjectKeyFromObject ap))}" and
    scheme: "aps_AuthScheme (ap_Spec ap) = Some scheme" and
    hosts: "list_all (\<lambda>h. \<exists>d \<in> set (target_hosts obj). SubsetOf h d) (ap_rule_hosts ap @ acs_Hosts scheme)"
    by (auto simp: enforceable_def)
  have "fst (TargetHostnames c ?tr ?ns w) = Inr (target_hosts obj)"
    by (rule FetchValidTargetRef_run[OF assms(1), of w ?tr ?ns]) (use obj in \<open>auto simp: TargetHostnames_def\<close>)
  with hosts scheme have enforce: "enforceHierarchicalConstraints c ap w = (Inr (), w)"
    by (simp add: enforceHierarchicalConstraints_run[OF assms(1)])
  obtain w1 where claim: "ReconcileTargetBackReference c (ObjectKeyFromObject ap) ?tr ?ns AuthPolicyBackRefAnnotation w = (Inr (), w1)"
    using back_reference_succeeds[OF assms(1,2) obj] by blast
  obtain obj' where "target_at (V w1) ?tr ?ns = Some obj'" "usable_target c obj'"
    using usable_retargeted[OF back_reference_retargeted(1)[OF assms(1) claim] obj(1,2)] by blast
  from to_rules_succeeds[OF assms(1) this] obtain ops where ops: "to_rules c ap w1 = (Inr ops, w1)" by blast
  obtain keys where keys: "TargetedGatewayKeys c ?tr ?ns w1 = (Inr keys, w1)"
    using claimed_gateway_keys[OF assms(1) claim] .
  have "\<exists>w2. forE (\<lambda>gwKey. unless_exists (ReconcileResource (cl_AuthorizationPolicies c)
      (authorization_policy_object c ap ops gwKey) alwaysUpdateAuthPolicy)) keys w1 = (Inr (), w2)"
    by (rule forE_succeeds) (rule auth_writes_succeed(1)[OF assms(1,3)])
  with ops keys obtain w2 where "reconcileAuthRules c ap w1 = (Inr (), w2)"
    by (auto simp: reconcileAuthRules_def)
  moreover obtain w' where "reconcileAuthSchemes c ap w2 = (Inr (), w')"
    using auth_writes_succeed(2)[OF assms(1,3), of ap scheme w2] scheme by (auto simp: reconcileAuthSchemes_def)
  ultimately show ?thesis
    using valid enforce claim by (simp add: ap_reconcileSpec_def reconcileNetworkResourceBackReference_def)
qed

lemma ap_reconcileStatus_succeeds:
  assumes "cluster_api c V" "auth_responds c V" "sn_APs (V w) (ObjectKeyFromObject ap) \<noteq> None"
    and "sn_AuthConfigs (V w) (authConfigKey ap) = Some config"
  shows "\<exists>w'. ap_reconcileStatus c ap None w = (Inr False, w')"
proof -
  have get: "api_Get (cl_AuthConfigs c) (authConfigKey ap) w = (Inr config, w)"
    using store_Get_Some[OF cluster_store(9)[OF assms(1)], where w = w and k = "authConfigKey ap" and obj = config] assms(4)
    by simp
  have "ObjectKeyFromObject (ap\<lparr>ap_Status := st\<rparr>) = ObjectKeyFromObject ap" for st
    by (simp add: ObjectKeyFromObject_def)
  then have "\<exists>w'. api_StatusUpdate (cl_APs c) (ap\<lparr>ap_Status := st\<rparr>) w = (Inr (), w')" for st
    using respondsD(4)[of "cl_APs c" "sn_APs \<circ> V" w "ap\<lparr>ap_Status := st\<rparr>"] assms(2,3) by (simp add: auth_responds_def)
  moreover obtain st where "ap_calculateStatus c ap None (lib_AuthConfigReady c (ac_StatusReady config)) w = (Inr st, w)"
    by (simp add: ap_calculateStatus_def askE_def bindE_def Let_def)
  moreover obtain w' where "api_StatusUpdate (cl_APs c) (ap\<lparr>ap_Status := st\<rparr>) w = (Inr (), w')"
    using calculation(1) by blast
  ultimately show ?thesis
    using get by (simp add: ap_reconcileStatus_def GetResource_def bindE_def attempt_def Let_def)
qed

text \<open>
  C10: An AuthPolicy that can be enforced is enforced. On an API server that does not refuse a write
  that can be done, Reconcile of a live policy that validates and has a scheme, and whose usable
  target is free (or already its own) and covers the hosts of the rules and of the scheme, ends
  without an error and without asking for a requeue.
\<close>

theorem ap_Reconcile_succeeds:
  assumes "cluster_api c V" "cluster_responds c V" "auth_responds c V"
    and "sn_APs (V w) req = Some ap" "obj_DeletionTimestamp ap = None"
    and "lib_ContainsFinalizer c (obj_Finalizers ap) authPolicyFinalizer"
    and "enforceable c (V w) ap"
  shows "\<exists>w'. ap_Reconcile c req w = (Inr result_ok, w')"
proof -
  from store_Get_Some[OF cluster_store(2)[OF assms(1)], where w = w and k = req and obj = ap] assms(4)
  have get: "ObjectKeyFromObject ap = req" "api_Get (cl_APs c) req w = (Inr ap, w)" by simp_all
  obtain w1 where spec: "ap_reconcileSpec c ap w = (Inr False, w1)"
    using ap_reconcileSpec_succeeds[OF assms(1-3,7)] by blast
  note done1 = ap_reconcileSpec_run[OF assms(1) spec]
  obtain config where "sn_AuthConfigs (V w1) (authConfigKey ap) = Some config" using done1 by blast
  moreover have "sn_APs (V w1) = sn_APs (V w)"
    using done1 retargeted_sel(2) by fastforce
  ultimately obtain w' where "ap_reconcileStatus c ap None w1 = (Inr False, w')"
    using ap_reconcileStatus_succeeds[OF assms(1,3)] assms(4) get(1) by fastforce
  with spec have "ap_reconcile_live c ap w = (Inr result_ok, w')"
    by (simp add: ap_reconcile_live_def attempt_def bindE_def Let_def)
  with get(2) assms(5,6) show ?thesis by (simp add: ap_Reconcile_def)
qed

lemma cluster_env_auth_responds: "auth_responds cluster_env cluster_view"
  by (simp add: auth_responds_def cluster_env_auth list_api_responds cluster_view_def comp_def)

theorem ap_Reconcile_succeeds_witness:
  "\<exists>w'. ap_Reconcile cluster_env (ObjectKey ''default'' ''ap'') (example_cluster\<lparr>cs_APs := [example_ap]\<rparr>) = (Inr result_ok, w')"
proof -
  let ?w = "example_cluster\<lparr>cs_APs := [example_ap]\<rparr>"
  have policy: "sn_APs (cluster_view ?w) (ObjectKey ''default'' ''ap'') = Some example_ap"
    by (simp add: cluster_view_def list_view_def)
  have live: "obj_DeletionTimestamp example_ap = None"
    "lib_ContainsFinalizer cluster_env (obj_Finalizers example_ap) authPolicyFinalizer"
    by (simp_all add: example_ap_def example_auth_policy_def new_object_def k8s_object.defs cluster_env_def)
  have hosts: "target_hosts (TargetHTTPRoute example_route) = [''api.toystore.com'']"
    by (simp add: target_hosts_def Let_def example_route_def k8s_object.defs)
  have "cs_HTTPRoutes ?w = [example_route]" by (simp add: example_cluster_sel)
  from claimed_target[OF this] have "enforceable cluster_env (cluster_view ?w) example_ap"
    unfolding enforceable_def
    by (intro conjI exI[of _ "TargetHTTPRoute example_route"] exI[of _ example_scheme])
      (simp_all add: example_route_sel target_annotations_def hosts SubsetOf_def
        AuthPolicyBackRefAnnotation_def RateLimitPolicyBackRefAnnotation_def)
  from ap_Reconcile_succeeds[OF cluster_env_api cluster_env_responds cluster_env_auth_responds policy live this]
  show ?thesis .
qed

end
