(* ===== verification/Cleanup_Progress.thy ===== *)
theory Cleanup_Progress
  imports System AP_Progress
begin

text \<open>
  When the clean-up of a deleted policy succeeds, as in Progress for the live ones: where the API
  server answers, nothing in the code holds back the finalizer of a RateLimitPolicy whose remaining
  references resolve, and that of an AuthPolicy exactly if its AuthorizationPolicies are there.
\<close>

section \<open>The steps of the clean-up\<close>

text \<open>Releasing a target: one that is not there needs no release, one that is there must be usable.\<close>

lemma release_succeeds:
  assumes "cluster_api c V" "cluster_responds c V" "tr_Kind tr \<in> {''HTTPRoute'', ''Gateway''}"
    and "\<And>obj. target_at (V w) tr ns = Some obj \<Longrightarrow> usable_target c obj"
  shows "\<exists>w'. DeleteTargetBackReference c pk tr ns ann w = (Inr (), w')"
proof (rule FetchValidTargetRef_run[OF assms(1), of w tr ns])
  fix obj assume "target_at (V w) tr ns = Some obj" "target_object_key obj = target_key tr ns"
    "FetchValidTargetRef c tr ns w = (Inr obj, w)"
  with update_target_succeeds[OF assms(2)] show ?thesis
    by (auto simp: DeleteTargetBackReference_def Let_def)
next
  fix msg args
  assume "\<And>obj. target_at (V w) tr ns = Some obj \<Longrightarrow> \<not> usable_target c obj"
    "IsTargetRefHTTPRoute tr \<or> IsTargetRefGateway tr \<Longrightarrow> target_at (V w) tr ns \<noteq> None"
  with assms(3,4) show ?thesis by (auto simp: IsTargetRefHTTPRoute_def IsTargetRefGateway_def)
next
  fix e assume "IsNotFound e" "FetchValidTargetRef c tr ns w = (Inl e, w)"
  then show ?thesis by (auto simp: DeleteTargetBackReference_def)
qed

text \<open>What the clean-up needs of the target and of the policies that stay on its gateways.\<close>

definition releasable :: "'w env \<Rightarrow> snapshot \<Rightarrow> RateLimitPolicy \<Rightarrow> object_key list \<Rightarrow> bool" where
  "releasable c s rlp keys \<longleftrightarrow>
     tr_Kind (rlp_TargetRef rlp) \<in> {''HTTPRoute'', ''Gateway''} \<and>
     (\<forall>obj. target_at s (rlp_TargetRef rlp) (obj_Namespace rlp) = Some obj \<longrightarrow> usable_target c obj) \<and>
     (\<forall>k gw. k \<in> set keys \<longrightarrow> sn_Gateways s k = Some gw \<longrightarrow>
        resolve c s (remove1 (ObjectKeyFromObject rlp) (refs_of (lib_Json c) (Some gw))) \<noteq> None)"

text \<open>Writing the references leaves the target usable and the remaining references resolvable.\<close>

lemma target_after_references:
  assumes "\<And>k. rel_option (reannotated ann) (sn_Gateways s k) (sn_Gateways s' k)" "sn_HTTPRoutes s' = sn_HTTPRoutes s"
    and "\<And>obj. target_at s tr ns = Some obj \<Longrightarrow> usable_target c obj" "target_at s' tr ns = Some obj'"
  shows "usable_target c obj'"
proof (cases "target_at s tr ns")
  case None
  with assms(1)[of "target_key tr ns"] assms(2,4) show ?thesis
    by (auto simp: target_at_def Let_def elim: option.rel_cases split: if_splits)
next
  case (Some obj)
  have "rel_option (reannotated ann) (sn_HTTPRoutes s k) (sn_HTTPRoutes s' k)" for k
    by (simp add: assms(2) option.rel_refl)
  from target_moved[OF this assms(1) Some, where c = c] assms(3)[OF Some] assms(4) show ?thesis
    by (metis option.inject)
qed

lemma work_after_references:
  assumes "cluster_api c V" "refs_json (lib_Json c) ok" "ok (ObjectKeyFromObject rlp)"
    and "refs_sound (lib_Json c) (V w)" "distinct keys" "releasable c (V w) rlp keys"
    and "reconcileGatewayRLPReferences c rlp (clean_up_diff (V w) keys) w = (Inr diff', w1)"
  shows "\<forall>gr \<in> set (plugin_work (lib_Json c) rlp diff'). resolve c (V w1) (snd gr) \<noteq> None"
proof -
  let ?J = "lib_Json c" and ?rk = "ObjectKeyFromObject rlp"
  note gws = cleaned_gateways[OF assms(1-5,7)]
  have same: "sn_RLPs (V w1) = sn_RLPs (V w)" "sn_HTTPRoutes (V w1) = sn_HTTPRoutes (V w)"
    using gws(2) by (cases "V w1"; cases "V w"; simp)+
  have "resolve c (V w1) (refs_without (refs_of ?J (Some z)) ?rk) \<noteq> None" if "z \<in> set (gd_LeftGateways diff')" for z
  proof -
    from gws(5)[OF that] obtain gw where gw: "ObjectKeyFromObject gw \<in> set keys"
      "sn_Gateways (V w) (ObjectKeyFromObject gw) = Some gw"
      "refs_of ?J (Some z) = remove1 ?rk (refs_of ?J (Some gw))" by blast
    have "distinct (refs_of ?J (Some gw))" using assms(4) gw(2) by (auto simp: refs_sound_def)
    then have "refs_without (refs_of ?J (Some z)) ?rk = remove1 ?rk (refs_of ?J (Some gw))"
      by (simp add: refs_without_remove1 gw(3) remove1_idem)
    moreover have "resolve c (V w) (remove1 ?rk (refs_of ?J (Some gw))) \<noteq> None"
      using assms(6) gw(1,2) unfolding releasable_def by blast
    ultimately show ?thesis using resolve_cong[OF same, of c] by simp
  qed
  then show ?thesis
    using clean_up_results(1,2)[OF assms(1,7)] by (auto simp: plugin_work_def)
qed

lemma finalizeRLP_succeeds:
  assumes "cluster_api c V" "cluster_responds c V" "codecs_total c"
    and "limitador_ready c (V w)" "plugins_readable c (V w)"
    and "refs_json (lib_Json c) ok" "ok (ObjectKeyFromObject rlp)" "refs_sound (lib_Json c) (V w)"
    and "TargetedGatewayKeys c (rlp_TargetRef rlp) (obj_Namespace rlp) w = (Inr keys, w)" "distinct keys"
    and "releasable c (V w) rlp keys"
  shows "\<exists>w'. finalizeRLP c rlp w = (Inr (), w')"
proof -
  let ?diff = "clean_up_diff (V w) keys"
  have "sn_Gateways (V w) (ObjectKeyFromObject gw) \<noteq> None" if "gw \<in> set (gd_LeftGateways ?diff @ gd_NewGateways ?diff)" for gw
    using that clean_up_lefts(1)[OF assms(1)] by simp
  from reconcileReferences_succeeds[OF assms(1,2) this] obtain diff' w1 where
    refs: "reconcileGatewayRLPReferences c rlp ?diff w = (Inr diff', w1)" by blast
  note frame1 = cleaned_gateways(2)[OF assms(1,6,7,8,10) refs]
  have "plugins_readable c (V w1)"
    using assms(5) arg_cong[OF frame1, of sn_WasmPlugins] by (simp add: plugins_readable_def)
  from plugins_succeed[OF assms(1-3) this work_after_references[OF assms(1,6-8,10,11) refs]] obtain w2 where
    plugins: "reconcileWASMPluginConf c rlp diff' w1 = (Inr (), w2)"
    "V w2\<lparr>sn_WasmPlugins := Map.empty\<rparr> = V w1\<lparr>sn_WasmPlugins := Map.empty\<rparr>" by blast
  have "limitador_ready c (V w2)"
    using assms(4) arg_cong[OF frame1, of sn_Limitadors] arg_cong[OF plugins(2), of sn_Limitadors]
    by (simp add: limitador_ready_def)
  from filters_succeed[OF assms(1-3) this] obtain w3 where
    filters: "reconcileRateLimitingClusterEnvoyFilter c rlp diff' w2 = (Inr (), w3)"
    "V w3\<lparr>sn_EnvoyFilters := Map.empty\<rparr> = V w2\<lparr>sn_EnvoyFilters := Map.empty\<rparr>" by blast
  note only_left = clean_up_results(1,2)[OF assms(1) refs]
  have "limitador_ready c (V w3)"
    using \<open>limitador_ready c (V w2)\<close> arg_cong[OF filters(2), of sn_Limitadors] by (simp add: limitador_ready_def)
  from reconcileLimits_succeeds[OF assms(1,2) this, of diff' rlp] only_left obtain w4 where
    limits: "reconcileLimits c rlp diff' w3 = (Inr (), w4)"
    "V w4\<lparr>sn_Limitadors := Map.empty\<rparr> = V w3\<lparr>sn_Limitadors := Map.empty\<rparr>"
    by (auto simp: recomputed_def)
  have same4: "sn_Gateways (V w4) = sn_Gateways (V w1)" "sn_HTTPRoutes (V w4) = sn_HTTPRoutes (V w)"
    using frame1 plugins(2) filters(2) limits(2)
    by (cases "V w"; cases "V w1"; cases "V w2"; cases "V w3"; cases "V w4"; simp)+
  have usable: "usable_target c obj" if "target_at (V w4) (rlp_TargetRef rlp) (obj_Namespace rlp) = Some obj" for obj
    by (rule target_after_references[OF _ same4(2) _ that, where ann = KuadrantRateLimitPolicyRefAnnotation])
      (use clean_up_jobs(3)[OF assms(1,10) refs] assms(11) in \<open>auto simp: same4(1) releasable_def\<close>)
  have "tr_Kind (rlp_TargetRef rlp) \<in> {''HTTPRoute'', ''Gateway''}" using assms(11) by (simp add: releasable_def)
  from release_succeeds[OF assms(1,2) this usable] obtain w' where
    "rlp_deleteNetworkResourceBackReference c rlp w4 = (Inr (), w')"
    unfolding rlp_deleteNetworkResourceBackReference_def by blast
  with refs plugins(1) filters(1) limits(1) computeFinalizeGatewayDiff_run[OF assms(1,9)] show ?thesis
    by (simp add: finalizeRLP_def attempt_def bindE_def)
qed

section \<open>The deletion\<close>



section \<open>AuthPolicies\<close>

lemma api_deletes:
  assumes "responds A view" "view w (ObjectKeyFromObject obj) \<noteq> None"
  shows "\<exists>w'. DeleteResource A obj w = (Inr (), w')"
  using respondsD(3)[OF assms] by (simp add: DeleteResource_def)

lemma delete_all_succeeds:
  assumes "kind_api V get forget A" "responds A (get \<circ> V)" "distinct (map (\<lambda>x. ObjectKeyFromObject (obj x)) xs)"
    and "\<And>x. x \<in> set xs \<Longrightarrow> get (V w) (ObjectKeyFromObject (obj x)) \<noteq> None"
  shows "\<exists>w'. forE (\<lambda>x. DeleteResource A (obj x)) xs w = (Inr (), w')"
  using assms(3,4)
proof (induction xs arbitrary: w)
  case (Cons x xs)
  then obtain w1 where w1: "DeleteResource A (obj x) w = (Inr (), w1)"
    using api_deletes[OF assms(2), of w "obj x"] by auto
  have "get (V w1) (ObjectKeyFromObject (obj y)) \<noteq> None" if "y \<in> set xs" for y
    using kind_delete(2)[OF assms(1) w1 refl] Cons.prems that by (auto simp: image_iff)
  with Cons.IH[of w1] Cons.prems(1) w1 show ?case by simp
qed simp

lemma removeAuthSchemes_succeeds:
  assumes "cluster_api c V" "auth_responds c V"
  shows "\<exists>w'. removeAuthSchemes c ap w = (Inr (), w')"
proof -
  have api: "kind_api V sn_AuthConfigs (sn_AuthConfigs_update (\<lambda>_. Map.empty)) (cl_AuthConfigs c)"
    using assms(1) by (simp add: cluster_api_def)
  let ?obj = "k8s_object.extend (new_object '''' '''' KuadrantNamespace (authConfigName (ObjectKeyFromObject ap)))
      \<lparr>ac_Spec = \<lparr>acs_Hosts = [], acs_Rest = JNull\<rparr>, ac_StatusReady = JNull\<rparr>"
  obtain r w' where del: "DeleteResource (cl_AuthConfigs c) ?obj w = (r, w')" by fastforce
  have "IsNotFound e" if "r = Inl e" for e
    using kind_delete(3)[OF api del that] api_deletes[of "cl_AuthConfigs c" "sn_AuthConfigs \<circ> V" w ?obj] assms(2) del that
    by (auto simp: auth_responds_def)
  then show ?thesis
    using del by (cases r) (auto simp: removeAuthSchemes_def attempt_def bindE_def)
qed

lemma finalizeAP_succeeds:
  assumes "cluster_api c V" "cluster_responds c V" "auth_responds c V"
    and keys: "TargetedGatewayKeys c (ap_TargetRef ap) (obj_Namespace ap) w = (Inr keys, w)" "distinct keys"
    and "\<And>k. k \<in> set keys \<Longrightarrow> sn_AuthorizationPolicies (V w) (authorizationPolicyKey ap k) \<noteq> None"
    and "tr_Kind (ap_TargetRef ap) \<in> {''HTTPRoute'', ''Gateway''}"
    and "\<And>obj. target_at (V w) (ap_TargetRef ap) (obj_Namespace ap) = Some obj \<Longrightarrow> usable_target c obj"
  shows "\<exists>w'. finalizeAP c ap w = (Inr (), w')"
proof -
  have api: "kind_api V sn_AuthorizationPolicies (sn_AuthorizationPolicies_update (\<lambda>_. Map.empty))
      (cl_AuthorizationPolicies c)"
    using assms(1) by (simp add: cluster_api_def)
  have "responds (cl_AuthorizationPolicies c) (sn_AuthorizationPolicies \<circ> V)"
    using assms(3) by (simp add: auth_responds_def)
  moreover have "distinct (map (\<lambda>k. ObjectKeyFromObject (bare_authorization_policy ap k)) keys)"
    using keys(2) by (simp add: distinct_map inj_on_def authorizationPolicyKey_eq)
  ultimately obtain w1 where w1: "forE (\<lambda>k. DeleteResource (cl_AuthorizationPolicies c) (bare_authorization_policy ap k)) keys w =
      (Inr (), w1)"
    using delete_all_succeeds[OF api, where xs = keys and w = w and obj = "bare_authorization_policy ap"] assms(6) by auto
  with keys(1) have policies: "removeIstioAuthPolicy c ap w = (Inr (), w1)" by (simp add: removeIstioAuthPolicy_def)
  obtain w2 where schemes: "removeAuthSchemes c ap w1 = (Inr (), w2)"
    using removeAuthSchemes_succeeds[OF assms(1,3)] by blast
  have "V w1\<lparr>sn_AuthorizationPolicies := Map.empty\<rparr> = V w\<lparr>sn_AuthorizationPolicies := Map.empty\<rparr>"
    using delete_all[OF api w1] by blast
  then have "target_at (V w2) (ap_TargetRef ap) (obj_Namespace ap) = target_at (V w) (ap_TargetRef ap) (obj_Namespace ap)"
    using removeAuthSchemes_run[OF assms(1) schemes] by (cases "V w"; cases "V w1") (simp add: target_at_def Let_def)
  with assms(8) have "usable_target c obj" if "target_at (V w2) (ap_TargetRef ap) (obj_Namespace ap) = Some obj" for obj
    using that by simp
  from release_succeeds[OF assms(1,2,7) this] policies schemes show ?thesis
    by (simp add: finalizeAP_def ap_deleteNetworkResourceBackReference_def)
qed



end
