(* ===== verification/Journal.thy ===== *)
theory Journal
  imports Footprint
begin

text \<open>
  The journal of a run: every write a reconciler asks for, in order, with the answer. A journal is
  kept by an API server that notes each call before it goes on as before. Nothing is assumed of that
  server: it may refuse any call, and between two calls it may change its world as it likes, so the
  writes of others, made while a reconciliation runs, are covered.
\<close>

section \<open>Calls\<close>

datatype subject =
    is_RLP: Of_RLP RateLimitPolicy
  | is_AP: Of_AP AuthPolicy
  | is_Gateway: Of_Gateway gateway
  | is_HTTPRoute: Of_HTTPRoute http_route
  | is_Limitador: Of_Limitador limitador
  | is_WasmPlugin: Of_WasmPlugin wasm_plugin_object
  | is_EnvoyFilter: Of_EnvoyFilter envoy_filter
  | is_AuthorizationPolicy: Of_AuthorizationPolicy authorization_policy
  | is_AuthConfig: Of_AuthConfig auth_config

datatype verb = Creates | Updates | Deletes | UpdatesStatus

record call =
  call_verb :: verb
  call_subject :: subject
  call_error :: "go_error option"

type_synonym journal = "call list"

definition error_of :: "go_error + 'a \<Rightarrow> go_error option" where
  "error_of r = (case r of Inl e \<Rightarrow> Some e | Inr _ \<Rightarrow> None)"

lemma error_of_sel [simp]: "error_of (Inl e) = Some e" "error_of (Inr x) = None"
  by (simp_all add: error_of_def)

definition unlogged :: "('w, 'a) io \<Rightarrow> ('w \<times> journal, 'a) io" where
  "unlogged m = (\<lambda>(w, tr). case m w of (r, w') \<Rightarrow> (r, w', tr))"

definition logged :: "verb \<Rightarrow> subject \<Rightarrow> ('w, 'a) io \<Rightarrow> ('w \<times> journal, 'a) io" where
  "logged v s m = (\<lambda>(w, tr). case m w of (r, w') \<Rightarrow>
     (r, w', tr @ [\<lparr>call_verb = v, call_subject = s, call_error = error_of r\<rparr>]))"

definition journal_api :: "('o \<Rightarrow> subject) \<Rightarrow> ('w, 'o) resource_api \<Rightarrow> ('w \<times> journal, 'o) resource_api" where
  "journal_api s A =
     \<lparr>api_Get = \<lambda>k. unlogged (api_Get A k),
      api_Create = \<lambda>obj. logged Creates (s obj) (api_Create A obj),
      api_Update = \<lambda>obj. logged Updates (s obj) (api_Update A obj),
      api_Delete = \<lambda>obj. logged Deletes (s obj) (api_Delete A obj),
      api_StatusUpdate = \<lambda>obj. logged UpdatesStatus (s obj) (api_StatusUpdate A obj)\<rparr>"

text \<open>The environment \<open>c\<close> with a journal; everything that is not the client is as in \<open>c\<close>.\<close>

definition journal :: "'w env \<Rightarrow> ('w \<times> journal) env" where
  "journal c =
     \<lparr>cl_RLPs = journal_api Of_RLP (cl_RLPs c), cl_APs = journal_api Of_AP (cl_APs c),
      cl_Gateways = journal_api Of_Gateway (cl_Gateways c),
      cl_HTTPRoutes = journal_api Of_HTTPRoute (cl_HTTPRoutes c),
      cl_Limitadors = journal_api Of_Limitador (cl_Limitadors c),
      cl_WasmPlugins = journal_api Of_WasmPlugin (cl_WasmPlugins c),
      cl_EnvoyFilters = journal_api Of_EnvoyFilter (cl_EnvoyFilters c),
      cl_AuthorizationPolicies = journal_api Of_AuthorizationPolicy (cl_AuthorizationPolicies c),
      cl_AuthConfigs = journal_api Of_AuthConfig (cl_AuthConfigs c),
      cl_ListGateways = unlogged (cl_ListGateways c),
      lib_IsStatusConditionFalse = lib_IsStatusConditionFalse c,
      lib_SetStatusCondition = (\<lambda>w. lib_SetStatusCondition c (fst w)),
      lib_ContainsFinalizer = lib_ContainsFinalizer c, lib_AddFinalizer = lib_AddFinalizer c,
      lib_RemoveFinalizer = lib_RemoveFinalizer c, lib_LimitadorReady = lib_LimitadorReady c,
      lib_AuthConfigReady = lib_AuthConfigReady c, lib_Json = lib_Json c, lib_Wasm = lib_Wasm c,
      lib_PatchUnmarshal = lib_PatchUnmarshal c, lib_KindText = lib_KindText c,
      lib_TargetRefText = lib_TargetRefText c, rt_Range = (\<lambda>w. rt_Range c (fst w)), os_Env = os_Env c\<rparr>"

lemma journal_sel [simp]:
  "cl_RLPs (journal c) = journal_api Of_RLP (cl_RLPs c)" "cl_APs (journal c) = journal_api Of_AP (cl_APs c)"
  "cl_Gateways (journal c) = journal_api Of_Gateway (cl_Gateways c)"
  "cl_HTTPRoutes (journal c) = journal_api Of_HTTPRoute (cl_HTTPRoutes c)"
  "cl_Limitadors (journal c) = journal_api Of_Limitador (cl_Limitadors c)"
  "cl_WasmPlugins (journal c) = journal_api Of_WasmPlugin (cl_WasmPlugins c)"
  "cl_EnvoyFilters (journal c) = journal_api Of_EnvoyFilter (cl_EnvoyFilters c)"
  "cl_AuthorizationPolicies (journal c) = journal_api Of_AuthorizationPolicy (cl_AuthorizationPolicies c)"
  "cl_AuthConfigs (journal c) = journal_api Of_AuthConfig (cl_AuthConfigs c)"
  "cl_ListGateways (journal c) = unlogged (cl_ListGateways c)"
  "lib_IsStatusConditionFalse (journal c) = lib_IsStatusConditionFalse c"
  "lib_SetStatusCondition (journal c) = (\<lambda>w. lib_SetStatusCondition c (fst w))"
  "lib_ContainsFinalizer (journal c) = lib_ContainsFinalizer c" "lib_AddFinalizer (journal c) = lib_AddFinalizer c"
  "lib_RemoveFinalizer (journal c) = lib_RemoveFinalizer c" "lib_LimitadorReady (journal c) = lib_LimitadorReady c"
  "lib_AuthConfigReady (journal c) = lib_AuthConfigReady c" "lib_Json (journal c) = lib_Json c"
  "lib_Wasm (journal c) = lib_Wasm c" "lib_PatchUnmarshal (journal c) = lib_PatchUnmarshal c"
  "lib_KindText (journal c) = lib_KindText c" "lib_TargetRefText (journal c) = lib_TargetRefText c"
  "rt_Range (journal c) = (\<lambda>w. rt_Range c (fst w))" "os_Env (journal c) = os_Env c"
  by (simp_all add: journal_def)

lemma journal_api_sel [simp]:
  "api_Get (journal_api s A) k = unlogged (api_Get A k)"
  "api_Create (journal_api s A) obj = logged Creates (s obj) (api_Create A obj)"
  "api_Update (journal_api s A) obj = logged Updates (s obj) (api_Update A obj)"
  "api_Delete (journal_api s A) obj = logged Deletes (s obj) (api_Delete A obj)"
  "api_StatusUpdate (journal_api s A) obj = logged UpdatesStatus (s obj) (api_StatusUpdate A obj)"
  by (simp_all add: journal_api_def)

lemma journal_names [simp]:
  "WASMFilterImageURL (journal c) = WASMFilterImageURL c" "LimitadorNamespace (journal c) = LimitadorNamespace c"
  "LimitadorName (journal c) = LimitadorName c" "AuthProvider (journal c) = AuthProvider c"
  "limitadorKey (journal c) = limitadorKey c"
  by (simp_all add: WASMFilterImageURL_def LimitadorNamespace_def LimitadorName_def AuthProvider_def limitadorKey_def)

lemma parents_accepted_journal [simp]: "parents_accepted (journal c) r ps = parents_accepted c r ps"
  by (induction ps) (auto split: option.split)

section \<open>The order of a journal\<close>

text \<open>A pattern of calls: phases one after the other, each with one call at most or with many.\<close>

datatype phase = Once "call \<Rightarrow> bool" | Many "call \<Rightarrow> bool"

fun follows :: "phase list \<Rightarrow> journal \<Rightarrow> bool" where
  "follows ps [] = True"
| "follows [] (x # xs) = False"
| "follows (Once P # ps) (x # xs) = (P x \<and> follows ps xs \<or> follows ps (x # xs))"
| "follows (Many P # ps) (x # xs) = (P x \<and> follows (Many P # ps) xs \<or> follows ps (x # xs))"

lemma follows_skip: "follows ps xs \<Longrightarrow> follows (p # ps) xs"
  by (cases p; cases xs) auto

lemma follows_skips: "follows qs xs \<Longrightarrow> follows (ps @ qs) xs"
  by (induction ps) (auto intro: follows_skip)

lemma follows_append: "follows ps xs \<Longrightarrow> follows qs ys \<Longrightarrow> follows (ps @ qs) (xs @ ys)"
  by (induction ps xs rule: follows.induct) (auto intro: follows_skip follows_skips)

lemma follows_Many: "follows [Many P] xs \<longleftrightarrow> (\<forall>x \<in> set xs. P x)"
  by (induction xs) auto

lemma follows_Nil: "follows [] xs \<longleftrightarrow> xs = []"
  by (cases xs) auto

lemma follows_Once: "follows [Once P] xs \<longleftrightarrow> xs = [] \<or> (\<exists>x. xs = [x] \<and> P x)"
  by (cases xs) (auto simp: follows_Nil)

lemma follows_last: "follows (ps @ [Once P]) xs \<Longrightarrow> xs \<noteq> [] \<Longrightarrow> follows ps xs \<or> P (last xs) \<and> follows ps (butlast xs)"
proof (induction ps xs rule: follows.induct)
  case (2 x xs)
  then show ?case by (auto simp: follows_Nil)
next
  case (3 P ps x xs)
  then show ?case by (cases "xs = []") (auto intro: follows_skip)
next
  case (4 P ps x xs)
  then show ?case by (cases "xs = []") (auto intro: follows_skip)
qed simp

text \<open>
  Fail-stop: every call before the last succeeded or is tolerated, so did the last one of a run that
  succeeds, and a run whose last call failed otherwise ends with the error of that call.
\<close>

definition fine :: "(call \<Rightarrow> bool) \<Rightarrow> call \<Rightarrow> bool" where
  "fine tol x \<longleftrightarrow> call_error x = None \<or> tol x"

definition ends :: "(call \<Rightarrow> bool) \<Rightarrow> go_error + 'a \<Rightarrow> journal \<Rightarrow> bool" where
  "ends tol r xs \<longleftrightarrow> (\<forall>x \<in> set (butlast xs). fine tol x) \<and>
     (xs \<noteq> [] \<longrightarrow> fine tol (last xs) \<or> error_of r \<noteq> None \<and> call_error (last xs) = error_of r)"

lemma ends_Nil [simp]: "ends tol r []"
  by (simp add: ends_def)

lemma ends_Inr: "ends tol (Inr x) xs \<longleftrightarrow> (\<forall>x \<in> set xs. fine tol x)"
proof (cases xs rule: rev_cases)
  case (snoc ys y)
  then show ?thesis by (auto simp: ends_def)
qed (simp add: ends_def)

lemma ends_append: "ends tol (Inr x) xs \<Longrightarrow> ends tol r ys \<Longrightarrow> ends tol r (xs @ ys)"
  unfolding ends_Inr by (cases "ys = []") (auto simp: ends_def butlast_append dest: in_set_butlastD)

lemma ends_Inl: "ends tol (Inl e :: go_error + 'a) xs = ends tol (Inl e :: go_error + 'b) xs"
  by (simp add: ends_def)

definition orderly :: "(call \<Rightarrow> bool) \<Rightarrow> phase list \<Rightarrow> ('w \<times> journal, 'a) io \<Rightarrow> bool" where
  "orderly tol ps m \<longleftrightarrow> (\<forall>w tr r w' tr'. m (w, tr) = (r, w', tr') \<longrightarrow>
     (\<exists>new. tr' = tr @ new \<and> follows ps new \<and> ends tol r new))"

lemma orderlyD:
  assumes "orderly tol ps m" "m (w, tr) = (r, w', tr')"
  obtains new where "tr' = tr @ new" "follows ps new" "ends tol r new"
  using assms unfolding orderly_def by blast

lemma orderlyI:
  "(\<And>w tr r w' tr'. m (w, tr) = (r, w', tr') \<Longrightarrow> \<exists>new. tr' = tr @ new \<and> follows ps new \<and> ends tol r new) \<Longrightarrow>
   orderly tol ps m"
  unfolding orderly_def by blast

text \<open>A computation that writes nothing: the rules for \<open>preserves\<close> apply.\<close>

lemma preserves_unlogged [pres]: "preserves (\<lambda>w. snd w = tr) (unlogged m)"
  by (auto simp: preserves_def unlogged_def split: prod.splits)

lemma orderly_quiet:
  assumes "\<And>tr. preserves (\<lambda>w. snd w = tr) m"
  shows "orderly tol ps m"
proof (rule orderlyI)
  fix w tr r w' tr' assume "m (w, tr) = (r, w', tr')"
  from preservesD[OF assms _ this] show "\<exists>new. tr' = tr @ new \<and> follows ps new \<and> ends tol r new" by simp
qed

lemma orderly_logged:
  "(\<And>e. P \<lparr>call_verb = v, call_subject = s, call_error = e\<rparr>) \<Longrightarrow>
   orderly tol [Once P] (logged v s m)"
  by (rule orderlyI) (auto simp: logged_def ends_def fine_def error_of_def split: prod.splits sum.splits)

lemma orderly_bindE:
  assumes "orderly tol ps m" "\<And>x. orderly tol qs (f x)"
  shows "orderly tol (ps @ qs) (bindE m f)"
proof (rule orderlyI)
  fix w tr r w' tr' assume run: "bindE m f (w, tr) = (r, w', tr')"
  obtain r1 w1 tr1 where m: "m (w, tr) = (r1, w1, tr1)" by (cases "m (w, tr)") auto
  from orderlyD[OF assms(1) m] obtain xs where xs: "tr1 = tr @ xs" "follows ps xs" "ends tol r1 xs" .
  show "\<exists>new. tr' = tr @ new \<and> follows (ps @ qs) new \<and> ends tol r new"
  proof (cases r1)
    case (Inl e)
    with run m have "tr' = tr @ xs" "r = Inl e" using xs(1) by (simp_all add: bindE_def)
    moreover have "follows (ps @ qs) (xs @ [])" by (rule follows_append[OF xs(2)]) simp
    ultimately show ?thesis using xs(3) Inl ends_Inl[of tol e xs] by auto
  next
    case (Inr x)
    with run m have "f x (w1, tr1) = (r, w', tr')" by (simp add: bindE_def)
    from orderlyD[OF assms(2) this] obtain ys where "tr' = tr1 @ ys" "follows qs ys" "ends tol r ys" .
    with xs Inr follows_append[OF xs(2), of qs ys] ends_append[of tol x xs r ys] show ?thesis by auto
  qed
qed

lemma orderly_after_quiet:
  assumes "\<And>tr. preserves (\<lambda>w. snd w = tr) m" "\<And>x. orderly tol ps (f x)"
  shows "orderly tol ps (bindE m f)"
  using orderly_bindE[OF orderly_quiet[OF assms(1), where ps = "[]"] assms(2)] by simp

lemma orderly_skip: "orderly tol ps m \<Longrightarrow> orderly tol (p # ps) m"
  unfolding orderly_def by (blast intro: follows_skip)

lemma orderly_then_quiet:
  assumes "orderly tol ps m" "\<And>x tr. preserves (\<lambda>w. snd w = tr) (f x)"
  shows "orderly tol ps (bindE m f)"
  using orderly_bindE[OF assms(1) orderly_quiet[OF assms(2), where ps = "[]"]] by simp

lemma orderly_mono:
  assumes "orderly tol ps m" "\<And>xs. follows ps xs \<Longrightarrow> follows qs xs"
  shows "orderly tol qs m"
  using assms unfolding orderly_def by blast

lemma orderly_Many: "orderly tol [Once P] m \<Longrightarrow> orderly tol [Many P] m"
  by (erule orderly_mono) (auto simp: follows_Once follows_Many)

text \<open>A phase of many calls is closed under sequence, so loops stay in it.\<close>

lemma orderly_Many_bindE:
  assumes "orderly tol [Many P] m" "\<And>x. orderly tol [Many P] (f x)"
  shows "orderly tol [Many P] (bindE m f)"
proof (rule orderly_mono[OF orderly_bindE[OF assms]])
  fix xs assume "follows ([Many P] @ [Many P]) xs"
  then show "follows [Many P] xs" by (induction xs) (auto simp: follows_Many)
qed

lemma orderly_loops:
  assumes "\<And>x. orderly tol [Many P] (f x)"
  shows "orderly tol [Many P] (forE f xs)"
  using assms
proof (induction xs)
  case Nil
  show ?case unfolding forE.simps by (intro orderly_quiet pres)
qed (auto intro: orderly_Many_bindE)

lemma orderly_mapE:
  assumes "\<And>x. orderly tol [Many P] (f x)"
  shows "orderly tol [Many P] (mapE f xs)"
  using assms
proof (induction xs)
  case Nil
  show ?case unfolding mapE.simps by (intro orderly_quiet pres)
next
  case (Cons x xs)
  have "orderly tol [Many P] (bindE (mapE f xs) (\<lambda>ys. retE (y # ys)))" for y
    by (rule orderly_then_quiet[OF Cons.IH[OF Cons.prems]]) (intro pres)
  with Cons.prems show ?case by (auto intro: orderly_Many_bindE)
qed

text \<open>An error that is handled by going on must be one the pattern tolerates.\<close>

lemma orderly_handled:
  assumes "orderly tol ps m"
    and "\<And>xs e. follows ps xs \<Longrightarrow> xs \<noteq> [] \<Longrightarrow> call_error (last xs) = Some e \<Longrightarrow> H e \<Longrightarrow> tol (last xs)"
  shows "orderly tol ps (bindE (attempt m) (\<lambda>got. case got of
    Inl err \<Rightarrow> if H err then retE x else throwE err | Inr y \<Rightarrow> retE (g y)))"
proof (rule orderlyI)
  fix w tr r w' tr' assume run: "bindE (attempt m) (\<lambda>got. case got of
    Inl err \<Rightarrow> if H err then retE x else throwE err | Inr y \<Rightarrow> retE (g y)) (w, tr) = (r, w', tr')"
  obtain r1 w1 tr1 where m: "m (w, tr) = (r1, w1, tr1)" by (cases "m (w, tr)") auto
  from orderlyD[OF assms(1) m] obtain xs where xs: "tr1 = tr @ xs" "follows ps xs" "ends tol r1 xs" .
  show "\<exists>new. tr' = tr @ new \<and> follows ps new \<and> ends tol r new"
  proof (cases r1)
    case (Inl e)
    with run m have "tr' = tr1" "r = Inl e \<or> H e \<and> r = Inr x"
      by (auto simp: attempt_def bindE_def split: if_splits)
    with xs Inl assms(2)[OF xs(2)] show ?thesis
      by (auto simp: ends_def fine_def)
  next
    case (Inr y)
    with run m xs show ?thesis by (auto simp: attempt_def bindE_def ends_Inr)
  qed
qed

lemma orderly_attempt: "orderly (\<lambda>_. True) ps m \<Longrightarrow> orderly (\<lambda>_. True) ps (attempt m)"
proof (rule orderlyI)
  fix w tr r w' tr' assume m: "orderly (\<lambda>_. True) ps m" and run: "attempt m (w, tr) = (r, w', tr')"
  obtain r1 where "m (w, tr) = (r1, w', tr')"
    using run by (cases "m (w, tr)") (auto simp: attempt_def split: sum.splits if_splits)
  from orderlyD[OF m this] show "\<exists>new. tr' = tr @ new \<and> follows ps new \<and> ends (\<lambda>_. True) r new"
    by (auto simp: ends_def fine_def)
qed

lemma orderly_if: "(b \<Longrightarrow> orderly tol ps m) \<Longrightarrow> (\<not> b \<Longrightarrow> orderly tol ps n) \<Longrightarrow> orderly tol ps (if b then m else n)"
  by simp

lemma orderly_case_sum:
  "(\<And>e. x = Inl e \<Longrightarrow> orderly tol ps (m e)) \<Longrightarrow> (\<And>y. x = Inr y \<Longrightarrow> orderly tol ps (f y)) \<Longrightarrow>
   orderly tol ps (case x of Inl e \<Rightarrow> m e | Inr y \<Rightarrow> f y)"
  by (cases x) simp_all

lemma orderly_case_option:
  "(x = None \<Longrightarrow> orderly tol ps m) \<Longrightarrow> (\<And>y. x = Some y \<Longrightarrow> orderly tol ps (f y)) \<Longrightarrow>
   orderly tol ps (case x of None \<Rightarrow> m | Some y \<Rightarrow> f y)"
  by (cases x) simp_all

lemma orderly_case_prod:
  "(\<And>a b. x = (a, b) \<Longrightarrow> orderly tol ps (f a b)) \<Longrightarrow> orderly tol ps (case x of (a, b) \<Rightarrow> f a b)"
  by (cases x) simp

lemmas orderly_cases = orderly_if orderly_case_sum orderly_case_option orderly_case_prod

section \<open>Kinds of calls\<close>

definition updates :: "(subject \<Rightarrow> bool) \<Rightarrow> call \<Rightarrow> bool" where
  "updates K x \<longleftrightarrow> call_verb x = Updates \<and> K (call_subject x)"

definition reconciles :: "(subject \<Rightarrow> bool) \<Rightarrow> call \<Rightarrow> bool" where
  "reconciles K x \<longleftrightarrow> call_verb x \<in> {Creates, Updates, Deletes} \<and> K (call_subject x)"

definition deletes :: "(subject \<Rightarrow> bool) \<Rightarrow> call \<Rightarrow> bool" where
  "deletes K x \<longleftrightarrow> call_verb x = Deletes \<and> K (call_subject x)"

definition updates_status :: "(subject \<Rightarrow> bool) \<Rightarrow> call \<Rightarrow> bool" where
  "updates_status K x \<longleftrightarrow> call_verb x = UpdatesStatus \<and> K (call_subject x)"

definition failed_with :: "(subject \<Rightarrow> bool) \<Rightarrow> (go_error \<Rightarrow> bool) \<Rightarrow> call \<Rightarrow> bool" where
  "failed_with K E x \<longleftrightarrow> K (call_subject x) \<and> (\<exists>e. call_error x = Some e \<and> E e)"

definition is_target :: "subject \<Rightarrow> bool" where
  "is_target s \<longleftrightarrow> is_HTTPRoute s \<or> is_Gateway s"

lemma ReconcileResource_orderly:
  assumes "\<And>obj. K (s obj)"
  shows "orderly tol [Once (reconciles K)] (ReconcileResource (journal_api s A) desired f)"
  unfolding ReconcileResource_def Let_def CreateResource_def DeleteResource_def UpdateResource_def journal_api_sel
  by (intro orderly_after_quiet[of "attempt _"] orderly_after_quiet[of "liftE _"] orderly_cases
      orderly_then_quiet[of _ _ "logged _ _ _"] orderly_logged orderly_quiet[of "retE _"] orderly_quiet[of "throwE _"] pres)
    (simp_all add: reconciles_def assms)

section \<open>The order of a reconciliation\<close>

text \<open>What Reconcile returns, as one outcome.\<close>

definition outcome :: "reconcile_result \<Rightarrow> go_error + unit" where
  "outcome res = (case res_Err res of Some e \<Rightarrow> Inl e | None \<Rightarrow> Inr ())"

lemma outcome_sel [simp]:
  "outcome result_ok = Inr ()" "outcome result_requeue = Inr ()" "outcome (result_error e) = Inl e"
  "outcome \<lparr>res_Requeue = b, res_Err = Some e\<rparr> = Inl e"
  by (simp_all add: outcome_def result_ok_def result_requeue_def result_error_def)

text \<open>
  A journal that reads \<open>before\<close> and then at most a write of the status: the calls before the status
  stop at the first one that is not tolerated, and the run reports the error of that call.
\<close>

definition then_status ::
    "(call \<Rightarrow> bool) \<Rightarrow> phase list \<Rightarrow> (subject \<Rightarrow> bool) \<Rightarrow> go_error + reconcile_result \<Rightarrow> journal \<Rightarrow> bool" where
  "then_status tol ps K r calls \<longleftrightarrow> (\<exists>before status. calls = before @ status \<and> follows ps before \<and>
     follows [Once (updates_status K)] status \<and> (\<forall>x \<in> set (butlast before). fine tol x) \<and>
     (\<forall>res. r = Inr res \<longrightarrow> ends tol (outcome res) before))"

lemma then_statusI:
  "follows ps before \<Longrightarrow> follows [Once (updates_status K)] status \<Longrightarrow> (\<And>x. x \<in> set (butlast before) \<Longrightarrow> fine tol x) \<Longrightarrow>
   (\<And>res. r = Inr res \<Longrightarrow> ends tol (outcome res) before) \<Longrightarrow> then_status tol ps K r (before @ status)"
  unfolding then_status_def by blast

lemma then_statusE:
  assumes "then_status tol ps K r calls"
  obtains before status where "calls = before @ status" "follows ps before" "follows [Once (updates_status K)] status"
    "\<And>x. x \<in> set (butlast before) \<Longrightarrow> fine tol x" "\<And>res. r = Inr res \<Longrightarrow> ends tol (outcome res) before"
  using assms unfolding then_status_def by blast

lemma ends_weaken:
  assumes "ends tol r xs" "\<And>x. tol x \<Longrightarrow> tol' x"
  shows "ends tol' r xs"
proof -
  have "fine tol x \<Longrightarrow> fine tol' x" for x using assms(2) by (auto simp: fine_def)
  then show ?thesis using assms(1) by (auto simp: ends_def)
qed

definition live_run :: "('w, bool) io \<Rightarrow> (go_error option \<Rightarrow> ('w, bool) io) \<Rightarrow> ('w, reconcile_result) io" where
  "live_run spec st =
     bindE (attempt spec) (\<lambda>spec.
       let specErr = (case spec of Inl err \<Rightarrow> Some err | Inr _ \<Rightarrow> None) in
       if spec = Inr True then retE result_requeue
       else bindE (attempt (st specErr)) (\<lambda>status.
         case specErr of
           Some err \<Rightarrow> retE (result_error err)
         | None \<Rightarrow>
             (case status of
                Inl err \<Rightarrow> retE (result_error err)
              | Inr requeue \<Rightarrow> if requeue then retE result_requeue else retE result_ok)))"

lemma live_run_order:
  assumes "orderly tol ps spec" "\<And>e. orderly tol' [Once (updates_status K)] (st e)"
    and "live_run spec st (w, tr) = (r, w', tr')"
  shows "\<exists>calls. tr' = tr @ calls \<and> then_status tol ps K r calls"
proof -
  obtain r1 w1 tr1 where spec: "spec (w, tr) = (r1, w1, tr1)" by (cases "spec (w, tr)") auto
  from orderlyD[OF assms(1) spec] obtain xs where xs: "tr1 = tr @ xs" "follows ps xs" "ends tol r1 xs" .
  have stops: "\<forall>x \<in> set (butlast xs). fine tol x" using xs(3) by (simp add: ends_def)
  show ?thesis
  proof (cases "r1 = Inr True \<or> (\<exists>e. r1 = Inl e \<and> is_panic e)")
    case True
    with assms(3) spec have "tr' = tr1" "\<And>res. r = Inr res \<Longrightarrow> res = result_requeue \<and> r1 = Inr True"
      by (auto simp: live_run_def attempt_def bindE_def)
    with xs stops have "then_status tol ps K r (xs @ [])"
      by (intro then_statusI) (auto simp: ends_Inr)
    with xs(1) \<open>tr' = tr1\<close> show ?thesis by auto
  next
    case False
    define specErr where "specErr = (case r1 of Inl err \<Rightarrow> Some err | Inr _ \<Rightarrow> None)"
    obtain r2 w2 tr2 where st: "st specErr (w1, tr1) = (r2, w2, tr2)" by (cases "st specErr (w1, tr1)") auto
    from orderlyD[OF assms(2) st] obtain ys where ys: "tr2 = tr1 @ ys" "follows [Once (updates_status K)] ys" .
    from False assms(3) spec st have "tr' = tr2"
      and "\<And>res. r = Inr res \<Longrightarrow> (\<forall>e. r1 = Inl e \<longrightarrow> outcome res = Inl e)"
      by (cases r1; cases r2; auto simp: live_run_def attempt_def bindE_def specErr_def Let_def split: if_splits)+
    moreover have "ends tol (outcome res) xs" if "\<And>e. r1 = Inl e \<Longrightarrow> outcome res = Inl e" for res
      using xs(3) that by (cases r1) (auto simp: ends_def fine_def)
    ultimately have "then_status tol ps K r (xs @ ys)" and tr': "tr' = tr @ xs @ ys"
      using xs ys stops by (auto intro: then_statusI)
    then show ?thesis by blast
  qed
qed

text \<open>
  What both reconcilers are made of: the policies of one kind, the clean-up and the reconciliation
  of a live policy. The two are to be orderly; then so is Reconcile.
\<close>

definition missing :: "(subject \<Rightarrow> bool) \<Rightarrow> call \<Rightarrow> bool" where
  "missing K = failed_with K IsNotFound"

definition writes_finalizers ::
    "('a k8s_object_scheme \<Rightarrow> subject) \<Rightarrow> 'a k8s_object_scheme \<Rightarrow> (string list \<Rightarrow> string list) \<Rightarrow> call \<Rightarrow> bool" where
  "writes_finalizers s p f = updates (\<lambda>x. x = s (p\<lparr>obj_Finalizers := f (obj_Finalizers p)\<rparr>))"

definition reconcile_run ::
    "('w, 'a k8s_object_scheme) resource_api \<Rightarrow> (string list \<Rightarrow> bool) \<Rightarrow> (string list \<Rightarrow> string list) \<Rightarrow>
     (string list \<Rightarrow> string list) \<Rightarrow> ('a k8s_object_scheme \<Rightarrow> ('w, unit) io) \<Rightarrow>
     ('a k8s_object_scheme \<Rightarrow> ('w, reconcile_result) io) \<Rightarrow> object_key \<Rightarrow> ('w, reconcile_result) io" where
  "reconcile_run A has add rem clean live req =
     bindE (attempt (api_Get A req)) (\<lambda>got.
       case got of
         Inl err \<Rightarrow> if IsNotFound err then retE result_ok else retE (result_error err)
       | Inr p \<Rightarrow>
           if obj_DeletionTimestamp p \<noteq> None \<and> has (obj_Finalizers p) then
             bindE (attempt (clean p)) (\<lambda>done.
               case done of
                 Inl err \<Rightarrow> retE (result_error err)
               | Inr _ \<Rightarrow>
                   bindE (attempt (UpdateResource A (p\<lparr>obj_Finalizers := rem (obj_Finalizers p)\<rparr>))) (\<lambda>upd.
                     case upd of
                       Inl err \<Rightarrow> if IsNotFound err then retE result_ok else retE (result_error err)
                     | Inr _ \<Rightarrow> retE result_ok))
           else if obj_DeletionTimestamp p \<noteq> None then retE result_ok
           else if \<not> has (obj_Finalizers p) then
             let p = p\<lparr>obj_Finalizers := add (obj_Finalizers p)\<rparr> in
             bindE (attempt (UpdateResource A p)) (\<lambda>upd.
               case upd of
                 Inl err \<Rightarrow>
                   if \<not> IsNotFound err then retE \<lparr>res_Requeue = True, res_Err = Some err\<rparr> else live p
               | Inr p \<Rightarrow> live p)
           else live p)"

definition reconcile_order ::
    "('a k8s_object_scheme \<Rightarrow> subject) \<Rightarrow> (subject \<Rightarrow> bool) \<Rightarrow> (string list \<Rightarrow> bool) \<Rightarrow>
     (string list \<Rightarrow> string list) \<Rightarrow> (string list \<Rightarrow> string list) \<Rightarrow> (call \<Rightarrow> bool) \<Rightarrow> (call \<Rightarrow> bool) \<Rightarrow>
     phase list \<Rightarrow> phase list \<Rightarrow> go_error + 'a k8s_object_scheme \<Rightarrow> go_error + reconcile_result \<Rightarrow> journal \<Rightarrow> bool" where
  "reconcile_order s K has add rem spec_tol clean_tol spec_phases clean_phases got r calls \<longleftrightarrow>
     (case got of
        Inl e \<Rightarrow> calls = []
      | Inr p \<Rightarrow>
          if obj_DeletionTimestamp p = None then
            then_status (\<lambda>x. spec_tol x \<or> missing K x)
              (if has (obj_Finalizers p) then spec_phases else Once (writes_finalizers s p add) # spec_phases) K r calls
          else if has (obj_Finalizers p) then
            follows (clean_phases @ [Once (writes_finalizers s p rem)]) calls \<and>
            (\<forall>x \<in> set (butlast calls). fine clean_tol x) \<and>
            (\<forall>res. r = Inr res \<longrightarrow> ends (\<lambda>x. clean_tol x \<or> missing K x) (outcome res) calls)
          else calls = [])"

locale journaled =
  fixes s :: "'a k8s_object_scheme \<Rightarrow> subject" and K :: "subject \<Rightarrow> bool"
    and A :: "('w, 'a k8s_object_scheme) resource_api"
    and has :: "string list \<Rightarrow> bool" and add rem :: "string list \<Rightarrow> string list"
    and clean :: "'a k8s_object_scheme \<Rightarrow> ('w \<times> journal, unit) io"
    and live :: "'a k8s_object_scheme \<Rightarrow> ('w \<times> journal, reconcile_result) io"
    and spec_tol clean_tol :: "call \<Rightarrow> bool" and spec_phases clean_phases :: "phase list"
  assumes subject: "\<And>p. K (s p)"
    and clean: "\<And>p. orderly clean_tol clean_phases (clean p)"
    and live: "\<And>p w tr r w' tr'. live p (w, tr) = (r, w', tr') \<Longrightarrow>
      \<exists>calls. tr' = tr @ calls \<and> then_status spec_tol spec_phases K r calls"
begin

lemma then_status_weaken:
  assumes "then_status tol ps K r calls" "\<And>x. tol x \<Longrightarrow> tol' x"
  shows "then_status tol' ps K r calls"
proof -
  from assms(1) obtain before status where *: "calls = before @ status" "follows ps before"
    "follows [Once (updates_status K)] status" "\<And>x. x \<in> set (butlast before) \<Longrightarrow> fine tol x"
    "\<And>res. r = Inr res \<Longrightarrow> ends tol (outcome res) before"
    by (elim then_statusE) (rule that)
  have "fine tol' x" if "x \<in> set (butlast before)" for x
    using *(4)[OF that] assms(2) by (auto simp: fine_def)
  moreover have "ends tol' (outcome res) before" if "r = Inr res" for res
    by (rule ends_weaken[OF *(5)[OF that] assms(2)])
  ultimately show ?thesis unfolding *(1) using *(2,3) by (intro then_statusI) auto
qed

lemma live_order:
  assumes "live p (w, tr) = (r, w', tr')"
  shows "\<exists>calls. tr' = tr @ calls \<and> then_status (\<lambda>x. spec_tol x \<or> missing K x) spec_phases K r calls"
  using live[OF assms] then_status_weaken[where tol = spec_tol and tol' = "\<lambda>x. spec_tol x \<or> missing K x"] by blast

text \<open>The finalizer is written before everything else.\<close>

lemma then_status_first:
  assumes "then_status tol ps K r calls" "P x" "fine tol x"
  shows "then_status tol (Once P # ps) K r (x # calls)"
proof -
  from assms(1) obtain before status where *: "calls = before @ status" "follows ps before"
    "follows [Once (updates_status K)] status" "\<And>x. x \<in> set (butlast before) \<Longrightarrow> fine tol x"
    "\<And>res. r = Inr res \<Longrightarrow> ends tol (outcome res) before"
    by (elim then_statusE) (rule that)
  have "ends tol (outcome res) (x # before)" if "r = Inr res" for res
    using *(5)[OF that] assms(3) by (cases before) (auto simp: ends_def)
  moreover have "fine tol y" if "y \<in> set (butlast (x # before))" for y
    using that *(4) assms(3) by (cases before) auto
  ultimately have "then_status tol (Once P # ps) K r ((x # before) @ status)"
    using *(2,3) assms(2) by (intro then_statusI) auto
  then show ?thesis by (simp add: *(1))
qed

lemma live_after_finalizer:
  assumes "bindE (attempt (UpdateResource (journal_api s A) (p\<lparr>obj_Finalizers := add (obj_Finalizers p)\<rparr>))) (\<lambda>upd. case upd of
      Inl err \<Rightarrow> if \<not> IsNotFound err then retE \<lparr>res_Requeue = True, res_Err = Some err\<rparr>
        else live (p\<lparr>obj_Finalizers := add (obj_Finalizers p)\<rparr>)
    | Inr q \<Rightarrow> live q) (w, tr) = (r, w', tr')"
  shows "\<exists>calls. tr' = tr @ calls \<and>
    then_status (\<lambda>x. spec_tol x \<or> missing K x) (Once (writes_finalizers s p add) # spec_phases) K r calls"
proof -
  let ?p = "p\<lparr>obj_Finalizers := add (obj_Finalizers p)\<rparr>"
  let ?tol = "\<lambda>x. spec_tol x \<or> missing K x"
  obtain r1 w1 where upd: "api_Update A ?p w = (r1, w1)" by fastforce
  define x where "x = \<lparr>call_verb = Updates, call_subject = s ?p, call_error = error_of r1\<rparr>"
  have run: "logged Updates (s ?p) (api_Update A ?p) (w, tr) = (r1, w1, tr @ [x])"
    by (simp add: logged_def upd x_def)
  have first: "writes_finalizers s p add x" by (simp add: writes_finalizers_def updates_def x_def)
  consider (stored) q where "r1 = Inr q" | (gone) e where "r1 = Inl e" "IsNotFound e" "\<not> is_panic e"
    | (failed) e where "r1 = Inl e" "is_panic e \<or> \<not> IsNotFound e" by (cases r1) auto
  then show ?thesis
  proof cases
    case stored
    with run assms have "live q (w1, tr @ [x]) = (r, w', tr')"
      by (simp add: UpdateResource_def attempt_def bindE_def)
    from live_order[OF this] obtain calls where "tr' = tr @ x # calls" "then_status ?tol spec_phases K r calls" by auto
    with then_status_first[where tol = ?tol and P = "writes_finalizers s p add", OF this(2) first] show ?thesis by (auto simp: fine_def x_def stored)
  next
    case gone
    with run assms have "live ?p (w1, tr @ [x]) = (r, w', tr')"
      by (simp add: UpdateResource_def attempt_def bindE_def)
    from live_order[OF this] obtain calls where "tr' = tr @ x # calls" "then_status ?tol spec_phases K r calls" by auto
    with then_status_first[where tol = ?tol and P = "writes_finalizers s p add", OF this(2) first] gone subject show ?thesis
      by (auto simp: fine_def x_def missing_def failed_with_def)
  next
    case failed
    with run assms have "tr' = tr @ [x]" "\<And>res. r = Inr res \<Longrightarrow> outcome res = Inl e"
      by (auto simp: UpdateResource_def attempt_def bindE_def split: if_splits)
    moreover have "ends ?tol (Inl e :: go_error + unit) [x]" by (simp add: ends_def x_def failed)
    ultimately have "then_status ?tol (Once (writes_finalizers s p add) # spec_phases) K r ([x] @ [])"
      using first by (intro then_statusI) auto
    with \<open>tr' = tr @ [x]\<close> show ?thesis by auto
  qed
qed

lemma clean_up_order:
  assumes "bindE (attempt (clean p)) (\<lambda>done. case done of
      Inl err \<Rightarrow> retE (result_error err)
    | Inr _ \<Rightarrow> bindE (attempt (UpdateResource (journal_api s A) (p\<lparr>obj_Finalizers := rem (obj_Finalizers p)\<rparr>))) (\<lambda>upd.
        case upd of Inl err \<Rightarrow> if IsNotFound err then retE result_ok else retE (result_error err)
        | Inr _ \<Rightarrow> retE result_ok)) (w, tr) = (r, w', tr')"
  shows "\<exists>calls. tr' = tr @ calls \<and> follows (clean_phases @ [Once (writes_finalizers s p rem)]) calls \<and>
    (\<forall>x \<in> set (butlast calls). fine clean_tol x) \<and>
    (\<forall>res. r = Inr res \<longrightarrow> ends (\<lambda>x. clean_tol x \<or> missing K x) (outcome res) calls)"
proof -
  let ?p = "p\<lparr>obj_Finalizers := rem (obj_Finalizers p)\<rparr>"
  obtain r1 w1 tr1 where run: "clean p (w, tr) = (r1, w1, tr1)" by (cases "clean p (w, tr)") auto
  from orderlyD[OF clean run] obtain xs where xs: "tr1 = tr @ xs" "follows clean_phases xs" "ends clean_tol r1 xs" .
  have weak: "ends clean_tol q ys \<Longrightarrow> ends (\<lambda>x. clean_tol x \<or> missing K x) q ys" for q :: "go_error + unit" and ys
    unfolding ends_def fine_def by blast
  show ?thesis
  proof (cases r1)
    case (Inl e)
    with run assms have "tr' = tr @ xs" "\<And>res. r = Inr res \<Longrightarrow> outcome res = Inl e" using xs(1)
      by (auto simp: attempt_def bindE_def split: if_splits)
    moreover have "follows (clean_phases @ [Once (writes_finalizers s p rem)]) xs"
      using follows_append[OF xs(2), of "[Once (writes_finalizers s p rem)]" "[]"] by simp
    ultimately show ?thesis
      using xs(3) Inl weak by (intro exI[of _ xs]) (auto simp: ends_def fine_def)
  next
    case (Inr u)
    obtain r2 w2 where upd: "api_Update A ?p w1 = (r2, w2)" by fastforce
    define x where "x = \<lparr>call_verb = Updates, call_subject = s ?p, call_error = error_of r2\<rparr>"
    have "logged Updates (s ?p) (api_Update A ?p) (w1, tr1) = (r2, w2, tr1 @ [x])"
      by (simp add: logged_def upd x_def)
    with run assms Inr have trace: "tr' = tr @ xs @ [x]"
      and out: "\<And>res. r = Inr res \<Longrightarrow> outcome res = Inr () \<and> (\<exists>q. r2 = Inr q) \<or>
        (\<exists>e. r2 = Inl e \<and> (IsNotFound e \<and> outcome res = Inr () \<or> outcome res = Inl e))"
      by (cases r2; auto simp: UpdateResource_def attempt_def bindE_def xs(1) split: if_splits)+
    have all: "\<forall>y \<in> set xs. fine clean_tol y" using xs(3) Inr by (simp add: ends_Inr)
    have "follows [Once (writes_finalizers s p rem)] [x]"
      by (simp add: writes_finalizers_def updates_def x_def)
    from follows_append[OF xs(2) this]
    have "follows (clean_phases @ [Once (writes_finalizers s p rem)]) (xs @ [x])" .
    moreover have "ends (\<lambda>x. clean_tol x \<or> missing K x) (outcome res) (xs @ [x])" if "r = Inr res" for res
      using out[OF that] all subject
      by (auto simp: ends_def x_def fine_def missing_def failed_with_def)
    ultimately show ?thesis using trace all by (intro exI[of _ "xs @ [x]"]) auto
  qed
qed

lemma Reconcile_order:
  assumes "reconcile_run (journal_api s A) has add rem clean live req (w, []) = (r, w', calls)"
  shows "reconcile_order s K has add rem spec_tol clean_tol spec_phases clean_phases (fst (api_Get A req w)) r calls"
proof -
  obtain g w1 where get: "api_Get A req w = (g, w1)" by fastforce
  show ?thesis
  proof (cases g)
    case (Inl e)
    with assms get show ?thesis
      by (auto simp: reconcile_run_def reconcile_order_def unlogged_def attempt_def bindE_def split: if_splits)
  next
    case (Inr p)
    with get have got: "bindE (attempt (api_Get (journal_api s A) req)) f (w, []) = f (Inr p) (w1, [])" for f
      by (simp add: attempt_def bindE_def unlogged_def)
    note run = assms[unfolded reconcile_run_def got sum.case Let_def]
    consider (clean) "obj_DeletionTimestamp p \<noteq> None" "has (obj_Finalizers p)"
      | (gone) "obj_DeletionTimestamp p \<noteq> None" "\<not> has (obj_Finalizers p)"
      | (new) "obj_DeletionTimestamp p = None" "\<not> has (obj_Finalizers p)"
      | (live) "obj_DeletionTimestamp p = None" "has (obj_Finalizers p)" by blast
    then show ?thesis
    proof cases
      case clean
      with run clean_up_order[of p w1 "[]" r w' calls] show ?thesis
        by (auto simp: reconcile_order_def get Inr)
    next
      case gone
      with run show ?thesis by (auto simp: reconcile_order_def get Inr)
    next
      case new
      with run live_after_finalizer[of p w1 "[]" r w' calls] show ?thesis
        by (simp add: reconcile_order_def get Inr)
    next
      case live
      with run live_order[of p w1 "[]" r w' calls] show ?thesis
        by (simp add: reconcile_order_def get Inr)
    qed
  qed
qed

end

end
