(* ===== verification/Write_Order.thy ===== *)
theory Write_Order
  imports Journal
begin

text \<open>
  The order of the writes of both reconcilers, on any API server and whatever others write
  meanwhile: which writes a Reconcile asks for, in which order, and that it stops at the first one
  that fails and reports its error.
\<close>

section \<open>Reading\<close>

named_theorems quiet "computations that write nothing"

lemmas quiet_intros = pres quiet

lemma fetch_quiet [quiet]:
  "preserves (\<lambda>w. snd w = tr) (FetchValidHTTPRoute (journal c) k)"
  "preserves (\<lambda>w. snd w = tr) (FetchValidGateway (journal c) k)"
  "preserves (\<lambda>w. snd w = tr) (FetchValidTargetRef (journal c) t ns)"
  "preserves (\<lambda>w. snd w = tr) (TargetedGatewayKeys (journal c) t ns)"
  "preserves (\<lambda>w. snd w = tr) (TargetHostnames (journal c) t ns)"
  unfolding FetchValidTargetRef_def TargetedGatewayKeys_def TargetHostnames_def FetchValidHTTPRoute_def
    FetchValidGateway_def Let_def journal_sel journal_api_sel
  by (intro pres)+

lemma load_policies_quiet [quiet]: "preserves (\<lambda>w. snd w = tr) (load_policies (journal c) msg refs)"
  unfolding load_policies_def load_step_def Let_def journal_sel journal_api_sel by (intro pres)

lemma replace_gateway_quiet [quiet]: "preserves (\<lambda>w. snd w = tr) (replace_gateway (journal c) gw refs idx)"
  unfolding replace_gateway_def gatewayLimits_def Let_def by (intro pres quiet)

lemma objects_quiet [quiet]:
  "preserves (\<lambda>w. snd w = tr) (gatewayRateLimitingClusterEnvoyFilter (journal c) gw refs)"
  "preserves (\<lambda>w. snd w = tr) (gatewayWASMPlugin (journal c) gw refs)"
  unfolding gatewayRateLimitingClusterEnvoyFilter_def gatewayWASMPlugin_def wasmPluginConfig_def Let_def
    journal_sel journal_api_sel
  by (intro pres quiet)+

lemma diffs_quiet [quiet]:
  "preserves (\<lambda>w. snd w = tr) (computeGatewayDiffs (journal c) rlp)"
  "preserves (\<lambda>w. snd w = tr) (computeFinalizeGatewayDiff (journal c) rlp)"
  unfolding computeGatewayDiffs_def computeFinalizeGatewayDiff_def journal_sel journal_api_sel
  by (intro pres quiet)+

lemma rlp_calculateStatus_quiet [quiet]: "preserves (\<lambda>w. snd w = tr) (rlp_calculateStatus (journal c) rlp e)"
  unfolding rlp_calculateStatus_def gatewaysRateLimits_def gateway_rate_limits_def Let_def journal_sel journal_api_sel
  by (intro pres quiet)

section \<open>The steps\<close>

lemma update_target_orderly: "orderly tol [Once (updates is_target)] (update_target (journal c) obj)"
  unfolding update_target_def UpdateResource_def journal_sel journal_api_sel
  by (cases obj; simp; intro orderly_then_quiet orderly_logged pres)
    (simp_all add: updates_def is_target_def)

lemma back_reference_orderly:
  "orderly tol [Once (updates is_target)] (ReconcileTargetBackReference (journal c) pk t ns ann)"
  "orderly tol [Once (updates is_target)] (DeleteTargetBackReference (journal c) pk t ns ann)"
  unfolding ReconcileTargetBackReference_def DeleteTargetBackReference_def Let_def
  by (intro orderly_after_quiet[of "FetchValidTargetRef _ _ _"] orderly_after_quiet[of "attempt _"] orderly_cases
      update_target_orderly orderly_quiet[of "retE _"] orderly_quiet[of "throwE _"] pres quiet)+

lemma reconcileLimits_orderly: "orderly tol [Once (updates is_Limitador)] (reconcileLimits (journal c) rlp diff)"
  unfolding reconcileLimits_alt recompute_index_def UpdateResource_def journal_sel journal_api_sel
  by (intro orderly_after_quiet[of "unlogged _"] orderly_after_quiet[of "foldE _ _ _"] orderly_after_quiet[of "askE _"]
      orderly_then_quiet[of _ _ "logged _ _ _"] orderly_logged orderly_cases orderly_quiet[of "retE _"] pres quiet)
    (simp add: updates_def)

lemma filters_orderly:
  "orderly tol [Many (reconciles is_EnvoyFilter)] (reconcileRateLimitingClusterEnvoyFilter (journal c) rlp diff)"
  unfolding reconcileEnvoyFilter_alt reconcile_filter_def journal_sel
  by (intro orderly_loops orderly_after_quiet orderly_Many ReconcileResource_orderly quiet) simp

lemma plugins_orderly:
  "orderly tol [Many (reconciles is_WasmPlugin)] (reconcileWASMPluginConf (journal c) rlp diff)"
  unfolding reconcileWASMPluginConf_alt reconcile_plugin_def journal_sel
  by (intro orderly_loops orderly_after_quiet orderly_Many ReconcileResource_orderly quiet) simp

lemma references_orderly:
  "orderly tol [Many (updates is_Gateway)] (reconcileGatewayRLPReferences (journal c) rlp diff)"
proof -
  have one: "orderly tol [Many (updates is_Gateway)] (update_if_changed (journal c) gw res)" for gw res
    unfolding update_if_changed_def UpdateResource_def journal_sel journal_api_sel
    by (auto intro!: orderly_Many[OF orderly_logged] orderly_quiet[of "retE _"] pres simp: updates_def
        split: bool.split option.split prod.split)
  show ?thesis
    unfolding reconcileGatewayRLPReferences_def
    by (intro orderly_Many_bindE orderly_mapE one orderly_quiet[of "retE _"] pres)
qed

section \<open>RateLimitPolicy\<close>

text \<open>What is written for a live policy, and what for a deleted one, in this order.\<close>

definition rlp_spec_phases :: "phase list" where
  "rlp_spec_phases = [Once (updates is_target), Once (updates is_Limitador), Many (reconciles is_EnvoyFilter),
     Many (reconciles is_WasmPlugin), Many (updates is_Gateway)]"

definition rlp_clean_up_phases :: "phase list" where
  "rlp_clean_up_phases = [Many (updates is_Gateway), Many (reconciles is_WasmPlugin), Many (reconciles is_EnvoyFilter),
     Once (updates is_Limitador), Once (updates is_target)]"

lemma reconcileSpec_orderly: "orderly tol rlp_spec_phases (reconcileSpec (journal c) rlp)"
proof -
  have diffs: "orderly tol [Once (updates is_Limitador), Many (reconciles is_EnvoyFilter),
     Many (reconciles is_WasmPlugin), Many (updates is_Gateway)] (reconcileGatewayDiffs (journal c) rlp)"
    unfolding reconcileGatewayDiffs_def
    by (intro orderly_after_quiet[of "computeGatewayDiffs _ _"]
        orderly_bindE[where ps = "[_]", simplified] reconcileLimits_orderly filters_orderly plugins_orderly
        orderly_then_quiet[OF references_orderly] pres quiet)
  have "orderly tol ([Once (updates is_target)] @ [Once (updates is_Limitador), Many (reconciles is_EnvoyFilter),
     Many (reconciles is_WasmPlugin), Many (updates is_Gateway)])
     (bindE (reconcileDirectBackReference (journal c) rlp) (\<lambda>_. bindE (reconcileGatewayDiffs (journal c) rlp) (\<lambda>_. retE False)))"
    unfolding reconcileDirectBackReference_def
    by (intro orderly_bindE back_reference_orderly orderly_then_quiet[OF diffs] pres)
  then show ?thesis
    unfolding reconcileSpec_def rlp_spec_phases_def validateRuleHosts_def Let_def
    by (intro orderly_cases orderly_quiet[of "throwE _"] orderly_after_quiet[of "bindE _ _"] pres quiet) simp_all
qed

lemma finalizeRLP_orderly:
  "orderly (missing is_Limitador) rlp_clean_up_phases (finalizeRLP (journal c) rlp)"
proof -
  have swap: "(if \<not> b then x else y) = (if b then y else x)" for b and x y :: 'b by simp
  have "orderly (missing is_Limitador) [Once (updates is_Limitador)]
      (bindE (attempt (reconcileLimits (journal c) rlp diff)) (\<lambda>limits. case limits of
        Inl err \<Rightarrow> if \<not> IsNotFound err then throwE err else retE () | Inr _ \<Rightarrow> retE ()))" for diff
    unfolding swap
    by (rule orderly_handled[OF reconcileLimits_orderly]) (auto simp: follows_Once updates_def missing_def failed_with_def)
  then have rest: "orderly (missing is_Limitador) ([Once (updates is_Limitador)] @ [Once (updates is_target)])
      (bindE (attempt (reconcileLimits (journal c) rlp diff)) (\<lambda>limits.
       bindE (case limits of Inl err \<Rightarrow> if \<not> IsNotFound err then throwE err else retE () | Inr _ \<Rightarrow> retE ())
         (\<lambda>_. rlp_deleteNetworkResourceBackReference (journal c) rlp)))" for diff
    unfolding rlp_deleteNetworkResourceBackReference_def bindE_assoc[symmetric]
    by (intro orderly_bindE back_reference_orderly)
  show ?thesis
    unfolding finalizeRLP_def rlp_clean_up_phases_def
    by (intro orderly_after_quiet[of "computeFinalizeGatewayDiff _ _"]
        orderly_bindE[where ps = "[_]", simplified] references_orderly plugins_orderly filters_orderly
        rest[simplified] quiet)
qed

lemma rlp_status_orderly:
  "orderly (\<lambda>_. True) [Once (updates_status is_RLP)] (rlp_reconcileStatus (journal c) rlp e)"
  unfolding rlp_reconcileStatus_def Let_def journal_sel journal_api_sel
  by (intro orderly_after_quiet[of "rlp_calculateStatus _ _ _"] orderly_cases orderly_quiet[of "retE _"]
      orderly_then_quiet[OF orderly_attempt[OF orderly_logged]] pres quiet)
    (simp add: updates_status_def)

lemma rlp_live_is_run: "rlp_reconcile_live c rlp = live_run (reconcileSpec c rlp) (rlp_reconcileStatus c rlp)"
  by (simp add: rlp_reconcile_live_def live_run_def)

lemma rlp_Reconcile_is_run:
  "rlp_Reconcile c = reconcile_run (cl_RLPs c) (\<lambda>fs. lib_ContainsFinalizer c fs rateLimitPolicyFinalizer)
     (\<lambda>fs. lib_AddFinalizer c fs rateLimitPolicyFinalizer) (\<lambda>fs. lib_RemoveFinalizer c fs rateLimitPolicyFinalizer)
     (finalizeRLP c) (rlp_reconcile_live c)"
  by (rule ext) (simp add: rlp_Reconcile_def reconcile_run_def)

interpretation rlp: journaled Of_RLP is_RLP "cl_RLPs c" "\<lambda>fs. lib_ContainsFinalizer c fs rateLimitPolicyFinalizer"
    "\<lambda>fs. lib_AddFinalizer c fs rateLimitPolicyFinalizer" "\<lambda>fs. lib_RemoveFinalizer c fs rateLimitPolicyFinalizer"
    "finalizeRLP (journal c)" "rlp_reconcile_live (journal c)" "\<lambda>_. False" "missing is_Limitador"
    rlp_spec_phases rlp_clean_up_phases for c
proof unfold_locales
  fix p w tr r w' tr' assume "rlp_reconcile_live (journal c) p (w, tr) = (r, w', tr')"
  then show "\<exists>calls. tr' = tr @ calls \<and> then_status (\<lambda>_. False) rlp_spec_phases is_RLP r calls"
    unfolding rlp_live_is_run by (rule live_run_order[OF reconcileSpec_orderly rlp_status_orderly])
qed (simp_all add: finalizeRLP_orderly)

lemma rlp_journal_order:
  assumes "rlp_Reconcile (journal c) req (w, []) = (r, w', calls)"
  shows "reconcile_order Of_RLP is_RLP (\<lambda>fs. lib_ContainsFinalizer c fs rateLimitPolicyFinalizer)
    (\<lambda>fs. lib_AddFinalizer c fs rateLimitPolicyFinalizer) (\<lambda>fs. lib_RemoveFinalizer c fs rateLimitPolicyFinalizer)
    (\<lambda>_. False) (missing is_Limitador) rlp_spec_phases rlp_clean_up_phases
    (fst (api_Get (cl_RLPs c) req w)) r calls"
  using assms unfolding rlp_Reconcile_is_run journal_sel by (rule rlp.Reconcile_order)

section \<open>AuthPolicy\<close>

definition ap_spec_phases :: "phase list" where
  "ap_spec_phases = [Once (updates is_target), Many (reconciles is_AuthorizationPolicy), Once (reconciles is_AuthConfig)]"

definition ap_clean_up_phases :: "phase list" where
  "ap_clean_up_phases = [Many (deletes is_AuthorizationPolicy), Once (deletes is_AuthConfig), Once (updates is_target)]"

text \<open>Another writer may have created the object meanwhile: that failure is not reported.\<close>

definition overtaken :: "call \<Rightarrow> bool" where
  "overtaken = failed_with (\<lambda>x. is_AuthorizationPolicy x \<or> is_AuthConfig x) IsAlreadyExists"

lemma unless_exists_orderly:
  assumes "orderly overtaken [Once P] m" "\<And>x. P x \<Longrightarrow> is_AuthorizationPolicy (call_subject x) \<or> is_AuthConfig (call_subject x)"
  shows "orderly overtaken [Once P] (unless_exists m)"
proof -
  have swap: "(if \<not> b then x else y) = (if b then y else x)" for b and x y :: 'b by simp
  show ?thesis
    unfolding unless_exists_def swap
    by (rule orderly_handled[OF assms(1)]) (auto simp: follows_Once overtaken_def failed_with_def dest: assms(2))
qed

lemma case_target_quiet [quiet]:
  "(\<And>r. preserves P (f r)) \<Longrightarrow> (\<And>g. preserves P (h g)) \<Longrightarrow>
   preserves P (case x of TargetHTTPRoute r \<Rightarrow> f r | TargetGateway g \<Rightarrow> h g)"
  by (cases x) simp_all

lemma ap_steps_quiet [quiet]:
  "preserves (\<lambda>w. snd w = tr) (enforceHierarchicalConstraints (journal c) ap)"
  "preserves (\<lambda>w. snd w = tr) (to_rules (journal c) ap)"
  "preserves (\<lambda>w. snd w = tr) (ap_calculateStatus (journal c) ap e b)"
  unfolding enforceHierarchicalConstraints_def to_rules_def ap_calculateStatus_def Let_def journal_sel
  by (intro pres quiet)+

lemma auth_rules_orderly:
  "orderly overtaken [Many (reconciles is_AuthorizationPolicy)] (reconcileAuthRules (journal c) ap)"
  unfolding reconcileAuthRules_def journal_sel
  by (intro orderly_after_quiet[of "to_rules _ _"] orderly_after_quiet[of "attempt _"] orderly_cases
      orderly_quiet[of "retE _"] orderly_loops orderly_Many unless_exists_orderly ReconcileResource_orderly pres quiet)
    (auto simp: reconciles_def)

lemma auth_schemes_orderly: "orderly overtaken [Once (reconciles is_AuthConfig)] (reconcileAuthSchemes (journal c) ap)"
  unfolding reconcileAuthSchemes_def journal_sel
  by (intro orderly_cases orderly_quiet[of "throwE _"] unless_exists_orderly ReconcileResource_orderly pres)
    (auto simp: reconciles_def)

lemma ap_reconcileSpec_orderly: "orderly overtaken ap_spec_phases (ap_reconcileSpec (journal c) ap)"
  unfolding ap_reconcileSpec_def ap_spec_phases_def reconcileNetworkResourceBackReference_def
  by (intro orderly_cases orderly_quiet[of "throwE _"] orderly_after_quiet[of "enforceHierarchicalConstraints _ _"]
      orderly_bindE[where ps = "[_]", simplified] back_reference_orderly auth_rules_orderly
      orderly_then_quiet[OF auth_schemes_orderly] pres quiet)

lemma finalizeAP_orderly: "orderly (missing is_AuthConfig) ap_clean_up_phases (finalizeAP (journal c) ap)"
proof -
  have rules: "orderly tol [Many (deletes is_AuthorizationPolicy)] (removeIstioAuthPolicy (journal c) ap)" for tol
    unfolding removeIstioAuthPolicy_def DeleteResource_def journal_sel journal_api_sel
    by (intro orderly_after_quiet[of "attempt _"] orderly_cases orderly_quiet[of "retE _"] orderly_loops
        orderly_Many[OF orderly_logged] pres quiet) (simp add: deletes_def)
  have schemes: "orderly (missing is_AuthConfig) [Once (deletes is_AuthConfig)] (removeAuthSchemes (journal c) ap)"
    unfolding removeAuthSchemes_def DeleteResource_def journal_sel journal_api_sel
    by (rule orderly_handled[OF orderly_logged])
      (auto simp: deletes_def follows_Once missing_def failed_with_def)
  show ?thesis
    unfolding finalizeAP_def ap_clean_up_phases_def ap_deleteNetworkResourceBackReference_def
    by (intro orderly_bindE[where ps = "[_]", simplified] rules schemes back_reference_orderly)
qed

lemma ap_status_orderly:
  "orderly (\<lambda>_. True) [Once (updates_status is_AP)] (ap_reconcileStatus (journal c) ap e)"
  unfolding ap_reconcileStatus_def GetResource_def Let_def journal_sel journal_api_sel
  by (intro orderly_after_quiet[of "if _ then _ else _"] orderly_after_quiet[of "ap_calculateStatus _ _ _ _"] orderly_cases
      orderly_quiet[of "retE _"] orderly_then_quiet[OF orderly_attempt[OF orderly_logged]] pres quiet)
    (simp add: updates_status_def)

lemma ap_live_is_run: "ap_reconcile_live c ap = live_run (ap_reconcileSpec c ap) (ap_reconcileStatus c ap)"
  by (simp add: ap_reconcile_live_def live_run_def)

lemma ap_Reconcile_is_run:
  "ap_Reconcile c = reconcile_run (cl_APs c) (\<lambda>fs. lib_ContainsFinalizer c fs authPolicyFinalizer)
     (\<lambda>fs. lib_AddFinalizer c fs authPolicyFinalizer) (\<lambda>fs. lib_RemoveFinalizer c fs authPolicyFinalizer)
     (finalizeAP c) (ap_reconcile_live c)"
  by (rule ext) (simp add: ap_Reconcile_def reconcile_run_def)

interpretation ap: journaled Of_AP is_AP "cl_APs c" "\<lambda>fs. lib_ContainsFinalizer c fs authPolicyFinalizer"
    "\<lambda>fs. lib_AddFinalizer c fs authPolicyFinalizer" "\<lambda>fs. lib_RemoveFinalizer c fs authPolicyFinalizer"
    "finalizeAP (journal c)" "ap_reconcile_live (journal c)" overtaken "missing is_AuthConfig"
    ap_spec_phases ap_clean_up_phases for c
proof unfold_locales
  fix p w tr r w' tr' assume "ap_reconcile_live (journal c) p (w, tr) = (r, w', tr')"
  then show "\<exists>calls. tr' = tr @ calls \<and> then_status overtaken ap_spec_phases is_AP r calls"
    unfolding ap_live_is_run by (rule live_run_order[OF ap_reconcileSpec_orderly ap_status_orderly])
qed (simp_all add: finalizeAP_orderly)

lemma ap_journal_order:
  assumes "ap_Reconcile (journal c) req (w, []) = (r, w', calls)"
  shows "reconcile_order Of_AP is_AP (\<lambda>fs. lib_ContainsFinalizer c fs authPolicyFinalizer)
    (\<lambda>fs. lib_AddFinalizer c fs authPolicyFinalizer) (\<lambda>fs. lib_RemoveFinalizer c fs authPolicyFinalizer)
    overtaken (missing is_AuthConfig) ap_spec_phases ap_clean_up_phases
    (fst (api_Get (cl_APs c) req w)) r calls"
  using assms unfolding ap_Reconcile_is_run journal_sel by (rule ap.Reconcile_order)

end
