(* ===== verification/Journal_Runs.thy ===== *)
theory Journal_Runs
  imports Write_Order
begin

text \<open>
  A journal changes nothing: with it, every function of the reconcilers has the same result and
  leaves the same world as without. So what holds of the journal holds of the run itself.
\<close>

section \<open>Runs with and without a journal\<close>

definition mirrors :: "('w \<times> journal, 'a) io \<Rightarrow> ('w, 'a) io \<Rightarrow> bool" where
  "mirrors m' m \<longleftrightarrow> (\<forall>w tr. fst (m' (w, tr)) = fst (m w) \<and> fst (snd (m' (w, tr))) = snd (m w))"

named_theorems mirror "computations that run alike with and without a journal"

lemma mirrorsD: "mirrors m' m \<Longrightarrow> m w = (r, w1) \<Longrightarrow> \<exists>tr'. m' (w, tr) = (r, w1, tr')"
  unfolding mirrors_def by (metis fst_conv prod.collapse snd_conv)

lemma mirrorsI: "(\<And>w tr. \<exists>tr'. m' (w, tr) = (fst (m w), snd (m w), tr')) \<Longrightarrow> mirrors m' m"
  unfolding mirrors_def by (metis fst_conv snd_conv)

lemma mirrors_basic [mirror]:
  "mirrors (retE y) (retE y)" "mirrors (throwE e) (throwE e)" "mirrors (liftE got) (liftE got)"
  "mirrors (askE (\<lambda>w. f (fst w))) (askE f)" "mirrors (unlogged m) m" "mirrors (logged v x m) m"
  by (auto simp: mirrors_def askE_def liftE_def unlogged_def logged_def split: prod.splits)

lemma mirrors_bindE [mirror]:
  assumes "mirrors m' m" "\<And>x. mirrors (f' x) (f x)"
  shows "mirrors (bindE m' f') (bindE m f)"
proof (rule mirrorsI)
  fix w tr
  obtain r w1 where m: "m w = (r, w1)" by fastforce
  from mirrorsD[OF assms(1) m] obtain tr1 where m': "m' (w, tr) = (r, w1, tr1)" by blast
  show "\<exists>tr'. bindE m' f' (w, tr) = (fst (bindE m f w), snd (bindE m f w), tr')"
  proof (cases r)
    case (Inr x)
    obtain r2 w2 where "f x w1 = (r2, w2)" by fastforce
    with mirrorsD[OF assms(2) this] m m' Inr show ?thesis by (simp add: bindE_def)
  qed (simp add: bindE_def m m')
qed

lemma mirrors_attempt [mirror]: "mirrors m' m \<Longrightarrow> mirrors (attempt m') (attempt m)"
proof (rule mirrorsI)
  fix w tr assume mm: "mirrors m' m"
  obtain r w1 where m: "m w = (r, w1)" by fastforce
  from mirrorsD[OF mm m] obtain tr1 where "m' (w, tr) = (r, w1, tr1)" by blast
  with m show "\<exists>tr'. attempt m' (w, tr) = (fst (attempt m w), snd (attempt m w), tr')"
    by (cases r) (simp_all add: attempt_def)
qed

lemma mirrors_loops [mirror]:
  "(\<And>x. mirrors (f' x) (f x)) \<Longrightarrow> mirrors (forE f' xs) (forE f xs)"
  "(\<And>x. mirrors (g' x) (g x)) \<Longrightarrow> mirrors (mapE g' xs) (mapE g xs)"
  "(\<And>x s. mirrors (h' x s) (h x s)) \<Longrightarrow> mirrors (foldE h' xs s) (foldE h xs s)"
proof -
  show "(\<And>x. mirrors (f' x) (f x)) \<Longrightarrow> mirrors (forE f' xs) (forE f xs)"
    by (induction xs) (simp_all only: forE.simps mirrors_basic mirrors_bindE)
  show "(\<And>x. mirrors (g' x) (g x)) \<Longrightarrow> mirrors (mapE g' xs) (mapE g xs)"
    by (induction xs) (simp_all only: mapE.simps mirrors_basic mirrors_bindE)
  show "(\<And>x s. mirrors (h' x s) (h x s)) \<Longrightarrow> mirrors (foldE h' xs s) (foldE h xs s)"
    by (induction xs arbitrary: s) (simp_all only: foldE.simps mirrors_basic mirrors_bindE)
qed

lemma mirrors_cases [mirror]:
  "mirrors m' m \<Longrightarrow> mirrors n' n \<Longrightarrow> mirrors (if b then m' else n') (if b then m else n)"
  "(\<And>e. mirrors (f' e) (f e)) \<Longrightarrow> (\<And>y. mirrors (g' y) (g y)) \<Longrightarrow>
    mirrors (case s of Inl e \<Rightarrow> f' e | Inr y \<Rightarrow> g' y) (case s of Inl e \<Rightarrow> f e | Inr y \<Rightarrow> g y)"
  "mirrors m' m \<Longrightarrow> (\<And>y. mirrors (h' y) (h y)) \<Longrightarrow>
    mirrors (case p of None \<Rightarrow> m' | Some y \<Rightarrow> h' y) (case p of None \<Rightarrow> m | Some y \<Rightarrow> h y)"
  "(\<And>a b. mirrors (k' a b) (k a b)) \<Longrightarrow> mirrors (case q of (a, b) \<Rightarrow> k' a b) (case q of (a, b) \<Rightarrow> k a b)"
  "mirrors m' m \<Longrightarrow> mirrors n' n \<Longrightarrow>
    mirrors (case b of True \<Rightarrow> m' | False \<Rightarrow> n') (case b of True \<Rightarrow> m | False \<Rightarrow> n)"
  "(\<And>r. mirrors (t' r) (t r)) \<Longrightarrow> (\<And>g. mirrors (u' g) (u g)) \<Longrightarrow>
    mirrors (case x of TargetHTTPRoute r \<Rightarrow> t' r | TargetGateway g \<Rightarrow> u' g)
      (case x of TargetHTTPRoute r \<Rightarrow> t r | TargetGateway g \<Rightarrow> u g)"
  by (auto split: sum.split option.split prod.split bool.split target_object.split)

section \<open>The functions of the reconcilers\<close>

lemmas journal_parts = journal_sel journal_api_sel journal_names parents_accepted_journal Let_def
  UpdateResource_def CreateResource_def DeleteResource_def GetResource_def

lemma mirrors_client [mirror]:
  "mirrors (ReconcileResource (journal_api s A) d f) (ReconcileResource A d f)"
  "mirrors (FetchValidHTTPRoute (journal c) k) (FetchValidHTTPRoute c k)"
  "mirrors (FetchValidGateway (journal c) k) (FetchValidGateway c k)"
  "mirrors (update_target (journal c) obj) (update_target c obj)"
  unfolding ReconcileResource_def FetchValidHTTPRoute_def FetchValidGateway_def update_target_def journal_parts
  by (intro mirror)+

lemma mirrors_targets [mirror]:
  "mirrors (FetchValidTargetRef (journal c) t ns) (FetchValidTargetRef c t ns)"
  "mirrors (TargetedGatewayKeys (journal c) t ns) (TargetedGatewayKeys c t ns)"
  unfolding FetchValidTargetRef_def TargetedGatewayKeys_def journal_parts
  by (intro mirror)+

lemma mirrors_back_references [mirror]:
  "mirrors (TargetHostnames (journal c) t ns) (TargetHostnames c t ns)"
  "mirrors (ReconcileTargetBackReference (journal c) pk t ns ann) (ReconcileTargetBackReference c pk t ns ann)"
  "mirrors (DeleteTargetBackReference (journal c) pk t ns ann) (DeleteTargetBackReference c pk t ns ann)"
  unfolding TargetHostnames_def ReconcileTargetBackReference_def DeleteTargetBackReference_def target_kind_text_def
    journal_parts
  by (intro mirror)+

lemma mirrors_load_policies [mirror]: "mirrors (load_policies (journal c) msg refs) (load_policies c msg refs)"
  unfolding load_policies_def load_step_def journal_parts by (intro mirror)

lemma mirrors_objects [mirror]:
  "mirrors (replace_gateway (journal c) gw refs idx) (replace_gateway c gw refs idx)"
  "mirrors (gatewayRateLimitingClusterEnvoyFilter (journal c) gw refs) (gatewayRateLimitingClusterEnvoyFilter c gw refs)"
  "mirrors (gatewayWASMPlugin (journal c) gw refs) (gatewayWASMPlugin c gw refs)"
  "mirrors (update_if_changed (journal c) gw res) (update_if_changed c gw res)"
  unfolding replace_gateway_def gatewayLimits_def gatewayRateLimitingClusterEnvoyFilter_def gatewayWASMPlugin_def
    wasmPluginConfig_def update_if_changed_def journal_parts
  by (intro mirror)+

lemma mirrors_rlp_steps [mirror]:
  "mirrors (reconcileLimits (journal c) rlp diff) (reconcileLimits c rlp diff)"
  "mirrors (reconcileRateLimitingClusterEnvoyFilter (journal c) rlp diff) (reconcileRateLimitingClusterEnvoyFilter c rlp diff)"
  "mirrors (reconcileWASMPluginConf (journal c) rlp diff) (reconcileWASMPluginConf c rlp diff)"
  "mirrors (reconcileGatewayRLPReferences (journal c) rlp diff) (reconcileGatewayRLPReferences c rlp diff)"
  "mirrors (computeGatewayDiffs (journal c) rlp) (computeGatewayDiffs c rlp)"
  "mirrors (computeFinalizeGatewayDiff (journal c) rlp) (computeFinalizeGatewayDiff c rlp)"
  unfolding reconcileLimits_def reconcileRateLimitingClusterEnvoyFilter_def reconcile_filter_def
    reconcileWASMPluginConf_def reconcile_plugin_def reconcileGatewayRLPReferences_def computeGatewayDiffs_def
    computeFinalizeGatewayDiff_def journal_parts
  by (intro mirror)+

lemma mirrors_rlp [mirror]:
  "mirrors (reconcileSpec (journal c) rlp) (reconcileSpec c rlp)"
  "mirrors (rlp_reconcileStatus (journal c) rlp e) (rlp_reconcileStatus c rlp e)"
  "mirrors (finalizeRLP (journal c) rlp) (finalizeRLP c rlp)"
  unfolding reconcileSpec_def validateRuleHosts_def reconcileDirectBackReference_def reconcileGatewayDiffs_def
    rlp_reconcileStatus_def rlp_calculateStatus_def gatewaysRateLimits_def gateway_rate_limits_def
    finalizeRLP_def rlp_deleteNetworkResourceBackReference_def journal_parts
  by (intro mirror)+

lemma mirrors_rlp_Reconcile: "mirrors (rlp_Reconcile (journal c) req) (rlp_Reconcile c req)"
  unfolding rlp_Reconcile_def rlp_reconcile_live_def journal_parts by (intro mirror)

lemma mirrors_ap [mirror]:
  "mirrors (ap_reconcileSpec (journal c) ap) (ap_reconcileSpec c ap)"
  "mirrors (ap_reconcileStatus (journal c) ap e) (ap_reconcileStatus c ap e)"
  "mirrors (finalizeAP (journal c) ap) (finalizeAP c ap)"
  unfolding ap_reconcileSpec_def enforceHierarchicalConstraints_def reconcileNetworkResourceBackReference_def
    reconcileAuthRules_def to_rules_def unless_exists_def reconcileAuthSchemes_def ap_reconcileStatus_def
    ap_calculateStatus_def finalizeAP_def removeIstioAuthPolicy_def removeAuthSchemes_def
    ap_deleteNetworkResourceBackReference_def authorization_policy_object_def journal_parts
  by (intro mirror)+

lemma mirrors_ap_Reconcile: "mirrors (ap_Reconcile (journal c) req) (ap_Reconcile c req)"
  unfolding ap_Reconcile_def ap_reconcile_live_def journal_parts by (intro mirror)

section \<open>The order of the writes\<close>

text \<open>
  C6: The writes of a RateLimitPolicy reconciliation come in a fixed order, whatever the API server
  answers and whatever others write meanwhile. For a live policy: the finalizer if it is not there,
  the back reference of the target, the Limitador, the EnvoyFilters, the WasmPlugins, the references
  of the gateways; and at most one write of the status at the end. For a deleted policy with the
  finalizer: the references, the plugins, the filters, the Limitador, the back reference, and last
  the policy without its finalizer; for any other policy nothing. The writes stop at the first one
  that fails, and its error is the one Reconcile returns: when it returns none, every write before
  the status has succeeded. Excepted are only a policy that is gone when its finalizers are written
  and, in the clean-up, a Limitador that is gone.
\<close>

theorem rlp_writes_in_order:
  assumes "rlp_Reconcile c req w = (r, w')"
  shows "\<exists>calls. rlp_Reconcile (journal c) req (w, []) = (r, w', calls) \<and>
    reconcile_order Of_RLP is_RLP (\<lambda>fs. lib_ContainsFinalizer c fs rateLimitPolicyFinalizer)
      (\<lambda>fs. lib_AddFinalizer c fs rateLimitPolicyFinalizer) (\<lambda>fs. lib_RemoveFinalizer c fs rateLimitPolicyFinalizer)
      (\<lambda>_. False) (missing is_Limitador) rlp_spec_phases rlp_clean_up_phases
      (fst (api_Get (cl_RLPs c) req w)) r calls"
proof -
  obtain calls where run: "rlp_Reconcile (journal c) req (w, []) = (r, w', calls)"
    using mirrorsD[OF mirrors_rlp_Reconcile assms] by blast
  then show ?thesis using rlp_journal_order[OF run] by blast
qed

theorem rlp_writes_in_order_witness:
  "\<exists>w' calls. rlp_Reconcile (journal cluster_env) (ObjectKey ''default'' ''rlp'')
      (claimed_cluster\<lparr>cs_RLPs := [deleted_policy]\<rparr>, []) = (Inr result_ok, w', calls) \<and>
    follows (rlp_clean_up_phases @ [Once (writes_finalizers Of_RLP deleted_policy
      (\<lambda>fs. lib_RemoveFinalizer cluster_env fs rateLimitPolicyFinalizer))]) calls \<and>
    (\<forall>x \<in> set (butlast calls). fine (missing is_Limitador) x)"
proof -
  let ?w = "claimed_cluster\<lparr>cs_RLPs := [deleted_policy]\<rparr>"
  have get: "api_Get (cl_RLPs cluster_env) (ObjectKey ''default'' ''rlp'') ?w = (Inr deleted_policy, ?w)"
    by (simp add: go_eval deleted_policy_sel(3))
  obtain w' where "rlp_Reconcile cluster_env (ObjectKey ''default'' ''rlp'') ?w = (Inr result_ok, w')"
    using Reconcile_deleted_example by blast
  from rlp_writes_in_order[OF this] get deleted_policy_sel(4,5) show ?thesis
    by (auto simp: reconcile_order_def)
qed

text \<open>
  C7: The writes of an AuthPolicy reconciliation come in a fixed order too, whatever the API server
  answers and whatever others write meanwhile. For a live policy: the finalizer if it is not there,
  the back reference of the target, the AuthorizationPolicies, the AuthConfig, and at most one write
  of the status. For a deleted policy with the finalizer: the AuthorizationPolicies and the AuthConfig
  are deleted, the back reference is removed, and last the finalizer; for any other policy nothing.
  The writes stop at the first one that fails, and its error is the one Reconcile returns. Excepted
  are an AuthorizationPolicy or AuthConfig that another writer has created meanwhile, a policy that
  is gone when its finalizers are written and, in the clean-up, an AuthConfig that is gone; an
  AuthorizationPolicy that is gone is not excepted.
\<close>

theorem ap_writes_in_order:
  assumes "ap_Reconcile c req w = (r, w')"
  shows "\<exists>calls. ap_Reconcile (journal c) req (w, []) = (r, w', calls) \<and>
    reconcile_order Of_AP is_AP (\<lambda>fs. lib_ContainsFinalizer c fs authPolicyFinalizer)
      (\<lambda>fs. lib_AddFinalizer c fs authPolicyFinalizer) (\<lambda>fs. lib_RemoveFinalizer c fs authPolicyFinalizer)
      overtaken (missing is_AuthConfig) ap_spec_phases ap_clean_up_phases
      (fst (api_Get (cl_APs c) req w)) r calls"
proof -
  obtain calls where run: "ap_Reconcile (journal c) req (w, []) = (r, w', calls)"
    using mirrorsD[OF mirrors_ap_Reconcile assms] by blast
  then show ?thesis using ap_journal_order[OF run] by blast
qed

theorem ap_writes_in_order_witness:
  "\<exists>r w' calls. ap_Reconcile (journal cluster_env) (ObjectKey ''default'' ''ap'')
      (example_cluster\<lparr>cs_APs := [deleted_ap]\<rparr>, []) = (r, w', calls) \<and>
    follows (ap_clean_up_phases @ [Once (writes_finalizers Of_AP deleted_ap
      (\<lambda>fs. lib_RemoveFinalizer cluster_env fs authPolicyFinalizer))]) calls \<and>
    (\<forall>x \<in> set (butlast calls). fine (missing is_AuthConfig) x)"
proof -
  let ?w = "example_cluster\<lparr>cs_APs := [deleted_ap]\<rparr>"
  have get: "api_Get (cl_APs cluster_env) (ObjectKey ''default'' ''ap'') ?w = (Inr deleted_ap, ?w)"
    using store_Get_Some[OF cluster_store(2)[OF cluster_env_api], where w = ?w and k = "ObjectKey ''default'' ''ap''" and obj = deleted_ap]
    by (simp add: cluster_view_def list_view_def deleted_ap_sel)
  obtain r w' where "ap_Reconcile cluster_env (ObjectKey ''default'' ''ap'') ?w = (r, w')" by fastforce
  from ap_writes_in_order[OF this] get show ?thesis
    by (auto simp: reconcile_order_def deleted_ap_sel)
qed

end
