(* ===== verification/Permissions.thy ===== *)
theory Permissions
  imports Journal_Runs
begin

text \<open>
  What the controllers are allowed to do: the kubebuilder:rbac markers of both controllers, from
  which the role of the program (config/rbac/role.yaml) is generated, and that they cover every
  write a reconciliation asks for.
\<close>

section \<open>The markers\<close>

record rbac_rule =
  rb_groups :: string
  rb_resources :: string
  rb_verbs :: "string list"

definition all_verbs :: "string list" where
  "all_verbs = [''get'', ''list'', ''watch'', ''create'', ''update'', ''patch'', ''delete'']"

definition rlp_rbac :: "rbac_rule list" where
  "rlp_rbac =
    [\<lparr>rb_groups = ''apim.kuadrant.io'', rb_resources = ''ratelimitpolicies'', rb_verbs = all_verbs\<rparr>,
     \<lparr>rb_groups = ''apim.kuadrant.io'', rb_resources = ''ratelimitpolicies/status'',
      rb_verbs = [''get'', ''update'', ''patch'']\<rparr>,
     \<lparr>rb_groups = ''apim.kuadrant.io'', rb_resources = ''ratelimitpolicies/finalizers'', rb_verbs = [''update'']\<rparr>,
     \<lparr>rb_groups = ''limitador.kuadrant.io'', rb_resources = ''limitadors'', rb_verbs = all_verbs\<rparr>,
     \<lparr>rb_groups = ''networking.istio.io'', rb_resources = ''envoyfilters'', rb_verbs = all_verbs\<rparr>,
     \<lparr>rb_groups = ''extensions.istio.io'', rb_resources = ''wasmplugins'', rb_verbs = all_verbs\<rparr>,
     \<lparr>rb_groups = ''gateway.networking.k8s.io'', rb_resources = ''httproutes'',
      rb_verbs = [''get'', ''list'', ''watch'', ''update'', ''patch'']\<rparr>,
     \<lparr>rb_groups = ''gateway.networking.k8s.io'', rb_resources = ''gateways'',
      rb_verbs = [''get'', ''list'', ''watch'', ''update'', ''patch'']\<rparr>,
     \<lparr>rb_groups = '''', rb_resources = ''configmaps'',
      rb_verbs = [''create'', ''get'', ''list'', ''watch'', ''update'', ''patch'']\<rparr>]"

definition ap_rbac :: "rbac_rule list" where
  "ap_rbac =
    [\<lparr>rb_groups = ''apim.kuadrant.io'', rb_resources = ''authpolicies'', rb_verbs = all_verbs\<rparr>,
     \<lparr>rb_groups = ''apim.kuadrant.io'', rb_resources = ''authpolicies/finalizers'', rb_verbs = [''update'']\<rparr>,
     \<lparr>rb_groups = ''apim.kuadrant.io'', rb_resources = ''authpolicies/status'',
      rb_verbs = [''get'', ''update'', ''patch'']\<rparr>,
     \<lparr>rb_groups = ''security.istio.io'', rb_resources = ''authorizationpolicies'', rb_verbs = all_verbs\<rparr>,
     \<lparr>rb_groups = ''authorino.kuadrant.io'', rb_resources = ''authconfigs'', rb_verbs = all_verbs\<rparr>]"

section \<open>What the API server checks\<close>

text \<open>
  The group and the resource under which a kind of object is served, as they are documented for
  the kind, and the verb of a call. The status is a resource of its own.
\<close>

fun served_as :: "subject \<Rightarrow> string \<times> string" where
  "served_as (Of_RLP _) = (''apim.kuadrant.io'', ''ratelimitpolicies'')"
| "served_as (Of_AP _) = (''apim.kuadrant.io'', ''authpolicies'')"
| "served_as (Of_Gateway _) = (''gateway.networking.k8s.io'', ''gateways'')"
| "served_as (Of_HTTPRoute _) = (''gateway.networking.k8s.io'', ''httproutes'')"
| "served_as (Of_Limitador _) = (''limitador.kuadrant.io'', ''limitadors'')"
| "served_as (Of_WasmPlugin _) = (''extensions.istio.io'', ''wasmplugins'')"
| "served_as (Of_EnvoyFilter _) = (''networking.istio.io'', ''envoyfilters'')"
| "served_as (Of_AuthorizationPolicy _) = (''security.istio.io'', ''authorizationpolicies'')"
| "served_as (Of_AuthConfig _) = (''authorino.kuadrant.io'', ''authconfigs'')"

fun asked :: "verb \<Rightarrow> string \<times> string" where
  "asked Creates = (''create'', '''')"
| "asked Updates = (''update'', '''')"
| "asked Deletes = (''delete'', '''')"
| "asked UpdatesStatus = (''update'', ''/status'')"

definition permitted :: "rbac_rule list \<Rightarrow> call \<Rightarrow> bool" where
  "permitted rules x =
     (let (group, resource) = served_as (call_subject x); (verb, sub) = asked (call_verb x) in
      list_ex (\<lambda>rule. rb_groups rule = group \<and> rb_resources rule = resource @ sub \<and> verb \<in> set (rb_verbs rule)) rules)"

lemma permitted_append: "permitted (xs @ ys) x \<longleftrightarrow> permitted xs x \<or> permitted ys x"
  by (simp add: permitted_def split: prod.split)

section \<open>Every call of a journal\<close>

fun calls_of :: "phase \<Rightarrow> call \<Rightarrow> bool" where
  "calls_of (Once P) = P"
| "calls_of (Many P) = P"

lemma follows_calls: "follows ps xs \<Longrightarrow> x \<in> set xs \<Longrightarrow> \<exists>p \<in> set ps. calls_of p x"
  by (induction ps xs rule: follows.induct) auto

lemma then_status_calls:
  assumes "then_status tol ps K r calls" "x \<in> set calls"
  shows "updates_status K x \<or> (\<exists>p \<in> set ps. calls_of p x)"
proof -
  from assms(1) obtain before status where "calls = before @ status" "follows ps before"
    "follows [Once (updates_status K)] status"
    by (elim then_statusE) (rule that)
  with assms(2) show ?thesis by (auto dest: follows_calls)
qed

lemma reconcile_order_calls:
  assumes "reconcile_order s K has add rem t1 t2 sps cps got r calls" "x \<in> set calls" "\<And>p. K (s p)"
  shows "updates_status K x \<or> updates K x \<or> (\<exists>p \<in> set sps \<union> set cps. calls_of p x)"
proof -
  have own: "writes_finalizers s p f x \<Longrightarrow> updates K x" for p f
    using assms(3) by (auto simp: writes_finalizers_def updates_def)
  from assms(1,2) show ?thesis
    by (fastforce simp: reconcile_order_def split: sum.splits if_splits dest: then_status_calls follows_calls own)
qed

lemmas call_kinds = updates_status_def updates_def reconciles_def deletes_def is_target_def

lemma rlp_call_kinds:
  assumes "rlp_Reconcile (journal c) req (w, []) = (r, w', calls)" "x \<in> set calls"
  shows "updates_status is_RLP x \<or> updates is_RLP x \<or> updates is_target x \<or> updates is_Limitador x \<or>
    reconciles is_EnvoyFilter x \<or> reconciles is_WasmPlugin x"
proof -
  have "updates_status is_RLP x \<or> updates is_RLP x \<or>
      (\<exists>p \<in> set rlp_spec_phases \<union> set rlp_clean_up_phases. calls_of p x)"
    by (rule reconcile_order_calls[OF rlp_journal_order[OF assms(1)] assms(2)]) simp
  then show ?thesis
    by (auto simp: rlp_spec_phases_def rlp_clean_up_phases_def updates_def is_target_def)
qed

lemma ap_call_kinds:
  assumes "ap_Reconcile (journal c) req (w, []) = (r, w', calls)" "x \<in> set calls"
  shows "updates_status is_AP x \<or> updates is_AP x \<or> updates is_target x \<or>
    reconciles is_AuthorizationPolicy x \<or> reconciles is_AuthConfig x"
proof -
  have "updates_status is_AP x \<or> updates is_AP x \<or>
      (\<exists>p \<in> set ap_spec_phases \<union> set ap_clean_up_phases. calls_of p x)"
    by (rule reconcile_order_calls[OF ap_journal_order[OF assms(1)] assms(2)]) simp
  then show ?thesis
    by (auto simp: ap_spec_phases_def ap_clean_up_phases_def reconciles_def deletes_def)
qed

lemma rlp_rbac_covers:
  "updates_status is_RLP x \<or> updates is_RLP x \<or> updates is_target x \<or> updates is_Limitador x \<or>
   reconciles is_EnvoyFilter x \<or> reconciles is_WasmPlugin x \<Longrightarrow> permitted rlp_rbac x"
  by (cases "call_subject x"; cases "call_verb x") (auto simp: call_kinds permitted_def rlp_rbac_def all_verbs_def)

lemma ap_rbac_covers:
  "updates_status is_AP x \<or> updates is_AP x \<or> reconciles is_AuthorizationPolicy x \<or> reconciles is_AuthConfig x \<Longrightarrow>
   permitted ap_rbac x"
  by (cases "call_subject x"; cases "call_verb x") (auto simp: call_kinds permitted_def ap_rbac_def all_verbs_def)

lemma ap_rbac_not_targets: "is_target (call_subject x) \<Longrightarrow> \<not> permitted ap_rbac x"
  by (cases "call_subject x"; cases "call_verb x") (auto simp: is_target_def permitted_def ap_rbac_def)

section \<open>The property\<close>

text \<open>
  C39: The program is allowed what it does. On any API server, and whatever others write meanwhile,
  every write of a RateLimitPolicy reconciliation is permitted by the markers of its controller;
  it creates and deletes nothing but EnvoyFilters and WasmPlugins. Every write of an AuthPolicy
  reconciliation is permitted by the markers of both controllers together, which make up the role of
  the program, and it creates and deletes nothing but AuthorizationPolicies and AuthConfigs; the
  markers of its own controller permit all its writes but those of the target, routes and gateways,
  which rest on the markers of the other controller.
\<close>

theorem writes_permitted:
  assumes "rlp_Reconcile (journal c) req1 (w1, []) = (r1, w1', calls1)"
    and "ap_Reconcile (journal c) req2 (w2, []) = (r2, w2', calls2)"
  shows "(\<forall>x \<in> set calls1. permitted rlp_rbac x \<and>
      (call_verb x \<in> {Creates, Deletes} \<longrightarrow> is_EnvoyFilter (call_subject x) \<or> is_WasmPlugin (call_subject x))) \<and>
    (\<forall>x \<in> set calls2. permitted (ap_rbac @ rlp_rbac) x \<and>
      (permitted ap_rbac x \<longleftrightarrow> \<not> is_target (call_subject x)) \<and>
      (call_verb x \<in> {Creates, Deletes} \<longrightarrow> is_AuthorizationPolicy (call_subject x) \<or> is_AuthConfig (call_subject x)))"
proof (intro conjI ballI)
  fix x assume "x \<in> set calls1"
  from rlp_call_kinds[OF assms(1) this]
  show "permitted rlp_rbac x"
    and "call_verb x \<in> {Creates, Deletes} \<longrightarrow> is_EnvoyFilter (call_subject x) \<or> is_WasmPlugin (call_subject x)"
    by (auto simp: call_kinds intro: rlp_rbac_covers)
next
  fix x assume "x \<in> set calls2"
  note kinds = ap_call_kinds[OF assms(2) this]
  then show "call_verb x \<in> {Creates, Deletes} \<longrightarrow> is_AuthorizationPolicy (call_subject x) \<or> is_AuthConfig (call_subject x)"
    by (auto simp: call_kinds)
  from kinds ap_rbac_covers[of x] rlp_rbac_covers[of x] show "permitted (ap_rbac @ rlp_rbac) x"
    unfolding permitted_append by blast
  from kinds ap_rbac_covers[of x] ap_rbac_not_targets[of x]
  show "permitted ap_rbac x \<longleftrightarrow> \<not> is_target (call_subject x)" by (auto simp: updates_def)
qed

text \<open>A deletion that is let go has been written down.\<close>

lemma deletion_journaled:
  assumes "reconcile_run (journal_api s A) has add rem clean live req (w, []) = (Inr result_ok, w', calls)"
    and "api_Get A req w = (Inr p, w1)" "obj_DeletionTimestamp p \<noteq> None" "has (obj_Finalizers p)"
  shows "calls \<noteq> []"
  using assms
  by (auto simp: reconcile_run_def bindE_def attempt_def unlogged_def logged_def UpdateResource_def result_error_def
      result_ok_def split: prod.splits sum.splits if_splits)

text \<open>On the cluster of the examples: a deleted RateLimitPolicy and a deleted AuthPolicy are cleaned up.\<close>

theorem writes_permitted_witness:
  "\<exists>w1 calls1 r2 w2 calls2.
    rlp_Reconcile (journal cluster_env) (ObjectKey ''default'' ''rlp'')
      (claimed_cluster\<lparr>cs_RLPs := [deleted_policy]\<rparr>, []) = (Inr result_ok, w1, calls1) \<and> calls1 \<noteq> [] \<and>
    ap_Reconcile (journal cluster_env) (ObjectKey ''default'' ''ap'')
      (example_cluster\<lparr>cs_APs := [deleted_ap]\<rparr>, []) = (r2, w2, calls2) \<and>
    (\<forall>x \<in> set calls1. permitted rlp_rbac x) \<and> (\<forall>x \<in> set calls2. permitted (ap_rbac @ rlp_rbac) x)"
proof -
  let ?w = "claimed_cluster\<lparr>cs_RLPs := [deleted_policy]\<rparr>"
  obtain w1 where "rlp_Reconcile cluster_env (ObjectKey ''default'' ''rlp'') ?w = (Inr result_ok, w1)"
    using Reconcile_deleted_example by blast
  from mirrorsD[OF mirrors_rlp_Reconcile this] obtain calls1 where
    run1: "rlp_Reconcile (journal cluster_env) (ObjectKey ''default'' ''rlp'') (?w, []) = (Inr result_ok, w1, calls1)"
    by blast
  have get: "api_Get (cl_RLPs cluster_env) (ObjectKey ''default'' ''rlp'') ?w = (Inr deleted_policy, ?w)"
    by (simp add: go_eval deleted_policy_sel(3))
  have "calls1 \<noteq> []"
    using run1 deletion_journaled[OF _ get] deleted_policy_sel(4,5) unfolding rlp_Reconcile_is_run journal_sel by blast
  moreover obtain r2 w2 calls2 where run2: "ap_Reconcile (journal cluster_env) (ObjectKey ''default'' ''ap'')
      (example_cluster\<lparr>cs_APs := [deleted_ap]\<rparr>, []) = (r2, w2, calls2)"
    by (meson prod_cases3)
  ultimately show ?thesis using run1 writes_permitted[OF run1 run2] by blast
qed

end
