(* ===== verification/Log_Options.thy ===== *)
theory Log_Options
  imports Common "HOL-Library.Word"
begin

text \<open>
  pkg/log/log.go and the logger of main.go: the level and the mode are read from the environment when
  the program starts, and a text that is neither a level nor a mode is a panic. The logger itself
  and the parser of levels are zap's, the parameters \<open>zap\<close> and \<open>UnmarshalText\<close>.
\<close>

text \<open>\<open>type Level zapcore.Level\<close>, which is an int8.\<close>

type_synonym Level = "8 word"

datatype Mode = ModeProd | ModeDev

text \<open>The writer is an interface that may be nil.\<close>

record 'o log_options =
  LogLevel :: Level
  LogMode :: Mode
  DestWriter :: "'o option"

definition ToLevel :: "(string \<Rightarrow> go_error + Level) \<Rightarrow> string \<Rightarrow> go_error + Level" where
  "ToLevel UnmarshalText level =
     (case UnmarshalText level of
        Inl err \<Rightarrow> Inl (Panic (error_text err))
      | Inr l \<Rightarrow> Inr l)"

text \<open>strings.ToLower of a text in ASCII; other letters are left as they are.\<close>

definition lower_char :: "char \<Rightarrow> char" where
  "lower_char c = (if CHR ''A'' \<le> c \<and> c \<le> CHR ''Z'' then char_of (of_char c + 32 :: nat) else c)"

definition ToLower :: "string \<Rightarrow> string" where
  "ToLower s = map lower_char s"

definition ToMode :: "string \<Rightarrow> go_error + Mode" where
  "ToMode mode =
     (let m = ToLower mode in
      if m = ''production'' then Inr ModeProd
      else if m = ''development'' then Inr ModeDev
      else Inl (Panic (sprintf ''unknown log mode: %s'' [mode])))"

section \<open>The options of a logger\<close>

type_synonym 'o Opts = "'o log_options \<Rightarrow> 'o log_options"

definition WriteTo :: "'o option \<Rightarrow> 'o Opts" where
  "WriteTo out = (\<lambda>opt. opt\<lparr>DestWriter := out\<rparr>)"

definition SetLevel :: "Level \<Rightarrow> 'o Opts" where
  "SetLevel level = (\<lambda>opt. opt\<lparr>LogLevel := level\<rparr>)"

definition SetMode :: "Mode \<Rightarrow> 'o Opts" where
  "SetMode mode = (\<lambda>opt. opt\<lparr>LogMode := mode\<rparr>)"

definition NewLogger :: "'o \<Rightarrow> (Level \<Rightarrow> bool \<Rightarrow> 'o \<Rightarrow> 'l) \<Rightarrow> 'o Opts list \<Rightarrow> 'l" where
  "NewLogger stderr zap opts =
     (let opt = foldl (\<lambda>opt f. f opt) \<lparr>LogLevel = 0, LogMode = ModeProd, DestWriter = None\<rparr> opts;
          out = (case DestWriter opt of None \<Rightarrow> stderr | Some out \<Rightarrow> out)
      in zap (LogLevel opt) (LogMode opt = ModeDev) out)"

text \<open>The variables logLevel and logMode and the start of init in main.go.\<close>

definition main_logger ::
    "(string \<rightharpoonup> string) \<Rightarrow> (string \<Rightarrow> go_error + Level) \<Rightarrow> (Level \<Rightarrow> bool \<Rightarrow> 'o \<Rightarrow> 'l) \<Rightarrow> 'o \<Rightarrow> 'o \<Rightarrow> go_error + 'l" where
  "main_logger env UnmarshalText zap stderr stdout =
     (let logLevel = FetchEnv env ''LOG_LEVEL'' ''info'';
          logMode = FetchEnv env ''LOG_MODE'' ''production''
      in case ToLevel UnmarshalText logLevel of
           Inl panic \<Rightarrow> Inl panic
         | Inr level \<Rightarrow>
             case ToMode logMode of
               Inl panic \<Rightarrow> Inl panic
             | Inr mode \<Rightarrow> Inr (NewLogger stderr zap [SetLevel level, SetMode mode, WriteTo (Some stdout)]))"

section \<open>Properties\<close>

lemma NewLogger_last:
  "NewLogger stderr zap (opts @ [SetLevel l, SetMode m, WriteTo (Some out)]) = zap l (m = ModeDev) out"
  by (simp add: NewLogger_def SetLevel_def SetMode_def WriteTo_def Let_def)

lemma ToMode_cases:
  "ToMode mode = Inr ModeProd \<longleftrightarrow> ToLower mode = ''production''"
  "ToMode mode = Inr ModeDev \<longleftrightarrow> ToLower mode = ''development''"
  "(\<exists>msg. ToMode mode = Inl (Panic msg)) \<longleftrightarrow> ToLower mode \<notin> {''production'', ''development''}"
  by (auto simp: ToMode_def Let_def)

lemma ToLower_idem: "ToLower (ToLower s) = ToLower s"
proof -
  have "lower_char (lower_char c) = lower_char c" for c
  proof (cases "CHR ''A'' \<le> c \<and> c \<le> CHR ''Z''")
    case True
    then have "65 \<le> (of_char c :: nat)" "(of_char c :: nat) \<le> 90" by (simp_all add: less_eq_char_def)
    then have "\<not> char_of (of_char c + 32 :: nat) \<le> CHR ''Z''" by (simp add: less_eq_char_def)
    with True show ?thesis by (simp add: lower_char_def)
  qed (auto simp: lower_char_def)
  then show ?thesis by (simp add: ToLower_def)
qed

text \<open>
  The program starts with the logger its environment asks for, or it panics: with no variable set,
  a production logger at the level info, on the standard output whatever the default of the package.
\<close>

theorem main_logger_correct:
  "(main_logger env UnmarshalText zap stderr stdout = Inr lg \<longleftrightarrow>
      (\<exists>l. UnmarshalText (FetchEnv env ''LOG_LEVEL'' ''info'') = Inr l \<and>
         ToLower (FetchEnv env ''LOG_MODE'' ''production'') \<in> {''production'', ''development''} \<and>
         lg = zap l (ToLower (FetchEnv env ''LOG_MODE'' ''production'') = ''development'') stdout)) \<and>
   (main_logger env UnmarshalText zap stderr stdout = Inl e \<longrightarrow> is_panic e)"
proof -
  have new: "NewLogger stderr zap [SetLevel l, SetMode m, WriteTo (Some stdout)] = zap l (m = ModeDev) stdout" for l m
    using NewLogger_last[of stderr zap "[]"] by simp
  show ?thesis
    by (auto simp: main_logger_def ToLevel_def ToMode_def new Let_def split: sum.splits if_splits)
qed

lemma main_logger_example:
  "main_logger [''LOG_MODE'' \<mapsto> ''Development''] (\<lambda>_. Inr 0) (\<lambda>l dev out. (l, dev, out)) ''stderr'' ''stdout''
     = Inr (0, True, ''stdout'')"
proof -
  have "ToLower ''Development'' = ''development''" by code_simp
  then show ?thesis
    using main_logger_correct[of "[''LOG_MODE'' \<mapsto> ''Development'']" "\<lambda>_. Inr 0" "\<lambda>l dev out. (l, dev, out)"
        "''stderr''" "''stdout''" "(0, True, ''stdout'')"]
    by (simp add: FetchEnv_def)
qed

end
