(* ===== verification/Program.thy ===== *)
theory Program
  imports Event_Mappers Log_Options
begin

text \<open>
  The program entry: main.go (init and main), SetLogger of pkg/log/log.go, SetupWithManager of both
  controllers and NewBaseReconciler. The manager, the builder of controllers, the scheme, the
  configuration and the logger are values of controller-runtime and its libraries: the record
  \<open>runtime_api\<close> holds the calls main makes on them. A process ends with a status, or with a panic.
  What is logged on the way is left out.
\<close>

section \<open>Package variables and init\<close>

text \<open>The scheme of main.go, Log of pkg/log, and the loggers SetLogger hands over to libraries.\<close>

record ('s, 'l) globals =
  g_scheme :: 's
  log_Log :: 'l
  ctrl_Log :: 'l
  klog_Log :: 'l

definition SetLogger :: "'l \<Rightarrow> ('s, 'l) globals \<Rightarrow> ('s, 'l) globals" where
  "SetLogger logger g = g\<lparr>log_Log := logger, ctrl_Log := logger, klog_Log := logger\<rparr>"

datatype api_group = ClientGo | CoreV1 | ApimV1alpha1 | IstioNetworking | IstioSecurity
  | LimitadorV1alpha1 | GatewayV1alpha2 | IstioExtensions | AuthorinoV1beta1

definition api_groups :: "api_group list" where
  "api_groups = [ClientGo, CoreV1, ApimV1alpha1, IstioNetworking, IstioSecurity, LimitadorV1alpha1,
     GatewayV1alpha2, IstioExtensions, AuthorinoV1beta1]"

text \<open>utilruntime.Must of each AddToScheme: an error is a panic.\<close>

fun add_to_scheme :: "(api_group \<Rightarrow> 's \<Rightarrow> go_error + 's) \<Rightarrow> api_group list \<Rightarrow> 's \<Rightarrow> go_error + 's" where
  "add_to_scheme add [] s = Inr s"
| "add_to_scheme add (g # gs) s =
     (case add g s of
        Inl err \<Rightarrow> Inl (Panic (error_text err))
      | Inr s' \<Rightarrow> add_to_scheme add gs s')"

definition program_init ::
    "(api_group \<Rightarrow> 's \<Rightarrow> go_error + 's) \<Rightarrow> ('l \<Rightarrow> string \<Rightarrow> 'l) \<Rightarrow> go_error + 'l \<Rightarrow>
     ('s, 'l) globals \<Rightarrow> go_error + ('s, 'l) globals" where
  "program_init add WithName newLogger g =
     (case add_to_scheme add api_groups (g_scheme g) of
        Inl panic \<Rightarrow> Inl panic
      | Inr scheme \<Rightarrow>
          (case newLogger of
             Inl panic \<Rightarrow> Inl panic
           | Inr lg \<Rightarrow> Inr (SetLogger (WithName lg ''kuadrant-controller'') (g\<lparr>g_scheme := scheme\<rparr>))))"

section \<open>The controllers\<close>

datatype object_kind = KindRateLimitPolicy | KindAuthPolicy | KindHTTPRoute | KindGateway

datatype event_mapper =
    HTTPRoute_MapToRateLimitPolicy
  | HTTPRoute_MapToAuthPolicy
  | Gateway_MapToRLP
  | GatewayRLP_MapRouteRLP

text \<open>What NewControllerManagedBy, For and Watches collect.\<close>

record controller_builder =
  cb_For :: object_kind
  cb_Watches :: "(object_kind \<times> event_mapper) list"

record ('c, 's, 'r, 'l, 'e) BaseReconciler =
  br_client :: 'c
  br_scheme :: 's
  br_apiClientReader :: 'r
  br_logger :: 'l
  br_recorder :: 'e

definition NewBaseReconciler ::
    "'c \<Rightarrow> 's \<Rightarrow> 'r \<Rightarrow> 'l \<Rightarrow> 'e \<Rightarrow> ('c, 's, 'r, 'l, 'e) BaseReconciler" where
  "NewBaseReconciler client scheme apiClientReader logger recorder =
     \<lparr>br_client = client, br_scheme = scheme, br_apiClientReader = apiClientReader,
      br_logger = logger, br_recorder = recorder\<rparr>"

text \<open>A controller as Complete gets it: the builder says which of the two reconcilers it is for.\<close>

record ('w, 'm, 'o, 'k, 'c, 's, 'r, 'l, 'e) runtime_api =
  ctrl_Options :: "'s \<Rightarrow> 'o"
  ctrl_AndFrom :: "'o \<Rightarrow> string \<Rightarrow> ('w, 'o) io"
  ctrl_GetConfig :: "('w, 'k) io"
  ctrl_NewManager :: "'k \<Rightarrow> 'o \<Rightarrow> ('w, 'm) io"
  mgr_GetClient :: "'m \<Rightarrow> 'c"
  mgr_GetScheme :: "'m \<Rightarrow> 's"
  mgr_GetAPIReader :: "'m \<Rightarrow> 'r"
  mgr_GetEventRecorderFor :: "'m \<Rightarrow> string \<Rightarrow> 'e"
  bld_Complete :: "'m \<Rightarrow> controller_builder \<Rightarrow> ('c, 's, 'r, 'l, 'e) BaseReconciler \<Rightarrow> ('w, unit) io"
  mgr_AddHealthzCheck :: "'m \<Rightarrow> string \<Rightarrow> ('w, unit) io"
  mgr_AddReadyzCheck :: "'m \<Rightarrow> string \<Rightarrow> ('w, unit) io"
  mgr_Start :: "'m \<Rightarrow> ('w, unit) io"
  logr_WithName :: "'l \<Rightarrow> string \<Rightarrow> 'l"

definition rlp_builder :: controller_builder where
  "rlp_builder = \<lparr>cb_For = KindRateLimitPolicy,
     cb_Watches = [(KindHTTPRoute, HTTPRoute_MapToRateLimitPolicy), (KindGateway, Gateway_MapToRLP),
       (KindRateLimitPolicy, GatewayRLP_MapRouteRLP)]\<rparr>"

definition ap_builder :: controller_builder where
  "ap_builder = \<lparr>cb_For = KindAuthPolicy,
     cb_Watches = [(KindHTTPRoute, HTTPRoute_MapToAuthPolicy), (KindGateway, HTTPRoute_MapToAuthPolicy)]\<rparr>"

definition rlp_SetupWithManager ::
    "('w, 'm, 'o, 'k, 'c, 's, 'r, 'l, 'e) runtime_api \<Rightarrow> ('c, 's, 'r, 'l, 'e) BaseReconciler \<Rightarrow> 'm \<Rightarrow> ('w, unit) io" where
  "rlp_SetupWithManager rt r mgr = bld_Complete rt mgr rlp_builder r"

definition ap_SetupWithManager ::
    "('w, 'm, 'o, 'k, 'c, 's, 'r, 'l, 'e) runtime_api \<Rightarrow> ('c, 's, 'r, 'l, 'e) BaseReconciler \<Rightarrow> 'm \<Rightarrow> ('w, unit) io" where
  "ap_SetupWithManager rt r mgr = bld_Complete rt mgr ap_builder r"

section \<open>main\<close>

text \<open>\<open>if err := m; err != nil { os.Exit(1) }\<close>: the status instead of the rest.\<close>

definition exit_on_error :: "('w, 'a) io \<Rightarrow> ('a \<Rightarrow> ('w, nat) io) \<Rightarrow> ('w, nat) io" where
  "exit_on_error m rest =
     bindE (attempt m) (\<lambda>got. case got of Inl err \<Rightarrow> retE 1 | Inr x \<Rightarrow> rest x)"

text \<open>
  \<open>configFile\<close> is the flag as parsed. GetConfigOrDie exits with status 1 where GetConfig fails.
\<close>

definition main :: "('w, 'm, 'o, 'k, 'c, 's, 'r, 'l, 'e) runtime_api \<Rightarrow> ('s, 'l) globals \<Rightarrow> string \<Rightarrow> ('w, nat) io" where
  "main rt g configFile =
     (let options = ctrl_Options rt (g_scheme g) in
      exit_on_error (if configFile \<noteq> '''' then ctrl_AndFrom rt options configFile else retE options) (\<lambda>options.
      exit_on_error (ctrl_GetConfig rt) (\<lambda>config.
      exit_on_error (ctrl_NewManager rt config options) (\<lambda>mgr.
      let rateLimitPolicyBaseReconciler = NewBaseReconciler (mgr_GetClient rt mgr) (mgr_GetScheme rt mgr)
            (mgr_GetAPIReader rt mgr) (logr_WithName rt (log_Log g) ''ratelimitpolicy'')
            (mgr_GetEventRecorderFor rt mgr ''RateLimitPolicy'')
      in
      exit_on_error (rlp_SetupWithManager rt rateLimitPolicyBaseReconciler mgr) (\<lambda>_.
      let authPolicyBaseReconciler = NewBaseReconciler (mgr_GetClient rt mgr) (mgr_GetScheme rt mgr)
            (mgr_GetAPIReader rt mgr) (logr_WithName rt (log_Log g) ''authpolicy'')
            (mgr_GetEventRecorderFor rt mgr ''AuthPolicy'')
      in
      exit_on_error (ap_SetupWithManager rt authPolicyBaseReconciler mgr) (\<lambda>_.
      exit_on_error (mgr_AddHealthzCheck rt mgr ''healthz'') (\<lambda>_.
      exit_on_error (mgr_AddReadyzCheck rt mgr ''readyz'') (\<lambda>_.
      exit_on_error (mgr_Start rt mgr) (\<lambda>_. retE 0)))))))))"

section \<open>What the controllers are woken up by\<close>

definition kind_of_object :: "client_object \<Rightarrow> object_kind" where
  "kind_of_object obj =
     (case obj of
        ObjHTTPRoute _ \<Rightarrow> KindHTTPRoute | ObjGateway _ \<Rightarrow> KindGateway
      | ObjRateLimitPolicy _ \<Rightarrow> KindRateLimitPolicy | ObjAuthPolicy _ \<Rightarrow> KindAuthPolicy)"

definition key_of_object :: "client_object \<Rightarrow> object_key" where
  "key_of_object obj =
     (case obj of
        ObjHTTPRoute x \<Rightarrow> ObjectKeyFromObject x | ObjGateway x \<Rightarrow> ObjectKeyFromObject x
      | ObjRateLimitPolicy x \<Rightarrow> ObjectKeyFromObject x | ObjAuthPolicy x \<Rightarrow> ObjectKeyFromObject x)"

text \<open>HTTPRouteEventMapper reads the annotations of any object.\<close>

definition map_event :: "'w env \<Rightarrow> event_mapper \<Rightarrow> client_object \<Rightarrow> ('w, object_key list) io" where
  "map_event c mapper obj =
     (case mapper of
        HTTPRoute_MapToRateLimitPolicy \<Rightarrow> retE (case obj of
            ObjHTTPRoute x \<Rightarrow> MapToRateLimitPolicy x | ObjGateway x \<Rightarrow> MapToRateLimitPolicy x
          | ObjRateLimitPolicy x \<Rightarrow> MapToRateLimitPolicy x | ObjAuthPolicy x \<Rightarrow> MapToRateLimitPolicy x)
      | HTTPRoute_MapToAuthPolicy \<Rightarrow> retE (case obj of
            ObjHTTPRoute x \<Rightarrow> MapToAuthPolicy x | ObjGateway x \<Rightarrow> MapToAuthPolicy x
          | ObjRateLimitPolicy x \<Rightarrow> MapToAuthPolicy x | ObjAuthPolicy x \<Rightarrow> MapToAuthPolicy x)
      | Gateway_MapToRLP \<Rightarrow> retE (Gateway_MapToRateLimitPolicy (lib_Json c) obj)
      | GatewayRLP_MapRouteRLP \<Rightarrow> MapRouteRateLimitPolicy c obj)"

text \<open>
  What controller-runtime documents: an event of an object queues its key where the controller is
  for its kind, and the requests of every mapper that watches the kind.
\<close>

definition enqueued :: "'w env \<Rightarrow> controller_builder \<Rightarrow> client_object \<Rightarrow> ('w, object_key list) io" where
  "enqueued c b obj =
     bindE (mapE (\<lambda>(_, mapper). map_event c mapper obj)
         (filter (\<lambda>(kind, _). kind = kind_of_object obj) (cb_Watches b))) (\<lambda>requests.
       retE ((if cb_For b = kind_of_object obj then [key_of_object obj] else []) @ concat requests))"

section \<open>Properties\<close>

text \<open>
  The controllers main registers are woken up as \<open>rlp_watches\<close> and \<open>ap_watches\<close> say: for
  every object, the builder of each controller gives the requests they do.
\<close>

theorem watches_as_built:
  "enqueued c rlp_builder obj = rlp_watches c obj \<and>
   enqueued c ap_builder obj = retE (ap_watches obj)"
proof (cases obj)
  case (ObjRateLimitPolicy rlp)
  then show ?thesis
    by (auto simp: fun_eq_iff enqueued_def rlp_builder_def ap_builder_def rlp_watches_def ap_watches_def kind_of_object_def
        key_of_object_def map_event_def bindE_def split: prod.splits sum.splits)
qed (simp_all add: fun_eq_iff enqueued_def rlp_builder_def ap_builder_def rlp_watches_def ap_watches_def
    kind_of_object_def key_of_object_def map_event_def)

lemma exit_on_error_bind:
  "exit_on_error (bindE m f) rest = exit_on_error m (\<lambda>x. exit_on_error (f x) rest)"
  by (rule ext) (auto simp: exit_on_error_def bindE_def attempt_def split: prod.splits sum.splits)

lemma exit_on_error_ret: "exit_on_error (retE x) rest = rest x"
  by (rule ext) (simp add: exit_on_error_def)

lemma exit_on_error_status:
  assumes "\<And>x w. fst (rest x w) \<in> Inl ` {e. is_panic e} \<union> {Inr 0, Inr 1}"
  shows "fst (exit_on_error m rest w) \<in> Inl ` {e. is_panic e} \<union> {Inr 0, Inr 1}"
proof (cases "m w")
  case (Pair r w1)
  show ?thesis
  proof (cases r)
    case (Inl e)
    with Pair show ?thesis by (cases "is_panic e") (simp_all add: exit_on_error_def bindE_def attempt_def)
  next
    case (Inr x)
    with Pair assms show ?thesis by (simp add: exit_on_error_def bindE_def attempt_def)
  qed
qed

lemma exit_on_error_zero:
  "exit_on_error m rest w = (Inr 0, w') \<longleftrightarrow> (\<exists>x w1. m w = (Inr x, w1) \<and> rest x w1 = (Inr 0, w'))"
  by (cases "m w"; cases "fst (m w)"; cases "is_panic (projl (fst (m w)))")
    (auto simp: exit_on_error_def bindE_def attempt_def split: if_splits)

text \<open>The set-up without the exits: a failure is an error, success gives the manager.\<close>

definition set_up :: "('w, 'm, 'o, 'k, 'c, 's, 'r, 'l, 'e) runtime_api \<Rightarrow> ('s, 'l) globals \<Rightarrow> string \<Rightarrow> ('w, 'm) io" where
  "set_up rt g configFile =
     bindE (if configFile = '''' then retE (ctrl_Options rt (g_scheme g))
            else ctrl_AndFrom rt (ctrl_Options rt (g_scheme g)) configFile) (\<lambda>options.
     bindE (ctrl_GetConfig rt) (\<lambda>config.
     bindE (ctrl_NewManager rt config options) (\<lambda>mgr.
     let base = (\<lambda>name kind. \<lparr>br_client = mgr_GetClient rt mgr, br_scheme = mgr_GetScheme rt mgr,
           br_apiClientReader = mgr_GetAPIReader rt mgr, br_logger = logr_WithName rt (log_Log g) name,
           br_recorder = mgr_GetEventRecorderFor rt mgr kind\<rparr>)
     in bindE (forE (\<lambda>step. step)
          [bld_Complete rt mgr rlp_builder (base ''ratelimitpolicy'' ''RateLimitPolicy''),
           bld_Complete rt mgr ap_builder (base ''authpolicy'' ''AuthPolicy''),
           mgr_AddHealthzCheck rt mgr ''healthz'', mgr_AddReadyzCheck rt mgr ''readyz''])
        (\<lambda>_. retE mgr))))"

lemma main_set_up:
  "main rt g configFile =
     exit_on_error (set_up rt g configFile) (\<lambda>mgr. exit_on_error (mgr_Start rt mgr) (\<lambda>_. retE 0))"
  unfolding main_def set_up_def rlp_SetupWithManager_def ap_SetupWithManager_def NewBaseReconciler_def Let_def
  by (simp add: exit_on_error_bind exit_on_error_ret if_distrib cong: if_cong)


text \<open>After init every logger is the one main asked for, and every group was added to the scheme.\<close>

lemma add_to_scheme_append:
  "add_to_scheme add (xs @ ys) s = (case add_to_scheme add xs s of Inl e \<Rightarrow> Inl e | Inr s' \<Rightarrow> add_to_scheme add ys s')"
  by (induction xs arbitrary: s) (auto split: sum.split)

lemma add_to_scheme_adds:
  assumes "add_to_scheme add gs s = Inr s'" "g \<in> set gs"
    and "\<And>g s s'. add g s = Inr s' \<Longrightarrow> insert g (known s) \<subseteq> known s'"
  shows "g \<in> known s'"
proof -
  have mono: "known s \<subseteq> known s'" if "add_to_scheme add gs s = Inr s'" for gs s s'
    using that
  proof (induction gs arbitrary: s)
    case (Cons g gs)
    then obtain s1 where "add g s = Inr s1" "add_to_scheme add gs s1 = Inr s'"
      by (auto split: sum.splits)
    with assms(3)[of g s s1] Cons.IH show ?case by blast
  qed simp
  from split_list[OF assms(2)] obtain xs ys where "gs = xs @ g # ys" by blast
  with assms(1) obtain s1 s2 where "add g s1 = Inr s2" "add_to_scheme add ys s2 = Inr s'"
    by (auto simp: add_to_scheme_append split: sum.splits)
  with mono assms(3)[of g s1 s2] show ?thesis by blast
qed

lemma program_init_done:
  assumes "program_init add WithName newLogger g = Inr g'"
    and "\<And>grp s s'. add grp s = Inr s' \<Longrightarrow> insert grp (known s) \<subseteq> known s'"
  shows "known (g_scheme g') = UNIV"
    and "\<exists>lg. newLogger = Inr lg \<and> log_Log g' = WithName lg ''kuadrant-controller'' \<and>
      ctrl_Log g' = log_Log g' \<and> klog_Log g' = log_Log g'"
proof -
  from assms(1) obtain s lg where s: "add_to_scheme add api_groups (g_scheme g) = Inr s" "newLogger = Inr lg"
    and g': "g' = SetLogger (WithName lg ''kuadrant-controller'') (g\<lparr>g_scheme := s\<rparr>)"
    by (auto simp: program_init_def split: sum.splits)
  have "grp \<in> set api_groups" for grp by (cases grp) (simp_all add: api_groups_def)
  with add_to_scheme_adds[OF s(1) _ assms(2)] g' show "known (g_scheme g') = UNIV"
    by (auto simp: SetLogger_def)
  from s(2) g' show "\<exists>lg. newLogger = Inr lg \<and> log_Log g' = WithName lg ''kuadrant-controller'' \<and>
      ctrl_Log g' = log_Log g' \<and> klog_Log g' = log_Log g'"
    by (auto simp: SetLogger_def)
qed

end
