(* ===== verification/Program_Scheme.thy ===== *)
theory Program_Scheme
  imports Program
begin

text \<open>
  What the program is built with: the version (version.go), the API group and its types
  (groupversion_info.go and the init functions of both types files), the lines the program logs
  first (printControllerMetaInfo of main.go), and the parts of the reconcilers that both
  controllers inherit: the accessors of the base reconciler and the Reconcile that does nothing.
\<close>

section \<open>The API group\<close>

definition GroupVersion :: "string \<times> string" where
  "GroupVersion = (''apim.kuadrant.io'', ''v1alpha1'')"

datatype api_type = AuthPolicyType | AuthPolicyListType | RateLimitPolicyType | RateLimitPolicyListType

text \<open>
  A scheme.Builder is a value of controller-runtime: \<open>newBuilder\<close> is one with a group version and
  no types, \<open>Register\<close> adds types to it. Go runs the init functions of a package in the order of
  its files.
\<close>

definition authpolicy_types_init :: "('b \<Rightarrow> api_type list \<Rightarrow> 'b) \<Rightarrow> 'b \<Rightarrow> 'b" where
  "authpolicy_types_init Register b = Register b [AuthPolicyType, AuthPolicyListType]"

definition ratelimitpolicy_types_init :: "('b \<Rightarrow> api_type list \<Rightarrow> 'b) \<Rightarrow> 'b \<Rightarrow> 'b" where
  "ratelimitpolicy_types_init Register b = Register b [RateLimitPolicyType, RateLimitPolicyListType]"

definition SchemeBuilder :: "(string \<times> string \<Rightarrow> 'b) \<Rightarrow> 'b" where
  "SchemeBuilder newBuilder = newBuilder GroupVersion"

definition v1alpha1_init :: "(string \<times> string \<Rightarrow> 'b) \<Rightarrow> ('b \<Rightarrow> api_type list \<Rightarrow> 'b) \<Rightarrow> 'b" where
  "v1alpha1_init newBuilder Register =
     ratelimitpolicy_types_init Register (authpolicy_types_init Register (SchemeBuilder newBuilder))"

text \<open>AddToScheme is the method of the builder, called when init of main.go runs.\<close>

definition AddToScheme ::
    "('b \<Rightarrow> 's \<Rightarrow> go_error + 's) \<Rightarrow> (string \<times> string \<Rightarrow> 'b) \<Rightarrow> ('b \<Rightarrow> api_type list \<Rightarrow> 'b) \<Rightarrow> 's \<Rightarrow> go_error + 's" where
  "AddToScheme builderAdd newBuilder Register s = builderAdd (v1alpha1_init newBuilder Register) s"

text \<open>The scheme main.go starts with, when the group of the program is added by this AddToScheme.\<close>

definition add_group ::
    "(api_group \<Rightarrow> 's \<Rightarrow> go_error + 's) \<Rightarrow> ('b \<Rightarrow> 's \<Rightarrow> go_error + 's) \<Rightarrow> (string \<times> string \<Rightarrow> 'b) \<Rightarrow>
     ('b \<Rightarrow> api_type list \<Rightarrow> 'b) \<Rightarrow> api_group \<Rightarrow> 's \<Rightarrow> go_error + 's" where
  "add_group other builderAdd newBuilder Register g =
     (if g = ApimV1alpha1 then AddToScheme builderAdd newBuilder Register else other g)"

text \<open>
  What the documentation of scheme.Builder says of the three calls, for \<open>types b\<close> the group version
  and types of a builder and \<open>known s\<close> the types a scheme knows: then every type of both policies is
  known to the scheme of the program under the group version of the package.
\<close>

theorem program_scheme_complete:
  assumes init: "program_init (add_group other builderAdd newBuilder Register) WithName newLogger g = Inr g'"
    and newBuilder: "\<And>gv. types (newBuilder gv) = (gv, [])"
    and Register: "\<And>b ts. types (Register b ts) = (fst (types b), snd (types b) @ ts)"
    and builderAdd: "\<And>b s s'. builderAdd b s = Inr s' \<Longrightarrow> known s' = known s \<union> {fst (types b)} \<times> set (snd (types b))"
    and other: "\<And>grp s s'. other grp s = Inr s' \<Longrightarrow> known s \<subseteq> known s'"
  shows "(GroupVersion, t) \<in> known (g_scheme g')"
proof -
  let ?known = "\<lambda>s. {grp. grp = ApimV1alpha1 \<longrightarrow> (GroupVersion, t) \<in> known s}"
  have t: "t \<in> set (snd (types (v1alpha1_init newBuilder Register)))"
    "fst (types (v1alpha1_init newBuilder Register)) = GroupVersion"
    by (cases t; simp add: v1alpha1_init_def ratelimitpolicy_types_init_def authpolicy_types_init_def
        SchemeBuilder_def Register newBuilder)+
  have "insert grp (?known s) \<subseteq> ?known s'" if "add_group other builderAdd newBuilder Register grp s = Inr s'" for grp s s'
  proof (cases "grp = ApimV1alpha1")
    case True
    with that have "builderAdd (v1alpha1_init newBuilder Register) s = Inr s'"
      by (simp add: add_group_def AddToScheme_def)
    from builderAdd[OF this] t show ?thesis by auto
  next
    case False
    with that have "other grp s = Inr s'" by (simp add: add_group_def)
    from other[OF this] False show ?thesis by auto
  qed
  then have "ApimV1alpha1 \<in> ?known (g_scheme g')"
    using program_init_done(1)[OF init, where known = ?known] by blast
  then show ?thesis by simp
qed

text \<open>With lists for builders and schemes.\<close>

theorem program_scheme_complete_witness:
  "\<exists>g'. program_init
      (add_group (\<lambda>_. Inr) (\<lambda>b s. Inr (s @ map (Pair (fst b)) (snd b))) (\<lambda>gv. (gv, [])) (\<lambda>b ts. (fst b, snd b @ ts)))
      (\<lambda>lg name. name) (Inr '''')
      \<lparr>g_scheme = [], log_Log = '''', ctrl_Log = '''', klog_Log = ''''\<rparr> = Inr g' \<and>
    (GroupVersion, AuthPolicyListType) \<in> set (g_scheme g') \<and> (GroupVersion, RateLimitPolicyType) \<in> set (g_scheme g')"
proof -
  let ?init = "program_init
      (add_group (\<lambda>_. Inr) (\<lambda>b s. Inr (s @ map (Pair (fst b)) (snd b))) (\<lambda>gv. (gv, [])) (\<lambda>b ts. (fst b, snd b @ ts)))
      (\<lambda>lg name. name) (Inr '''') \<lparr>g_scheme = [], log_Log = '''', ctrl_Log = '''', klog_Log = ''''\<rparr>"
  obtain g' where g': "?init = Inr g'"
    by (simp add: program_init_def api_groups_def add_group_def AddToScheme_def split: sum.splits)
  have "(GroupVersion, t) \<in> set (g_scheme g')" for t
    by (rule program_scheme_complete[OF g', where types = "\<lambda>b. b"]) auto
  with g' show ?thesis by blast
qed

section \<open>The first log lines\<close>

definition Version :: string where
  "Version = ''0.1.2''"

text \<open>A log line: the message and its key-value pairs; the Go version and platform are parameters.\<close>

definition printControllerMetaInfo ::
    "string \<Rightarrow> string \<Rightarrow> string \<Rightarrow> string \<Rightarrow> string \<Rightarrow> (string \<times> (string \<times> string) list) list" where
  "printControllerMetaInfo goVersion goos goarch logLevel logMode =
     [(''operator version: '' @ Version, []),
      (''go version: '' @ goVersion, []),
      (''go os/arch: '' @ goos @ ''/'' @ goarch, []),
      (''base logger'', [(''log level'', logLevel), (''log mode'', logMode)])]"

section \<open>What the reconcilers inherit\<close>

text \<open>Both controllers replace this Reconcile by their own.\<close>

definition BaseReconciler_Reconcile :: "object_key \<Rightarrow> ('w, reconcile_result) io" where
  "BaseReconciler_Reconcile req = retE result_ok"

definition TargetRefReconciler_Reconcile :: "object_key \<Rightarrow> ('w, reconcile_result) io" where
  "TargetRefReconciler_Reconcile req = retE result_ok"

definition Reconciler_Client :: "('c, 's, 'r, 'l, 'e) BaseReconciler \<Rightarrow> 'c" where
  "Reconciler_Client b = br_client b"

definition Reconciler_APIClientReader :: "('c, 's, 'r, 'l, 'e) BaseReconciler \<Rightarrow> 'r" where
  "Reconciler_APIClientReader b = br_apiClientReader b"

definition Reconciler_Scheme :: "('c, 's, 'r, 'l, 'e) BaseReconciler \<Rightarrow> 's" where
  "Reconciler_Scheme b = br_scheme b"

definition Reconciler_Logger :: "('c, 's, 'r, 'l, 'e) BaseReconciler \<Rightarrow> 'l" where
  "Reconciler_Logger b = br_logger b"

definition Reconciler_EventRecorder :: "('c, 's, 'r, 'l, 'e) BaseReconciler \<Rightarrow> 'e" where
  "Reconciler_EventRecorder b = br_recorder b"

text \<open>The accessors give back what the constructor was given, so they determine the reconciler.\<close>

lemma NewBaseReconciler_accessors:
  "b = NewBaseReconciler client scheme reader logger recorder \<longleftrightarrow>
   Reconciler_Client b = client \<and> Reconciler_Scheme b = scheme \<and> Reconciler_APIClientReader b = reader \<and>
   Reconciler_Logger b = logger \<and> Reconciler_EventRecorder b = recorder"
  by (cases b) (auto simp: NewBaseReconciler_def Reconciler_Client_def Reconciler_Scheme_def
      Reconciler_APIClientReader_def Reconciler_Logger_def Reconciler_EventRecorder_def)

end
