(* ===== verification/Service_Ports.thy ===== *)
theory Service_Ports
  imports Client "HOL-Library.Word"
begin

text \<open>
  GetServicePortNumber (pkg/common/k8s_utils.go): the number of a service's port, given as a number
  or by name. Services are not a kind the reconcilers use, so reading one is a parameter of the
  function, and so is intstr.IntOrString.IntValue, which gives a Go int.
\<close>

text \<open>strconv.ParseInt with base 10 and 32 bits: an optional sign, digits, and the range of int32.\<close>

definition ParseInt32 :: "string \<Rightarrow> int option" where
  "ParseInt32 s =
     (let (neg, digits) =
        (case s of
           [] \<Rightarrow> (False, [])
         | x # xs \<Rightarrow> if x = CHR ''-'' then (True, xs) else if x = CHR ''+'' then (False, xs) else (False, s))
      in if digits = [] \<or> \<not> list_all is_digit digits then None
         else
           let v = (if neg then - int (nat_value digits) else int (nat_value digits))
           in if - (2 ^ 31) \<le> v \<and> v < 2 ^ 31 then Some v else None)"

record 'p service_port =
  sp_Name :: string
  sp_TargetPort :: 'p

fun find_port :: "('p \<Rightarrow> int) \<Rightarrow> string \<Rightarrow> 'p service_port list \<Rightarrow> 32 word option" where
  "find_port IntValue svcPort [] = None"
| "find_port IntValue svcPort (p # ps) =
     (if sp_Name p = svcPort then Some (word_of_int (IntValue (sp_TargetPort p)))
      else find_port IntValue svcPort ps)"

definition GetServicePortNumber ::
    "('p \<Rightarrow> int) \<Rightarrow> (object_key \<Rightarrow> ('w, 'p service_port list) io) \<Rightarrow> object_key \<Rightarrow> string \<Rightarrow> ('w, 32 word) io" where
  "GetServicePortNumber IntValue getPorts svcKey svcPort =
     (case ParseInt32 svcPort of
        Some num \<Rightarrow> retE (word_of_int num)
      | None \<Rightarrow>
          bindE (getPorts svcKey) (\<lambda>ports.
            case find_port IntValue svcPort ports of
              Some num \<Rightarrow> retE num
            | None \<Rightarrow> throwE (Errorf ''service port %s was not found in %s'' [svcPort, key_String svcKey])))"

lemma nat_value_digits:
  "list_all is_digit (show_nat n)" "show_nat n \<noteq> []"
  using show_nat_digits[of _ n] by (simp add: list_all_iff, subst show_nat.simps, simp)

lemma ParseInt32_show_int:
  "ParseInt32 (show_int v) = (if - (2 ^ 31) \<le> v \<and> v < 2 ^ 31 then Some v else None)"
proof (cases "v < 0")
  case True
  then show ?thesis
    by (simp add: ParseInt32_def show_int_def nat_value_digits nat_value_show_nat Let_def)
next
  case False
  obtain x xs where s: "show_nat (nat v) = x # xs"
    using nat_value_digits(2)[of "nat v"] by (cases "show_nat (nat v)") auto
  then have "x \<noteq> CHR ''-''" "x \<noteq> CHR ''+''" "list_all is_digit (x # xs)" "nat_value (x # xs) = nat v"
    using nat_value_digits(1)[of "nat v"] nat_value_show_nat[of "nat v"] by (auto simp: is_digit_def)
  with False s show ?thesis by (simp add: ParseInt32_def show_int_def)
qed

lemma ParseInt32_range: "ParseInt32 s = Some v \<Longrightarrow> - (2 ^ 31) \<le> v \<and> v < 2 ^ 31"
  by (auto simp: ParseInt32_def Let_def split: list.splits if_splits)

lemma find_port_find:
  "find_port IntValue name ps =
     map_option (\<lambda>p. word_of_int (IntValue (sp_TargetPort p))) (find (\<lambda>p. sp_Name p = name) ps)"
  by (induction ps) auto



end
