(* ===== verification/Deep_Copy.thy ===== *)
theory Deep_Copy
  imports Main
begin

text \<open>
  apis/apim/v1alpha1/zz_generated.deepcopy.go, over a memory. In the other theories objects are
  values; the program can treat them so because a copy shares no memory with its original. That is
  shown here: the types of the API as the trees of pointers, slices and structs they are, the
  generated functions on values in a memory, and that what they make is equal to the original and
  separate from it.
\<close>

section \<open>Values in a memory\<close>

text \<open>
  A value of a basic type, a struct, or the address of an object, nil or not: a pointer has an
  object of one value, a slice one of its elements.
\<close>

datatype gval = Scalar string | Struct "gval list" | Ref "nat option"

type_synonym memory = "gval list list"

definition object_at :: "memory \<Rightarrow> nat \<Rightarrow> gval list" where
  "object_at h a = (if a < length h then h ! a else [])"

datatype gtype = TScalar | TStruct "gtype list" | TRef gtype

fun has_type :: "gtype \<Rightarrow> memory \<Rightarrow> gval \<Rightarrow> bool"
  and has_types :: "gtype list \<Rightarrow> memory \<Rightarrow> gval list \<Rightarrow> bool" where
  "has_type TScalar h v = (case v of Scalar _ \<Rightarrow> True | _ \<Rightarrow> False)"
| "has_type (TStruct ts) h v = (case v of Struct vs \<Rightarrow> has_types ts h vs | _ \<Rightarrow> False)"
| "has_type (TRef t) h v =
     (case v of
        Ref None \<Rightarrow> True
      | Ref (Some a) \<Rightarrow> a < length h \<and> list_all (has_type t h) (object_at h a)
      | _ \<Rightarrow> False)"
| "has_types [] h vs = (vs = [])"
| "has_types (t # ts) h vs = (case vs of [] \<Rightarrow> False | v # vs' \<Rightarrow> has_type t h v \<and> has_types ts h vs')"

text \<open>What is read at a value, all addresses followed, and the addresses on the way.\<close>

datatype tree = Leaf string | Fields "tree list" | Nil | Object "tree list"

fun read :: "gtype \<Rightarrow> memory \<Rightarrow> gval \<Rightarrow> tree"
  and reads :: "gtype list \<Rightarrow> memory \<Rightarrow> gval list \<Rightarrow> tree list" where
  "read TScalar h v = (case v of Scalar s \<Rightarrow> Leaf s | _ \<Rightarrow> Nil)"
| "read (TStruct ts) h v = (case v of Struct vs \<Rightarrow> Fields (reads ts h vs) | _ \<Rightarrow> Nil)"
| "read (TRef t) h v = (case v of Ref (Some a) \<Rightarrow> Object (map (read t h) (object_at h a)) | _ \<Rightarrow> Nil)"
| "reads [] h vs = []"
| "reads (t # ts) h vs = (case vs of [] \<Rightarrow> [] | v # vs' \<Rightarrow> read t h v # reads ts h vs')"

fun reach :: "gtype \<Rightarrow> memory \<Rightarrow> gval \<Rightarrow> nat set"
  and reaches :: "gtype list \<Rightarrow> memory \<Rightarrow> gval list \<Rightarrow> nat set" where
  "reach TScalar h v = {}"
| "reach (TStruct ts) h v = (case v of Struct vs \<Rightarrow> reaches ts h vs | _ \<Rightarrow> {})"
| "reach (TRef t) h v = (case v of Ref (Some a) \<Rightarrow> insert a (\<Union>x \<in> set (object_at h a). reach t h x) | _ \<Rightarrow> {})"
| "reaches [] h vs = {}"
| "reaches (t # ts) h vs = (case vs of [] \<Rightarrow> {} | v # vs' \<Rightarrow> reach t h v \<union> reaches ts h vs')"

section \<open>The forms of the generated code\<close>

text \<open>The value a function leaves in \<open>*out\<close>, and the memory.\<close>

type_synonym copier = "gval \<Rightarrow> memory \<Rightarrow> gval \<times> memory"

text \<open>\<open>*out = *in\<close>\<close>

definition keep :: copier where
  "keep v h = (v, h)"

fun copy_all :: "copier \<Rightarrow> gval list \<Rightarrow> memory \<Rightarrow> gval list \<times> memory" where
  "copy_all f [] h = ([], h)"
| "copy_all f (v # vs) h = (let (v', h1) = f v h; (vs', h2) = copy_all f vs h1 in (v' # vs', h2))"

fun copy_fields :: "copier list \<Rightarrow> gval list \<Rightarrow> memory \<Rightarrow> gval list \<times> memory" where
  "copy_fields (f # fs) (v # vs) h = (let (v', h1) = f v h; (vs', h2) = copy_fields fs vs h1 in (v' # vs', h2))"
| "copy_fields _ vs h = (vs, h)"

text \<open>\<open>*out = *in\<close> and then some of the fields anew, in order.\<close>

definition copy_struct :: "copier list \<Rightarrow> copier" where
  "copy_struct fs v h =
     (case v of Struct vs \<Rightarrow> (let (vs', h') = copy_fields fs vs h in (Struct vs', h')) | _ \<Rightarrow> (v, h))"

text \<open>
  \<open>if in.X != nil { *out = new(T) or make([]T, len(*in)); ... }\<close>: a new object, filled with what
  the elements are copied to; nil stays nil. Addresses have no meaning, so it is allocated when full.
\<close>

definition copy_ref :: "copier \<Rightarrow> copier" where
  "copy_ref f v h =
     (case v of
        Ref (Some a) \<Rightarrow> (let (vs', h') = copy_all f (object_at h a) h in (Ref (Some (length h')), h' @ [vs']))
      | _ \<Rightarrow> (v, h))"

section \<open>Deep copies\<close>

text \<open>The memory only grows, the copy reads as the original, and what it reaches is new.\<close>

definition copied :: "gtype \<Rightarrow> memory \<Rightarrow> gval \<Rightarrow> memory \<Rightarrow> gval \<Rightarrow> bool" where
  "copied t h v h' v' \<longleftrightarrow> (\<exists>ext. h' = h @ ext) \<and> has_type t h' v' \<and> read t h' v' = read t h v \<and>
     (\<forall>a \<in> reach t h' v'. length h \<le> a)"

definition deep_copier :: "gtype \<Rightarrow> copier \<Rightarrow> bool" where
  "deep_copier t f \<longleftrightarrow> (\<forall>h v. has_type t h v \<longrightarrow> (case f v h of (v', h') \<Rightarrow> copied t h v h' v'))"

lemma deep_copierD:
  assumes "deep_copier t f" "has_type t h v" "f v h = (v', h')"
  shows "copied t h v h' v'"
  using spec[OF spec[OF assms(1)[unfolded deep_copier_def], of h], of v] assms(2,3) by simp

lemma object_at_append: "a < length h \<Longrightarrow> object_at (h @ ext) a = object_at h a"
  by (simp add: object_at_def nth_append)

text \<open>What a value is does not depend on memory allocated later.\<close>

lemma grown_memory:
  "has_type t h v \<Longrightarrow> has_type t (h @ ext) v \<and> read t (h @ ext) v = read t h v \<and> reach t (h @ ext) v = reach t h v"
  "has_types ts h vs \<Longrightarrow> has_types ts (h @ ext) vs \<and> reads ts (h @ ext) vs = reads ts h vs \<and>
     reaches ts (h @ ext) vs = reaches ts h vs"
proof (induction t h v and ts h vs rule: has_type_has_types.induct)
  case (3 t h v)
  show ?case
  proof (cases "\<exists>a. v = Ref (Some a)")
    case True
    then obtain a where v: "v = Ref (Some a)" by blast
    with "3.prems" have a: "a < length h" "\<forall>x \<in> set (object_at h a). has_type t h x"
      by (simp_all add: list_all_iff)
    with "3.IH"[OF v refl] v show ?thesis
      by (simp add: object_at_append list_all_iff)
  next
    case False
    with "3.prems" show ?thesis by (auto split: gval.splits option.splits)
  qed
qed (auto split: gval.splits list.splits)

lemma reach_below:
  "has_type t h v \<Longrightarrow> a \<in> reach t h v \<Longrightarrow> a < length h"
  "has_types ts h vs \<Longrightarrow> a \<in> reaches ts h vs \<Longrightarrow> a < length h"
  by (induction t h v and ts h vs rule: has_type_has_types.induct)
    (auto simp: list_all_iff split: gval.splits option.splits list.splits)

lemma copied_grown:
  assumes "copied t h v h1 v'" "h2 = h1 @ ext"
  shows "copied t h v h2 v'"
  using assms grown_memory(1)[of t h1 v' ext] by (auto simp: copied_def)

lemma deep_copier_scalar: "deep_copier TScalar keep"
  by (auto simp: deep_copier_def copied_def keep_def split: gval.splits)

lemma copy_all_copied:
  assumes "deep_copier t f" "list_all (has_type t h) vs" "copy_all f vs h = (vs', h')"
  shows "(\<exists>ext. h' = h @ ext) \<and> list_all (has_type t h') vs' \<and> map (read t h') vs' = map (read t h) vs \<and>
    (\<forall>x \<in> set vs'. \<forall>a \<in> reach t h' x. length h \<le> a)"
  using assms(2,3)
proof (induction vs arbitrary: h vs')
  case (Cons v vs)
  from Cons.prems(2) obtain v1 h1 vs1 where 1: "f v h = (v1, h1)" and 2: "copy_all f vs h1 = (vs1, h')"
    and vs': "vs' = v1 # vs1"
    by (auto simp: Let_def split: prod.splits)
  from deep_copierD[OF assms(1) _ 1] Cons.prems(1) have c: "copied t h v h1 v1" by simp
  then obtain e1 where e1: "h1 = h @ e1" by (auto simp: copied_def)
  have old: "list_all (has_type t h1) vs" "map (read t h1) vs = map (read t h) vs"
    using Cons.prems(1) grown_memory(1)[of t h _ e1] by (auto simp: e1 list_all_iff)
  from Cons.IH[OF old(1) 2] obtain e2 where rest: "h' = h1 @ e2" "list_all (has_type t h') vs1"
    "map (read t h') vs1 = map (read t h1) vs" "\<forall>x \<in> set vs1. \<forall>a \<in> reach t h' x. length h1 \<le> a"
    by auto
  from copied_grown[OF c rest(1)] have "copied t h v h' v1" .
  with rest old e1 vs' show ?case by (fastforce simp: copied_def)
qed simp

lemma deep_copier_ref:
  assumes "deep_copier t f"
  shows "deep_copier (TRef t) (copy_ref f)"
  unfolding deep_copier_def
proof (intro allI impI)
  fix h v assume v: "has_type (TRef t) h v"
  show "case copy_ref f v h of (v', h') \<Rightarrow> copied (TRef t) h v h' v'"
  proof (cases "\<exists>a. v = Ref (Some a)")
    case True
    then obtain a where a: "v = Ref (Some a)" by blast
    obtain vs' h1 where run: "copy_all f (object_at h a) h = (vs', h1)" by fastforce
    from v a have "list_all (has_type t h) (object_at h a)" by simp
    from copy_all_copied[OF assms this run] obtain e where all: "h1 = h @ e" "list_all (has_type t h1) vs'"
      "map (read t h1) vs' = map (read t h) (object_at h a)" "\<forall>x \<in> set vs'. \<forall>b \<in> reach t h1 x. length h \<le> b"
      by blast
    note later = grown_memory(1)[of t h1 _ "[vs']"]
    have new: "object_at (h1 @ [vs']) (length h1) = vs'" by (simp add: object_at_def)
    have "map (read t (h1 @ [vs'])) vs' = map (read t h1) vs'"
      by (rule map_cong) (use all(2) later in \<open>auto simp: list_all_iff\<close>)
    then have "map (read t (h1 @ [vs'])) vs' = map (read t h) (object_at h a)" using all(3) by simp
    moreover have "\<forall>x \<in> set vs'. has_type t (h1 @ [vs']) x \<and> (\<forall>b \<in> reach t (h1 @ [vs']) x. length h \<le> b)"
      using all(2,4) later by (auto simp: list_all_iff)
    ultimately show ?thesis
      using a run all(1) new by (auto simp: copy_ref_def copied_def list_all_iff)
  next
    case False
    with v show ?thesis by (auto simp: copy_ref_def copied_def split: gval.splits option.splits)
  qed
qed

lemma copy_fields_copied:
  assumes "list_all2 deep_copier ts fs" "has_types ts h vs" "copy_fields fs vs h = (vs', h')"
  shows "(\<exists>ext. h' = h @ ext) \<and> has_types ts h' vs' \<and> reads ts h' vs' = reads ts h vs \<and>
    (\<forall>a \<in> reaches ts h' vs'. length h \<le> a)"
  using assms
proof (induction ts arbitrary: fs vs h vs')
  case (Cons t ts)
  from Cons.prems(1,2) obtain f fs0 v vs0 where fs: "fs = f # fs0" "deep_copier t f" "list_all2 deep_copier ts fs0"
    and vs: "vs = v # vs0" "has_type t h v" "has_types ts h vs0"
    by (cases fs; cases vs) auto
  from Cons.prems(3) obtain v1 h1 vs1 where 1: "f v h = (v1, h1)" and 2: "copy_fields fs0 vs0 h1 = (vs1, h')"
    and vs': "vs' = v1 # vs1"
    by (auto simp: fs vs Let_def split: prod.splits)
  from deep_copierD[OF fs(2) vs(2) 1] have c: "copied t h v h1 v1" .
  then obtain e1 where e1: "h1 = h @ e1" by (auto simp: copied_def)
  have old: "has_types ts h1 vs0" "reads ts h1 vs0 = reads ts h vs0"
    using grown_memory(2)[OF vs(3), of e1] by (simp_all add: e1)
  from Cons.IH[OF fs(3) old(1) 2] obtain e2 where rest: "h' = h1 @ e2" "has_types ts h' vs1"
    "reads ts h' vs1 = reads ts h1 vs0" "\<forall>a \<in> reaches ts h' vs1. length h1 \<le> a"
    by auto
  from copied_grown[OF c rest(1)] have "copied t h v h' v1" .
  with rest old e1 vs vs' show ?case by (auto simp: copied_def)
qed (auto split: list.splits)

lemma deep_copier_struct:
  assumes "list_all2 deep_copier ts fs"
  shows "deep_copier (TStruct ts) (copy_struct fs)"
  unfolding deep_copier_def
proof (intro allI impI)
  fix h v assume "has_type (TStruct ts) h v"
  then obtain vs where v: "v = Struct vs" "has_types ts h vs" by (auto split: gval.splits)
  obtain vs' h' where run: "copy_fields fs vs h = (vs', h')" by fastforce
  from copy_fields_copied[OF assms v(2) run] show "case copy_struct fs v h of (v', h') \<Rightarrow> copied (TStruct ts) h v h' v'"
    by (simp add: v(1) copy_struct_def run copied_def)
qed

text \<open>A type without addresses is copied by assignment.\<close>

fun plain :: "gtype \<Rightarrow> bool" where
  "plain TScalar = True"
| "plain (TStruct ts) = list_all plain ts"
| "plain (TRef t) = False"

lemma plain_reach: "plain t \<Longrightarrow> reach t h v = {}" "list_all plain ts \<Longrightarrow> reaches ts h vs = {}"
  by (induction t h v and ts h vs rule: reach_reaches.induct) (auto split: gval.splits list.splits)

lemma deep_copier_plain: "plain t \<Longrightarrow> deep_copier t keep"
  by (auto simp: deep_copier_def copied_def keep_def plain_reach)

text \<open>Writing to what a copy reaches, or to new memory, is not seen from the original.\<close>

lemma write_elsewhere:
  "has_type t h v \<Longrightarrow> b \<notin> reach t h v \<Longrightarrow> read t (h[b := x]) v = read t h v"
  "has_types ts h vs \<Longrightarrow> b \<notin> reaches ts h vs \<Longrightarrow> reads ts (h[b := x]) vs = reads ts h vs"
proof (induction t h v and ts h vs rule: has_type_has_types.induct)
  case (3 t h v)
  show ?case
  proof (cases "\<exists>a. v = Ref (Some a)")
    case True
    then obtain a where v: "v = Ref (Some a)" by blast
    with "3.prems" have a: "b \<noteq> a" "\<forall>y \<in> set (object_at h a). has_type t h y \<and> b \<notin> reach t h y"
      by (auto simp: list_all_iff)
    then have "object_at (h[b := x]) a = object_at h a" by (simp add: object_at_def)
    with "3.IH"[OF v refl] a v show ?thesis by simp
  next
    case False
    with "3.prems" show ?thesis by (auto split: gval.splits option.splits)
  qed
qed (auto split: gval.splits list.splits)

lemma copied_separate:
  assumes "deep_copier t f" "has_type t h v" "f v h = (v', h')"
  shows "read t h' v' = read t h v" "read t h' v = read t h v" "reach t h' v \<inter> reach t h' v' = {}"
    and "b \<in> reach t h' v' \<Longrightarrow> read t (h'[b := x]) v = read t h v"
proof -
  from deep_copierD[OF assms] obtain ext where c: "h' = h @ ext" "read t h' v' = read t h v"
    "\<forall>a \<in> reach t h' v'. length h \<le> a"
    by (auto simp: copied_def)
  note old = grown_memory(1)[OF assms(2), of ext]
  show "read t h' v' = read t h v" "read t h' v = read t h v" using c old by simp_all
  show sep: "reach t h' v \<inter> reach t h' v' = {}"
    using c old reach_below(1)[OF assms(2)] by fastforce
  show "read t (h'[b := x]) v = read t h v" if "b \<in> reach t h' v'"
    using write_elsewhere(1)[of t h' v b x] sep that old c(1) by auto
qed

end
