(* ===== verification/Deep_Copy_Types.thy ===== *)
theory Deep_Copy_Types
  imports Deep_Copy
begin

text \<open>
  The types of apis/apim/v1alpha1 (ratelimitpolicy_types.go and authpolicy_types.go, the fields in
  their order) and the functions of zz_generated.deepcopy.go for each: DeepCopyInto, DeepCopy and
  DeepCopyObject. Types of other packages and their functions are the record \<open>external_api\<close>.
\<close>

section \<open>Types of other packages\<close>

record external_api =
  TypeMeta_type :: gtype
  ObjectMeta_type :: gtype
  ObjectMeta_DeepCopyInto :: copier
  ListMeta_type :: gtype
  ListMeta_DeepCopyInto :: copier
  PolicyTargetReference_type :: gtype
  PolicyTargetReference_DeepCopyInto :: copier
  Condition_type :: gtype
  Condition_DeepCopyInto :: copier
  AuthConfigSpec_type :: gtype
  AuthConfigSpec_DeepCopyInto :: copier

text \<open>
  What is documented of them: TypeMeta has texts only, no addresses, and the functions make deep copies.
\<close>

definition externals_deep :: "external_api \<Rightarrow> bool" where
  "externals_deep X \<longleftrightarrow> plain (TypeMeta_type X) \<and>
     deep_copier (ObjectMeta_type X) (ObjectMeta_DeepCopyInto X) \<and>
     deep_copier (ListMeta_type X) (ListMeta_DeepCopyInto X) \<and>
     deep_copier (PolicyTargetReference_type X) (PolicyTargetReference_DeepCopyInto X) \<and>
     deep_copier (Condition_type X) (Condition_DeepCopyInto X) \<and>
     deep_copier (AuthConfigSpec_type X) (AuthConfigSpec_DeepCopyInto X)"

section \<open>The types and their copies\<close>

text \<open>
  \<open>in.DeepCopy()\<close> of a pointer: nil gives nil, otherwise a new object is filled by DeepCopyInto.
\<close>

definition GenericKeySpec_type :: gtype where
  "GenericKeySpec_type = TStruct [TScalar, TRef TScalar]"

definition GenericKeySpec_DeepCopyInto :: copier where
  "GenericKeySpec_DeepCopyInto = copy_struct [keep, copy_ref keep]"

definition GenericKeySpec_DeepCopy :: copier where
  "GenericKeySpec_DeepCopy = copy_ref GenericKeySpec_DeepCopyInto"

definition MetadataPathSegmentKey_type :: gtype where
  "MetadataPathSegmentKey_type = TStruct [TScalar]"

definition MetadataPathSegmentKey_DeepCopyInto :: copier where
  "MetadataPathSegmentKey_DeepCopyInto = keep"

definition MetadataPathSegmentKey_DeepCopy :: copier where
  "MetadataPathSegmentKey_DeepCopy = copy_ref MetadataPathSegmentKey_DeepCopyInto"

definition MetadataPathSegment_type :: gtype where
  "MetadataPathSegment_type = TStruct [MetadataPathSegmentKey_type]"

definition MetadataPathSegment_DeepCopyInto :: copier where
  "MetadataPathSegment_DeepCopyInto = copy_struct [keep]"

definition MetadataPathSegment_DeepCopy :: copier where
  "MetadataPathSegment_DeepCopy = copy_ref MetadataPathSegment_DeepCopyInto"

definition MetadataKeySpec_type :: gtype where
  "MetadataKeySpec_type = TStruct [TScalar, TRef MetadataPathSegment_type]"

definition MetadataKeySpec_DeepCopyInto :: copier where
  "MetadataKeySpec_DeepCopyInto = copy_struct [keep, copy_ref keep]"

definition MetadataKeySpec_DeepCopy :: copier where
  "MetadataKeySpec_DeepCopy = copy_ref MetadataKeySpec_DeepCopyInto"

definition MetadataSpec_type :: gtype where
  "MetadataSpec_type = TStruct [TScalar, MetadataKeySpec_type, TRef TScalar, TScalar]"

definition MetadataSpec_DeepCopyInto :: copier where
  "MetadataSpec_DeepCopyInto = copy_struct [keep, MetadataKeySpec_DeepCopyInto, copy_ref keep, keep]"

definition MetadataSpec_DeepCopy :: copier where
  "MetadataSpec_DeepCopy = copy_ref MetadataSpec_DeepCopyInto"

definition RemoteAddressSpec_type :: gtype where
  "RemoteAddressSpec_type = TStruct []"

definition RemoteAddressSpec_DeepCopyInto :: copier where
  "RemoteAddressSpec_DeepCopyInto = keep"

definition RemoteAddressSpec_DeepCopy :: copier where
  "RemoteAddressSpec_DeepCopy = copy_ref RemoteAddressSpec_DeepCopyInto"

definition RequestHeadersSpec_type :: gtype where
  "RequestHeadersSpec_type = TStruct [TScalar, TScalar, TRef TScalar]"

definition RequestHeadersSpec_DeepCopyInto :: copier where
  "RequestHeadersSpec_DeepCopyInto = copy_struct [keep, keep, copy_ref keep]"

definition RequestHeadersSpec_DeepCopy :: copier where
  "RequestHeadersSpec_DeepCopy = copy_ref RequestHeadersSpec_DeepCopyInto"

definition ActionSpecifier_type :: gtype where
  "ActionSpecifier_type = TStruct [TRef GenericKeySpec_type, TRef MetadataSpec_type, TRef RemoteAddressSpec_type,
     TRef RequestHeadersSpec_type]"

definition ActionSpecifier_DeepCopyInto :: copier where
  "ActionSpecifier_DeepCopyInto = copy_struct [copy_ref GenericKeySpec_DeepCopyInto, copy_ref MetadataSpec_DeepCopyInto, copy_ref keep,
     copy_ref RequestHeadersSpec_DeepCopyInto]"

definition ActionSpecifier_DeepCopy :: copier where
  "ActionSpecifier_DeepCopy = copy_ref ActionSpecifier_DeepCopyInto"

definition Rule_type :: gtype where
  "Rule_type = TStruct [TRef TScalar, TRef TScalar, TRef TScalar]"

definition Rule_DeepCopyInto :: copier where
  "Rule_DeepCopyInto = copy_struct [copy_ref keep, copy_ref keep, copy_ref keep]"

definition Rule_DeepCopy :: copier where
  "Rule_DeepCopy = copy_ref Rule_DeepCopyInto"

definition Configuration_type :: gtype where
  "Configuration_type = TStruct [TRef ActionSpecifier_type]"

definition Configuration_DeepCopyInto :: copier where
  "Configuration_DeepCopyInto = copy_struct [copy_ref ActionSpecifier_DeepCopyInto]"

definition Configuration_DeepCopy :: copier where
  "Configuration_DeepCopy = copy_ref Configuration_DeepCopyInto"

definition Limit_type :: gtype where
  "Limit_type = TStruct [TScalar, TScalar, TRef TScalar, TRef TScalar]"

definition Limit_DeepCopyInto :: copier where
  "Limit_DeepCopyInto = copy_struct [keep, keep, copy_ref keep, copy_ref keep]"

definition Limit_DeepCopy :: copier where
  "Limit_DeepCopy = copy_ref Limit_DeepCopyInto"

definition RateLimit_type :: gtype where
  "RateLimit_type = TStruct [TRef Configuration_type, TRef Rule_type, TRef Limit_type]"

definition RateLimit_DeepCopyInto :: copier where
  "RateLimit_DeepCopyInto = copy_struct [copy_ref Configuration_DeepCopyInto, copy_ref Rule_DeepCopyInto,
     copy_ref Limit_DeepCopyInto]"

definition RateLimit_DeepCopy :: copier where
  "RateLimit_DeepCopy = copy_ref RateLimit_DeepCopyInto"

definition GatewayRateLimits_type :: gtype where
  "GatewayRateLimits_type = TStruct [TScalar, TRef RateLimit_type]"

definition GatewayRateLimits_DeepCopyInto :: copier where
  "GatewayRateLimits_DeepCopyInto = copy_struct [keep, copy_ref RateLimit_DeepCopyInto]"

definition GatewayRateLimits_DeepCopy :: copier where
  "GatewayRateLimits_DeepCopy = copy_ref GatewayRateLimits_DeepCopyInto"

definition RateLimitPolicySpec_type :: "external_api \<Rightarrow> gtype" where
  "RateLimitPolicySpec_type X = TStruct [PolicyTargetReference_type X, TRef RateLimit_type]"

definition RateLimitPolicySpec_DeepCopyInto :: "external_api \<Rightarrow> copier" where
  "RateLimitPolicySpec_DeepCopyInto X = copy_struct [PolicyTargetReference_DeepCopyInto X, copy_ref RateLimit_DeepCopyInto]"

definition RateLimitPolicySpec_DeepCopy :: "external_api \<Rightarrow> copier" where
  "RateLimitPolicySpec_DeepCopy X = copy_ref (RateLimitPolicySpec_DeepCopyInto X)"

definition RateLimitPolicyStatus_type :: "external_api \<Rightarrow> gtype" where
  "RateLimitPolicyStatus_type X = TStruct [TScalar, TRef (Condition_type X), TRef GatewayRateLimits_type]"

definition RateLimitPolicyStatus_DeepCopyInto :: "external_api \<Rightarrow> copier" where
  "RateLimitPolicyStatus_DeepCopyInto X = copy_struct [keep, copy_ref (Condition_DeepCopyInto X), copy_ref GatewayRateLimits_DeepCopyInto]"

definition RateLimitPolicyStatus_DeepCopy :: "external_api \<Rightarrow> copier" where
  "RateLimitPolicyStatus_DeepCopy X = copy_ref (RateLimitPolicyStatus_DeepCopyInto X)"

definition RateLimitPolicy_type :: "external_api \<Rightarrow> gtype" where
  "RateLimitPolicy_type X = TStruct [TypeMeta_type X, ObjectMeta_type X, RateLimitPolicySpec_type X, RateLimitPolicyStatus_type X]"

definition RateLimitPolicy_DeepCopyInto :: "external_api \<Rightarrow> copier" where
  "RateLimitPolicy_DeepCopyInto X = copy_struct [keep, ObjectMeta_DeepCopyInto X, RateLimitPolicySpec_DeepCopyInto X,
     RateLimitPolicyStatus_DeepCopyInto X]"

definition RateLimitPolicy_DeepCopy :: "external_api \<Rightarrow> copier" where
  "RateLimitPolicy_DeepCopy X = copy_ref (RateLimitPolicy_DeepCopyInto X)"

definition RateLimitPolicy_DeepCopyObject :: "external_api \<Rightarrow> copier" where
  "RateLimitPolicy_DeepCopyObject X p h =
     (let (c, h') = RateLimitPolicy_DeepCopy X p h in case c of Ref None \<Rightarrow> (Ref None, h') | _ \<Rightarrow> (c, h'))"

definition RateLimitPolicyList_type :: "external_api \<Rightarrow> gtype" where
  "RateLimitPolicyList_type X = TStruct [TypeMeta_type X, ListMeta_type X, TRef (RateLimitPolicy_type X)]"

definition RateLimitPolicyList_DeepCopyInto :: "external_api \<Rightarrow> copier" where
  "RateLimitPolicyList_DeepCopyInto X = copy_struct [keep, ListMeta_DeepCopyInto X, copy_ref (RateLimitPolicy_DeepCopyInto X)]"

definition RateLimitPolicyList_DeepCopy :: "external_api \<Rightarrow> copier" where
  "RateLimitPolicyList_DeepCopy X = copy_ref (RateLimitPolicyList_DeepCopyInto X)"

definition RateLimitPolicyList_DeepCopyObject :: "external_api \<Rightarrow> copier" where
  "RateLimitPolicyList_DeepCopyObject X p h =
     (let (c, h') = RateLimitPolicyList_DeepCopy X p h in case c of Ref None \<Rightarrow> (Ref None, h') | _ \<Rightarrow> (c, h'))"

definition AuthRule_type :: gtype where
  "AuthRule_type = TStruct [TRef TScalar, TRef TScalar, TRef TScalar]"

definition AuthRule_DeepCopyInto :: copier where
  "AuthRule_DeepCopyInto = copy_struct [copy_ref keep, copy_ref keep, copy_ref keep]"

definition AuthRule_DeepCopy :: copier where
  "AuthRule_DeepCopy = copy_ref AuthRule_DeepCopyInto"

definition AuthPolicySpec_type :: "external_api \<Rightarrow> gtype" where
  "AuthPolicySpec_type X = TStruct [PolicyTargetReference_type X, TRef (TRef AuthRule_type), TRef (AuthConfigSpec_type X)]"

definition AuthPolicySpec_DeepCopyInto :: "external_api \<Rightarrow> copier" where
  "AuthPolicySpec_DeepCopyInto X = copy_struct [PolicyTargetReference_DeepCopyInto X, copy_ref (copy_ref AuthRule_DeepCopyInto),
     copy_ref (AuthConfigSpec_DeepCopyInto X)]"

definition AuthPolicySpec_DeepCopy :: "external_api \<Rightarrow> copier" where
  "AuthPolicySpec_DeepCopy X = copy_ref (AuthPolicySpec_DeepCopyInto X)"

definition AuthPolicyStatus_type :: "external_api \<Rightarrow> gtype" where
  "AuthPolicyStatus_type X = TStruct [TScalar, TRef (Condition_type X)]"

definition AuthPolicyStatus_DeepCopyInto :: "external_api \<Rightarrow> copier" where
  "AuthPolicyStatus_DeepCopyInto X = copy_struct [keep, copy_ref (Condition_DeepCopyInto X)]"

definition AuthPolicyStatus_DeepCopy :: "external_api \<Rightarrow> copier" where
  "AuthPolicyStatus_DeepCopy X = copy_ref (AuthPolicyStatus_DeepCopyInto X)"

definition AuthPolicy_type :: "external_api \<Rightarrow> gtype" where
  "AuthPolicy_type X = TStruct [TypeMeta_type X, ObjectMeta_type X, AuthPolicySpec_type X, AuthPolicyStatus_type X]"

definition AuthPolicy_DeepCopyInto :: "external_api \<Rightarrow> copier" where
  "AuthPolicy_DeepCopyInto X = copy_struct [keep, ObjectMeta_DeepCopyInto X, AuthPolicySpec_DeepCopyInto X, AuthPolicyStatus_DeepCopyInto X]"

definition AuthPolicy_DeepCopy :: "external_api \<Rightarrow> copier" where
  "AuthPolicy_DeepCopy X = copy_ref (AuthPolicy_DeepCopyInto X)"

definition AuthPolicy_DeepCopyObject :: "external_api \<Rightarrow> copier" where
  "AuthPolicy_DeepCopyObject X p h =
     (let (c, h') = AuthPolicy_DeepCopy X p h in case c of Ref None \<Rightarrow> (Ref None, h') | _ \<Rightarrow> (c, h'))"

definition AuthPolicyList_type :: "external_api \<Rightarrow> gtype" where
  "AuthPolicyList_type X = TStruct [TypeMeta_type X, ListMeta_type X, TRef (AuthPolicy_type X)]"

definition AuthPolicyList_DeepCopyInto :: "external_api \<Rightarrow> copier" where
  "AuthPolicyList_DeepCopyInto X = copy_struct [keep, ListMeta_DeepCopyInto X, copy_ref (AuthPolicy_DeepCopyInto X)]"

definition AuthPolicyList_DeepCopy :: "external_api \<Rightarrow> copier" where
  "AuthPolicyList_DeepCopy X = copy_ref (AuthPolicyList_DeepCopyInto X)"

definition AuthPolicyList_DeepCopyObject :: "external_api \<Rightarrow> copier" where
  "AuthPolicyList_DeepCopyObject X p h =
     (let (c, h') = AuthPolicyList_DeepCopy X p h in case c of Ref None \<Rightarrow> (Ref None, h') | _ \<Rightarrow> (c, h'))"

section \<open>Every one of them is a deep copy\<close>

named_theorems deep

lemmas [deep] = deep_copier_scalar deep_copier_ref deep_copier_plain

lemma plain_types [simp]: "plain MetadataPathSegmentKey_type" "plain MetadataPathSegment_type"
  "plain RemoteAddressSpec_type"
  by (simp_all add: MetadataPathSegment_type_def MetadataPathSegmentKey_type_def RemoteAddressSpec_type_def)

lemma externals [deep]:
  assumes "externals_deep X"
  shows "deep_copier (TypeMeta_type X) keep"
    "deep_copier (ObjectMeta_type X) (ObjectMeta_DeepCopyInto X)"
    "deep_copier (ListMeta_type X) (ListMeta_DeepCopyInto X)"
    "deep_copier (PolicyTargetReference_type X) (PolicyTargetReference_DeepCopyInto X)"
    "deep_copier (Condition_type X) (Condition_DeepCopyInto X)"
    "deep_copier (AuthConfigSpec_type X) (AuthConfigSpec_DeepCopyInto X)"
  using assms by (simp_all add: externals_deep_def deep_copier_plain)

lemma GenericKeySpec_deep [deep]: "deep_copier GenericKeySpec_type GenericKeySpec_DeepCopyInto"
  unfolding GenericKeySpec_type_def GenericKeySpec_DeepCopyInto_def by (rule deep_copier_struct) (simp add: deep)

lemma MetadataPathSegmentKey_deep [deep]: "deep_copier MetadataPathSegmentKey_type MetadataPathSegmentKey_DeepCopyInto"
  unfolding MetadataPathSegmentKey_type_def MetadataPathSegmentKey_DeepCopyInto_def by (rule deep_copier_plain) simp

lemma MetadataPathSegment_deep [deep]: "deep_copier MetadataPathSegment_type MetadataPathSegment_DeepCopyInto"
  unfolding MetadataPathSegment_type_def MetadataPathSegment_DeepCopyInto_def by (rule deep_copier_struct) (simp add: deep)

lemma MetadataKeySpec_deep [deep]: "deep_copier MetadataKeySpec_type MetadataKeySpec_DeepCopyInto"
  unfolding MetadataKeySpec_type_def MetadataKeySpec_DeepCopyInto_def by (rule deep_copier_struct) (simp add: deep)

lemma MetadataSpec_deep [deep]: "deep_copier MetadataSpec_type MetadataSpec_DeepCopyInto"
  unfolding MetadataSpec_type_def MetadataSpec_DeepCopyInto_def by (rule deep_copier_struct) (simp add: deep)

lemma RemoteAddressSpec_deep [deep]: "deep_copier RemoteAddressSpec_type RemoteAddressSpec_DeepCopyInto"
  unfolding RemoteAddressSpec_type_def RemoteAddressSpec_DeepCopyInto_def by (rule deep_copier_plain) simp

lemma RequestHeadersSpec_deep [deep]: "deep_copier RequestHeadersSpec_type RequestHeadersSpec_DeepCopyInto"
  unfolding RequestHeadersSpec_type_def RequestHeadersSpec_DeepCopyInto_def by (rule deep_copier_struct) (simp add: deep)

lemma ActionSpecifier_deep [deep]: "deep_copier ActionSpecifier_type ActionSpecifier_DeepCopyInto"
  unfolding ActionSpecifier_type_def ActionSpecifier_DeepCopyInto_def by (rule deep_copier_struct) (simp add: deep)

lemma Rule_deep [deep]: "deep_copier Rule_type Rule_DeepCopyInto"
  unfolding Rule_type_def Rule_DeepCopyInto_def by (rule deep_copier_struct) (simp add: deep)

lemma Configuration_deep [deep]: "deep_copier Configuration_type Configuration_DeepCopyInto"
  unfolding Configuration_type_def Configuration_DeepCopyInto_def by (rule deep_copier_struct) (simp add: deep)

lemma Limit_deep [deep]: "deep_copier Limit_type Limit_DeepCopyInto"
  unfolding Limit_type_def Limit_DeepCopyInto_def by (rule deep_copier_struct) (simp add: deep)

lemma RateLimit_deep [deep]: "deep_copier RateLimit_type RateLimit_DeepCopyInto"
  unfolding RateLimit_type_def RateLimit_DeepCopyInto_def by (rule deep_copier_struct) (simp add: deep)

lemma GatewayRateLimits_deep [deep]: "deep_copier GatewayRateLimits_type GatewayRateLimits_DeepCopyInto"
  unfolding GatewayRateLimits_type_def GatewayRateLimits_DeepCopyInto_def by (rule deep_copier_struct) (simp add: deep)

lemma RateLimitPolicySpec_deep [deep]: "externals_deep X \<Longrightarrow> deep_copier (RateLimitPolicySpec_type X) (RateLimitPolicySpec_DeepCopyInto X)"
  unfolding RateLimitPolicySpec_type_def RateLimitPolicySpec_DeepCopyInto_def by (rule deep_copier_struct) (simp add: deep)

lemma RateLimitPolicyStatus_deep [deep]: "externals_deep X \<Longrightarrow> deep_copier (RateLimitPolicyStatus_type X) (RateLimitPolicyStatus_DeepCopyInto X)"
  unfolding RateLimitPolicyStatus_type_def RateLimitPolicyStatus_DeepCopyInto_def by (rule deep_copier_struct) (simp add: deep)

lemma RateLimitPolicy_deep [deep]: "externals_deep X \<Longrightarrow> deep_copier (RateLimitPolicy_type X) (RateLimitPolicy_DeepCopyInto X)"
  unfolding RateLimitPolicy_type_def RateLimitPolicy_DeepCopyInto_def by (rule deep_copier_struct) (simp add: deep)

lemma RateLimitPolicyList_deep [deep]: "externals_deep X \<Longrightarrow> deep_copier (RateLimitPolicyList_type X) (RateLimitPolicyList_DeepCopyInto X)"
  unfolding RateLimitPolicyList_type_def RateLimitPolicyList_DeepCopyInto_def by (rule deep_copier_struct) (simp add: deep)

lemma AuthRule_deep [deep]: "deep_copier AuthRule_type AuthRule_DeepCopyInto"
  unfolding AuthRule_type_def AuthRule_DeepCopyInto_def by (rule deep_copier_struct) (simp add: deep)

lemma AuthPolicySpec_deep [deep]: "externals_deep X \<Longrightarrow> deep_copier (AuthPolicySpec_type X) (AuthPolicySpec_DeepCopyInto X)"
  unfolding AuthPolicySpec_type_def AuthPolicySpec_DeepCopyInto_def by (rule deep_copier_struct) (simp add: deep)

lemma AuthPolicyStatus_deep [deep]: "externals_deep X \<Longrightarrow> deep_copier (AuthPolicyStatus_type X) (AuthPolicyStatus_DeepCopyInto X)"
  unfolding AuthPolicyStatus_type_def AuthPolicyStatus_DeepCopyInto_def by (rule deep_copier_struct) (simp add: deep)

lemma AuthPolicy_deep [deep]: "externals_deep X \<Longrightarrow> deep_copier (AuthPolicy_type X) (AuthPolicy_DeepCopyInto X)"
  unfolding AuthPolicy_type_def AuthPolicy_DeepCopyInto_def by (rule deep_copier_struct) (simp add: deep)

lemma AuthPolicyList_deep [deep]: "externals_deep X \<Longrightarrow> deep_copier (AuthPolicyList_type X) (AuthPolicyList_DeepCopyInto X)"
  unfolding AuthPolicyList_type_def AuthPolicyList_DeepCopyInto_def by (rule deep_copier_struct) (simp add: deep)

section \<open>Properties\<close>

text \<open>The objects of the API, with what runtime.Object asks of them.\<close>

definition api_objects :: "external_api \<Rightarrow> (gtype \<times> copier) list" where
  "api_objects X =
     [(RateLimitPolicy_type X, RateLimitPolicy_DeepCopyObject X),
      (RateLimitPolicyList_type X, RateLimitPolicyList_DeepCopyObject X),
      (AuthPolicy_type X, AuthPolicy_DeepCopyObject X),
      (AuthPolicyList_type X, AuthPolicyList_DeepCopyObject X)]"

lemma DeepCopyObject_DeepCopy:
  "RateLimitPolicy_DeepCopyObject X = copy_ref (RateLimitPolicy_DeepCopyInto X)"
  "RateLimitPolicyList_DeepCopyObject X = copy_ref (RateLimitPolicyList_DeepCopyInto X)"
  "AuthPolicy_DeepCopyObject X = copy_ref (AuthPolicy_DeepCopyInto X)"
  "AuthPolicyList_DeepCopyObject X = copy_ref (AuthPolicyList_DeepCopyInto X)"
  by (auto simp: fun_eq_iff RateLimitPolicy_DeepCopyObject_def RateLimitPolicyList_DeepCopyObject_def
      AuthPolicy_DeepCopyObject_def AuthPolicyList_DeepCopyObject_def RateLimitPolicy_DeepCopy_def
      RateLimitPolicyList_DeepCopy_def AuthPolicy_DeepCopy_def AuthPolicyList_DeepCopy_def
      split: prod.split gval.split option.split)

lemma api_objects_deep:
  assumes "externals_deep X" "(t, f) \<in> set (api_objects X)"
  shows "deep_copier (TRef t) f"
  using assms by (auto simp: api_objects_def DeepCopyObject_DeepCopy deep)

text \<open>
  C37: A deep copy shares no memory with its original. For every object of the API, DeepCopyObject
  only allocates; the copy reads as the original, nil and empty told apart, down to the last pointer
  and slice; no address is reached from both; and whatever is written to an object the copy reaches,
  the original reads as before. So the rest of the development may take objects as values.
\<close>

theorem DeepCopyObject_separate:
  assumes "externals_deep X" "(t, f) \<in> set (api_objects X)" "has_type (TRef t) h p" "f p h = (q, h')"
  shows "(\<exists>ext. h' = h @ ext) \<and> read (TRef t) h' q = read (TRef t) h p \<and>
    reach (TRef t) h' p \<inter> reach (TRef t) h' q = {} \<and>
    (\<forall>b \<in> reach (TRef t) h' q. \<forall>x. read (TRef t) (h'[b := x]) p = read (TRef t) h p)"
proof -
  note deep = api_objects_deep[OF assms(1,2)]
  from deep_copierD[OF deep assms(3,4)] have "\<exists>ext. h' = h @ ext" by (simp add: copied_def)
  with copied_separate[OF deep assms(3,4)] show ?thesis by blast
qed

text \<open>A policy with one rate limit, whose limit has two conditions; metadata without addresses.\<close>

definition example_external :: external_api where
  "example_external =
     \<lparr>TypeMeta_type = TStruct [TScalar, TScalar], ObjectMeta_type = TScalar, ObjectMeta_DeepCopyInto = keep,
      ListMeta_type = TScalar, ListMeta_DeepCopyInto = keep,
      PolicyTargetReference_type = TScalar, PolicyTargetReference_DeepCopyInto = keep, Condition_type = TScalar,
      Condition_DeepCopyInto = keep, AuthConfigSpec_type = TScalar, AuthConfigSpec_DeepCopyInto = keep\<rparr>"

definition example_memory :: memory where
  "example_memory =
     [[Scalar ''a'', Scalar ''b''],
      [Struct [Scalar ''5'', Scalar ''60'', Ref (Some 0), Ref None]],
      [Struct [Ref None, Ref None, Ref (Some 1)]],
      [Struct [Struct [Scalar ''RateLimitPolicy'', Scalar ''v1alpha1''], Scalar ''rlp'',
         Struct [Scalar ''toystore'', Ref (Some 2)], Struct [Scalar ''0'', Ref None, Ref None]]]]"

theorem DeepCopyObject_separate_witness:
  "case RateLimitPolicy_DeepCopyObject example_external (Ref (Some 3)) example_memory of (q, h) \<Rightarrow>
     q = Ref (Some 7) \<and> h ! 4 = [Scalar ''a'', Scalar ''b''] \<and>
     read (TRef (RateLimitPolicy_type example_external)) (h[4 := [Scalar ''changed'']]) (Ref (Some 3)) =
       read (TRef (RateLimitPolicy_type example_external)) example_memory (Ref (Some 3))"
proof -
  let ?t = "RateLimitPolicy_type example_external"
  have ext: "externals_deep example_external"
    by (simp add: externals_deep_def example_external_def deep_copier_scalar)
  have obj: "(?t, RateLimitPolicy_DeepCopyObject example_external) \<in> set (api_objects example_external)"
    by (simp add: api_objects_def)
  have typed: "has_type (TRef ?t) example_memory (Ref (Some 3))" by code_simp
  obtain q h where run: "RateLimitPolicy_DeepCopyObject example_external (Ref (Some 3)) example_memory = (q, h)"
    by fastforce
  have "RateLimitPolicy_DeepCopyObject example_external (Ref (Some 3)) example_memory =
      (Ref (Some 7), example_memory @ [[Scalar ''a'', Scalar ''b''],
        [Struct [Scalar ''5'', Scalar ''60'', Ref (Some 4), Ref None]],
        [Struct [Ref None, Ref None, Ref (Some 5)]],
        [Struct [Struct [Scalar ''RateLimitPolicy'', Scalar ''v1alpha1''], Scalar ''rlp'',
           Struct [Scalar ''toystore'', Ref (Some 6)], Struct [Scalar ''0'', Ref None, Ref None]]]])"
    by code_simp
  with run have q: "q = Ref (Some 7)" and h: "h = example_memory @ [[Scalar ''a'', Scalar ''b''],
        [Struct [Scalar ''5'', Scalar ''60'', Ref (Some 4), Ref None]],
        [Struct [Ref None, Ref None, Ref (Some 5)]],
        [Struct [Struct [Scalar ''RateLimitPolicy'', Scalar ''v1alpha1''], Scalar ''rlp'',
           Struct [Scalar ''toystore'', Ref (Some 6)], Struct [Scalar ''0'', Ref None, Ref None]]]]"
    by simp_all
  have "4 \<in> reach (TRef ?t) h q" unfolding q h by code_simp
  with DeepCopyObject_separate[OF ext obj typed run]
  have "read (TRef ?t) (h[4 := [Scalar ''changed'']]) (Ref (Some 3)) = read (TRef ?t) example_memory (Ref (Some 3))"
    by blast
  moreover have "h ! 4 = [Scalar ''a'', Scalar ''b'']" by (simp add: h example_memory_def)
  ultimately show ?thesis using q by (simp add: run)
qed

end
