(* ===== verification/Spec2Isabelle.thy ===== *)
theory Spec2Isabelle
  imports Settling Cleanup_Progress AP_Progress Permissions Program_Scheme Service_Ports Deep_Copy_Types
begin

text \<open>
  A model of the Kuadrant controller: a Kubernetes operator that turns the custom resources
  RateLimitPolicy and AuthPolicy, each attached to an HTTPRoute or a Gateway of the Gateway API,
  into the configuration of the gateways behind the target: limits of a Limitador, WasmPlugins and
  EnvoyFilters of Istio for the one, AuthorizationPolicies of Istio and AuthConfigs of Authorino for
  the other. All paths below are under src/.

  \<^bold>\<open>How the program is put together\<close>

  Two reconcilers (controllers/apim/ratelimitpolicy_*.go and authpolicy_*.go) each have a function
  Reconcile that is called with the key of a policy: when the policy changed, or when an event mapper
  (controllers/apim/*_eventmapper.go) turned the change of another object into its key. Both use the
  base reconciler (pkg/reconcilers/base_reconciler.go) for reads and writes and the target reference
  reconciler (pkg/reconcilers/targetref_reconciler.go) for the target. They keep no state of their
  own; all state is in the cluster: the annotation of a target that names the one policy that holds
  it (the back reference), the annotation of a gateway that lists the RateLimitPolicies configuring
  it (the references), the finalizer of a policy, and the objects that are generated.

  \<^bold>\<open>How it is modelled\<close>

  A Go function that reads or writes the cluster is a computation \<open>('w, 'a) io\<close>, which is
  \<open>'w \<Rightarrow> (go_error + 'a) \<times> 'w\<close>: errors are values, a run-time panic is an error that \<open>attempt\<close>
  (the branches on \<open>err\<close>) does not catch. The world \<open>'w\<close> is arbitrary. What the program calls and
  does not contain (the Kubernetes client, apimachinery and operator helpers, encoding/json and
  protobuf, the order of map ranges, the environment) is the record \<open>'w env\<close>, an argument of every
  function. Theorems about whole reconcilers assume \<open>cluster_api c V\<close>: each kind of object is a store
  with the documented behaviour of the API server while nobody else writes, and \<open>V\<close> reads the state
  of the cluster, a \<open>snapshot\<close>, in a world. \<open>cluster_env\<close>, lists of objects, satisfies it, and the
  witnesses run the reconcilers on it.

  The cluster as a whole is a state machine (\<open>cluster_step\<close>): a step is a reconciliation of either
  controller for any key, with any outcome, errors in the middle included, or a write of somebody
  else between two of them (\<open>user_step\<close>). These writes may create, edit and delete policies, gateways
  and routes, but a stored policy keeps its target, a gateway the annotation with the references and
  a route its parents, and routes are not deleted. The first three would break the invariant
  by themselves; what a deleted route leads to is the property \<open>stale_references_survive\<close>.

  Objects are values, in which a deep copy is the identity and a write to one object is not seen in
  another. That the program may be read so rests on the generated functions DeepCopy, with which the
  client's cache and the mutators copy objects; these are modelled with a memory of pointers and
  slices, and shown to share nothing with the original.

  \<^bold>\<open>The theories\<close>

  \<^item> Prelude: slices, errors, the computations and their rules (\<open>io_run\<close>, \<open>pres\<close>: what a computation
    preserves), maps as association lists. Go_Strings: strings.Split, HasSuffix, Compare, sort.Sort,
    and the locales \<open>key_codec\<close> (a text that is read back) and \<open>total_less\<close> (a strict order for
    sorting). K8s_Types: the records of Kubernetes, Gateway API, Limitador, Istio and Authorino
    objects. JSON_Text: a concrete encoder for the witnesses and the locale \<open>refs_json\<close>.
  \<^item> Hostname (pkg/common/hostname.go), Common (common.go, k8s_utils.go,
    apimachinery_status_conditions.go), Service_Ports (GetServicePortNumber), Gateway_API
    (gatewayapi_utils.go), API_Types (apis/apim/v1alpha1): SubsetOf is inclusion of the sets of
    hosts; keys and limit namespaces are read back; validation; comparison of statuses.
  \<^item> Gateway_Refs (pkg/rlptools/gateway_utils.go): the references of a gateway as an abstract set
    (locale \<open>ref_store\<close>) and the groups of new, same and left gateways. Limit_Index
    (limit_index.go): the index of limits as a function from gateway and domain to limits (locale
    \<open>limit_store\<close>), its comparison as equality of multisets, its round trip through the Limitador.
    Wasm_Utils (wasm_utils.go and pkg/istio/envoy_filters.go): plugin configuration and mutators.
  \<^item> Client (base_reconciler.go) and Cluster: the client, its contract, ReconcileResource, and the
    concrete cluster. TargetRef (targetref_reconciler.go): fetching a target, its gateways and hosts,
    claiming and releasing it.
  \<^item> RLP_Limits, RLP_Wasm, RLP_EnvoyFilter (ratelimitpolicy_limits.go, ratelimitpolicy_wasm_plugins.go,
    ratelimitpolicy_cluster_envoy_filter.go): each step leaves exactly the objects the references of
    the gateways call for. \<open>resolve\<close> is the abstract reading of a reference list, \<open>limits_for\<close>,
    \<open>config_for\<close> and \<open>filter_as_wanted\<close> what it calls for. RLP_Gateways (ratelimitpolicy_controller.go):
    the gateway diff, the references, the order of the steps, reconcileSpec. RLP_Finalizer
    (ratelimitpolicy_finalizers.go): the clean-up. RLP_Controller (ratelimitpolicy_status.go and
    Reconcile): status, deletion, and what a successful Reconcile has brought about.
  \<^item> Auth_Policy and AP_Lifecycle (authpolicy_controller.go, authpolicy_utils.go, authpolicy_status.go):
    the same for AuthPolicy. Event_Mappers: the mappers and the watches of both controllers, and that
    they lead from an object to the policies that depend on it. Footprint: what a run may write,
    whatever its outcome, and that the finalizer is written first. Progress and AP_Progress: when a
    reconciliation of a RateLimitPolicy or an AuthPolicy succeeds, on an API server that answers
    (\<open>cluster_responds\<close>, \<open>auth_responds\<close>); Cleanup_Progress: when the deletion of a RateLimitPolicy
    does, and exactly when that of an AuthPolicy does. Consistency: the invariant of the cluster, that every
    gateway has what its own references call for. The properties of both controllers together are
    in this theory.
  \<^item> Reference_Bounds and System: the state machine of the cluster. Reference_Bounds bounds what each
    function of the RateLimitPolicy controller does to the references, on every outcome; System
    has the steps, the reachable states and the invariant that references do not dangle. Settling:
    a successful reconciliation leaves the next one nothing to do but the status.
  \<^item> Journal, Write_Order and Journal_Runs: the writes of a run, in order, each with the answer of the
    API server. \<open>journal c\<close> is the environment \<open>c\<close> that notes every write; nothing is assumed of
    \<open>c\<close>, whose world may change between two calls as it likes, so that these theorems hold with
    writes of others in the middle of a Reconcile. Journal has the patterns of calls (\<open>follows\<close>), one
    rule for each way of composing computations (\<open>orderly\<close>) and the locale \<open>journaled\<close>, the part both
    Reconcile functions share; Write_Order has the pattern of every function and interprets the
    locale for both controllers; Journal_Runs shows that a journal changes nothing of a run, and
    has the properties. Permissions: the kubebuilder:rbac markers cover all these writes.
  \<^item> Log_Options (pkg/log/log.go) and Program (main.go, the constructors of the reconcilers and
    SetupWithManager): the logger, the order of the set-up and the exit status, and that the watches
    that are registered are the ones of Event_Mappers. Program_Scheme: the API group and the
    registration of its types (groupversion_info.go), the version and the first log lines, and what
    the controllers inherit from the base reconciler.
  \<^item> Deep_Copy and Deep_Copy_Types (zz_generated.deepcopy.go): memories, the forms of generated code
    with one lemma for each, and every type and function of the file.

  A function \<open>f\<close> of the code is the definition \<open>f\<close>; where both controllers have a function of one
  name the definitions are told apart by \<open>rlp_\<close> and \<open>ap_\<close>. A lemma \<open>f_run\<close> states what a run of
  \<open>f\<close> does against \<open>cluster_api\<close>, and the property of the same function is a consequence of it.
  Lemmas \<open>preserves_f\<close> state what \<open>f\<close> leaves alone, whatever its outcome.

  \<^bold>\<open>Bounds\<close>

  Every loop of the program runs over a list or a map and is a structural recursion (\<open>foldE\<close>,
  \<open>forE\<close>, \<open>mapE\<close>); there is no fuel, and every function of the model is total. Integers are
  unbounded where the code only compares and copies them (limits, generations); the port number of
  GetServicePortNumber is a \<open>32 word\<close>.

  \<^bold>\<open>Not modelled\<close>

  Log lines other than the first ones of main, String methods that print JSON, the named levels of
  pkg/log (constants of zap) and the wrapper structs of the reconcilers and mappers, which only hold
  a client and a logger. What controller-runtime does with a registered controller (queues, retries,
  leader election) is not in this repository: a request is a call of Reconcile. Where a write of
  somebody else may come in the middle of a Reconcile, the order of the writes, the errors reported
  and the permissions are covered by the theorems on journals; what the objects hold afterwards is
  stated under \<open>cluster_api\<close>, for runs without such writes.
\<close>

text \<open>
  C5: The two controllers do not interfere. Whatever the outcome of a reconciliation of a
  RateLimitPolicy, no AuthPolicy, AuthorizationPolicy or AuthConfig is written. Whatever the outcome
  of a reconciliation of an AuthPolicy, no RateLimitPolicy, Limitador, WasmPlugin or EnvoyFilter is
  written, and of a gateway or a route neither the references to RateLimitPolicies nor the back
  reference of one, nor what the plugins and filters are computed from.
\<close>

theorem controllers_independent:
  assumes "cluster_api c V"
  shows "(rlp_Reconcile c req w = (r1, w1) \<longrightarrow>
      sn_APs (V w1) = sn_APs (V w) \<and> sn_AuthorizationPolicies (V w1) = sn_AuthorizationPolicies (V w) \<and>
      sn_AuthConfigs (V w1) = sn_AuthConfigs (V w)) \<and>
    (ap_Reconcile c req w = (r2, w2) \<longrightarrow>
      sn_RLPs (V w2) = sn_RLPs (V w) \<and> sn_Limitadors (V w2) = sn_Limitadors (V w) \<and>
      sn_WasmPlugins (V w2) = sn_WasmPlugins (V w) \<and> sn_EnvoyFilters (V w2) = sn_EnvoyFilters (V w) \<and>
      (\<forall>k. rel_option (\<lambda>g g'. refs_of (lib_Json c) (Some g') = refs_of (lib_Json c) (Some g) \<and>
          annotations_of g' RateLimitPolicyBackRefAnnotation = annotations_of g RateLimitPolicyBackRefAnnotation \<and>
          same_config g' g) (sn_Gateways (V w) k) (sn_Gateways (V w2) k)) \<and>
      (\<forall>k. rel_option (\<lambda>r r'. rt_Hostnames r' = rt_Hostnames r \<and> rt_Rules r' = rt_Rules r \<and>
          rt_ParentRefs r' = rt_ParentRefs r \<and>
          annotations_of r' RateLimitPolicyBackRefAnnotation = annotations_of r RateLimitPolicyBackRefAnnotation)
        (sn_HTTPRoutes (V w) k) (sn_HTTPRoutes (V w2) k)))"
proof (intro conjI impI)
  assume "rlp_Reconcile c req w = (r1, w1)"
  from rlp_Reconcile_auth_side[OF assms this]
  show "sn_APs (V w1) = sn_APs (V w)" "sn_AuthorizationPolicies (V w1) = sn_AuthorizationPolicies (V w)"
    "sn_AuthConfigs (V w1) = sn_AuthConfigs (V w)"
    by (simp_all add: auth_side_def)
next
  assume "ap_Reconcile c req w = (r2, w2)"
  note sel = ap_footprint_sel[OF ap_Reconcile_footprint[OF assms this]]
  show "sn_RLPs (V w2) = sn_RLPs (V w)" "sn_Limitadors (V w2) = sn_Limitadors (V w)"
    "sn_WasmPlugins (V w2) = sn_WasmPlugins (V w)" "sn_EnvoyFilters (V w2) = sn_EnvoyFilters (V w)"
    by (rule sel)+
  show "\<forall>k. rel_option (\<lambda>g g'. refs_of (lib_Json c) (Some g') = refs_of (lib_Json c) (Some g) \<and>
      annotations_of g' RateLimitPolicyBackRefAnnotation = annotations_of g RateLimitPolicyBackRefAnnotation \<and>
      same_config g' g) (sn_Gateways (V w) k) (sn_Gateways (V w2) k)"
  proof
    fix k
    show "rel_option (\<lambda>g g'. refs_of (lib_Json c) (Some g') = refs_of (lib_Json c) (Some g) \<and>
      annotations_of g' RateLimitPolicyBackRefAnnotation = annotations_of g RateLimitPolicyBackRefAnnotation \<and>
      same_config g' g) (sn_Gateways (V w) k) (sn_Gateways (V w2) k)"
      by (rule option.rel_mono_strong[OF sel(5)])
        (use auth_annotation_neq in \<open>simp add: reannotated_gateway(1,2), simp add: reannotated_def\<close>)
  qed
  show "\<forall>k. rel_option (\<lambda>r r'. rt_Hostnames r' = rt_Hostnames r \<and> rt_Rules r' = rt_Rules r \<and>
      rt_ParentRefs r' = rt_ParentRefs r \<and>
      annotations_of r' RateLimitPolicyBackRefAnnotation = annotations_of r RateLimitPolicyBackRefAnnotation)
    (sn_HTTPRoutes (V w) k) (sn_HTTPRoutes (V w2) k)"
  proof
    fix k
    show "rel_option (\<lambda>r r'. rt_Hostnames r' = rt_Hostnames r \<and> rt_Rules r' = rt_Rules r \<and>
      rt_ParentRefs r' = rt_ParentRefs r \<and>
      annotations_of r' RateLimitPolicyBackRefAnnotation = annotations_of r RateLimitPolicyBackRefAnnotation)
    (sn_HTTPRoutes (V w) k) (sn_HTTPRoutes (V w2) k)"
      by (rule option.rel_mono_strong[OF sel(6)])
        (use auth_annotation_neq in \<open>simp add: reannotated_route, simp add: reannotated_def\<close>)
  qed
qed

theorem controllers_independent_witness:
  "sn_WasmPlugins (cluster_view (snd (ap_Reconcile cluster_env (ObjectKey ''default'' ''ap'') guarded_cluster))) =
     sn_WasmPlugins (cluster_view guarded_cluster) \<and>
   sn_AuthorizationPolicies (cluster_view (snd (rlp_Reconcile cluster_env (ObjectKey ''default'' ''rlp'') guarded_cluster))) =
     sn_AuthorizationPolicies (cluster_view guarded_cluster)"
proof -
  obtain r1 w1 where rlp: "rlp_Reconcile cluster_env (ObjectKey ''default'' ''rlp'') guarded_cluster = (r1, w1)"
    by fastforce
  obtain r2 w2 where ap: "ap_Reconcile cluster_env (ObjectKey ''default'' ''ap'') guarded_cluster = (r2, w2)"
    by fastforce
  show ?thesis
    using controllers_independent[OF cluster_env_api, THEN conjunct1, rule_format, OF rlp]
      controllers_independent[OF cluster_env_api, THEN conjunct2, rule_format, OF ap]
    by (simp add: rlp ap)
qed



end
